(* ===== verification/Prelude.thy ===== *)
theory Prelude
  imports Complex_Main "HOL-Library.AList" "HOL-Library.Sublist"
begin

text \<open>
  What the components share: Python strings as lists of code points, results that may be an
  exception, insertion-ordered dictionaries with string keys, the short-circuit loops of
  \<open>all\<close>, \<open>any\<close> and comprehensions over conditions that may raise, and the lemma collections
  \<open>res_simps\<close> (results) and \<open>dict_simps\<close> (dictionaries) that the component proofs draw on.
\<close>

named_theorems res_simps \<open>case analysis and evaluation of results that may be an exception\<close>
named_theorems dict_simps \<open>lookup, update and merge of dictionaries\<close>

section \<open>Strings\<close>

text \<open>
  A Python \<open>str\<close> is a sequence of code points, each the integer \<open>ord\<close> returns. The literals of
  the source are ASCII and are written \<open>str ''...''\<close>.
\<close>

type_synonym pystr = "int list"

definition str :: "string \<Rightarrow> pystr" where
  "str s = map of_char s"

lemma str_eq_iff [simp]: "str s = str t \<longleftrightarrow> s = t"
  by (simp add: str_def inj_map_eq_map inj_of_char)

lemma str_eq_Nil_iff [simp]: "str s = [] \<longleftrightarrow> s = []"
  by (simp add: str_def)

lemma Nil_eq_str_iff [simp]: "[] = str s \<longleftrightarrow> s = []"
  by (cases s) (simp_all add: str_def)

lemma length_str [simp]: "length (str s) = length s"
  by (simp add: str_def)

lemma str_append: "str (s @ t) = str s @ str t"
  by (simp add: str_def)

text \<open>\<open>s.startswith(p)\<close> and \<open>s.endswith(p)\<close>; \<open>p in s\<close> for strings; \<open>s.split(sep)\<close> for a one-character
  separator; \<open>sep.join(parts)\<close>.\<close>

definition startswith :: "pystr \<Rightarrow> pystr \<Rightarrow> bool" where
  "startswith s p \<longleftrightarrow> take (length p) s = p"

definition endswith :: "pystr \<Rightarrow> pystr \<Rightarrow> bool" where
  "endswith s p \<longleftrightarrow> startswith (rev s) (rev p)"

fun is_substring :: "pystr \<Rightarrow> pystr \<Rightarrow> bool" where
  "is_substring p [] \<longleftrightarrow> p = []"
| "is_substring p (c # s) \<longleftrightarrow> startswith (c # s) p \<or> is_substring p s"

fun split_on :: "int \<Rightarrow> pystr \<Rightarrow> pystr list" where
  "split_on sep [] = [[]]"
| "split_on sep (c # s) =
     (if c = sep then [] # split_on sep s
      else (case split_on sep s of [] \<Rightarrow> [[c]] | p # ps \<Rightarrow> (c # p) # ps))"

fun join :: "pystr \<Rightarrow> pystr list \<Rightarrow> pystr" where
  "join sep [] = []"
| "join sep [p] = p"
| "join sep (p # q # ps) = p @ sep @ join sep (q # ps)"

text \<open>\<open>s.partition(c)\<close> and \<open>s.rpartition(c)\<close>: before, whether found, after.\<close>

definition partition_at :: "int \<Rightarrow> pystr \<Rightarrow> pystr \<times> bool \<times> pystr" where
  "partition_at c s =
     (if c \<in> set s then (takeWhile (\<lambda>x. x \<noteq> c) s, True, tl (dropWhile (\<lambda>x. x \<noteq> c) s)) else (s, False, []))"

definition rpartition_at :: "int \<Rightarrow> pystr \<Rightarrow> pystr \<times> bool \<times> pystr" where
  "rpartition_at c s =
     (case partition_at c (rev s) of (a, found, b) \<Rightarrow> if found then (rev b, True, rev a) else ([], False, s))"

text \<open>A message's quoted part.\<close>

definition quoted :: "pystr \<Rightarrow> pystr" where
  "quoted s = [39] @ s @ [39]"

lemma startswith_iff: "startswith s p \<longleftrightarrow> (\<exists>t. s = p @ t)"
  unfolding startswith_def by (metis append_eq_conv_conj append_take_drop_id)

lemma startswith_append [simp]: "startswith (p @ s) p"
  by (simp add: startswith_def)

lemma endswith_iff: "endswith s p \<longleftrightarrow> (\<exists>t. s = t @ p)"
proof -
  have "(\<exists>t. rev s = rev p @ t) \<longleftrightarrow> (\<exists>t. s = t @ p)"
    by (metis rev_append rev_rev_ident)
  then show ?thesis by (simp add: endswith_def startswith_iff)
qed

lemma is_substring_iff: "is_substring p s \<longleftrightarrow> (\<exists>a b. s = a @ p @ b)"
proof (induction s)
  case Nil
  show ?case by auto
next
  case (Cons c s)
  show ?case
    by (simp add: startswith_iff Cons.IH) (metis append_Cons append_Nil list.exhaust list.inject)
qed

lemma split_on_not_Nil [simp]: "split_on sep s \<noteq> []"
  by (induction s) (auto split: list.splits)

lemma join_Cons: "ps \<noteq> [] \<Longrightarrow> join sep (p # ps) = p @ sep @ join sep ps"
  by (cases ps) simp_all

lemma join_split_on: "join [sep] (split_on sep s) = s"
proof (induction s)
  case Nil
  show ?case by simp
next
  case (Cons c s)
  show ?case
  proof (cases "c = sep")
    case True
    with Cons show ?thesis by (simp add: join_Cons)
  next
    case False
    obtain p ps where ps: "split_on sep s = p # ps" by (cases "split_on sep s") simp_all
    with False Cons show ?thesis by (cases ps) simp_all
  qed
qed

lemma split_on_no_sep: "sep \<notin> set s \<Longrightarrow> split_on sep s = [s]"
  by (induction s) auto

lemma split_on_append_sep: "sep \<notin> set p \<Longrightarrow> split_on sep (p @ sep # s) = p # split_on sep s"
  by (induction p) auto

lemma split_on_join:
  "ps \<noteq> [] \<Longrightarrow> (\<And>p. p \<in> set ps \<Longrightarrow> sep \<notin> set p) \<Longrightarrow> split_on sep (join [sep] ps) = ps"
proof (induction ps rule: induct_list012)
  case 1
  then show ?case by simp
next
  case (2 p)
  then show ?case by (simp add: split_on_no_sep)
next
  case (3 p q ps)
  then show ?case by (simp add: split_on_append_sep)
qed

lemma split_on_parts: "p \<in> set (split_on sep s) \<Longrightarrow> sep \<notin> set p"
  by (induction s arbitrary: p) (auto split: if_splits list.splits)

section \<open>Exceptions and results\<close>

text \<open>
  The exceptions the source raises or lets through, as far as an \<open>except\<close> clause or a caller can
  tell them apart. \<open>UnicodeError\<close> and \<open>JSONDecodeError\<close> are subclasses of Python's
  \<open>ValueError\<close>, and so are \<open>ConfigError\<close> (\<open>AuthConfigError\<close>, \<open>ContextConfigError\<close>) and
  \<open>TicketError\<close> (\<open>ApprovalTicketError\<close>); \<open>JwtError\<close> is \<open>jwt.PyJWTError\<close>, with \<open>JwtExpired\<close> its subclass
  \<open>ExpiredSignatureError\<close>; \<open>OtherError\<close> is any other subclass of \<open>Exception\<close> (by class name).
\<close>

datatype pyexc =
    ValueError pystr
  | UnicodeError
  | JSONDecodeError
  | ConfigError pystr
  | TicketError pystr
  | TypeError
  | OverflowError
  | AttributeError
  | KeyError pystr
  | JwtError pystr
  | JwtExpired
  | OtherError pystr

type_synonym 'a res = "pyexc + 'a"

text \<open>\<open>except ValueError\<close> and \<open>except jwt.PyJWTError\<close>.\<close>

fun is_value_error :: "pyexc \<Rightarrow> bool" where
  "is_value_error (ValueError _) = True"
| "is_value_error UnicodeError = True"
| "is_value_error JSONDecodeError = True"
| "is_value_error (ConfigError _) = True"
| "is_value_error (TicketError _) = True"
| "is_value_error _ = False"

fun is_jwt_error :: "pyexc \<Rightarrow> bool" where
  "is_jwt_error (JwtError _) = True"
| "is_jwt_error JwtExpired = True"
| "is_jwt_error _ = False"

fun rbind :: "'e + 'a \<Rightarrow> ('a \<Rightarrow> 'e + 'b) \<Rightarrow> 'e + 'b" where
  "rbind (Inl e) f = Inl e"
| "rbind (Inr x) f = f x"

fun rmap :: "('a \<Rightarrow> 'b) \<Rightarrow> 'e + 'a \<Rightarrow> 'e + 'b" where
  "rmap f (Inl e) = Inl e"
| "rmap f (Inr x) = Inr (f x)"

lemma rbind_eq_Inr [res_simps]: "rbind m f = Inr y \<longleftrightarrow> (\<exists>x. m = Inr x \<and> f x = Inr y)"
  by (cases m) simp_all

lemma rbind_eq_Inl [res_simps]: "rbind m f = Inl e \<longleftrightarrow> m = Inl e \<or> (\<exists>x. m = Inr x \<and> f x = Inl e)"
  by (cases m) simp_all

lemma rmap_eq_Inr [res_simps]: "rmap f m = Inr y \<longleftrightarrow> (\<exists>x. m = Inr x \<and> y = f x)"
  by (cases m) auto

lemma rmap_eq_Inl [res_simps]: "rmap f m = Inl e \<longleftrightarrow> m = Inl e"
  by (cases m) auto

text \<open>
  A comprehension \<open>[f(x) for x in xs]\<close>, \<open>[x for x in xs if p(x)]\<close>, and \<open>all\<close>/\<open>any\<close> over a
  generator: left to right, stopping at the first exception (and at the first decisive value).
\<close>

fun mapM :: "('a \<Rightarrow> 'e + 'b) \<Rightarrow> 'a list \<Rightarrow> 'e + 'b list" where
  "mapM f [] = Inr []"
| "mapM f (x # xs) = rbind (f x) (\<lambda>y. rmap ((#) y) (mapM f xs))"

fun filterM :: "('a \<Rightarrow> 'e + bool) \<Rightarrow> 'a list \<Rightarrow> 'e + 'a list" where
  "filterM p [] = Inr []"
| "filterM p (x # xs) = rbind (p x) (\<lambda>b. rmap (\<lambda>ys. if b then x # ys else ys) (filterM p xs))"

fun allM :: "('a \<Rightarrow> 'e + bool) \<Rightarrow> 'a list \<Rightarrow> 'e + bool" where
  "allM p [] = Inr True"
| "allM p (x # xs) = rbind (p x) (\<lambda>b. if b then allM p xs else Inr False)"

fun anyM :: "('a \<Rightarrow> 'e + bool) \<Rightarrow> 'a list \<Rightarrow> 'e + bool" where
  "anyM p [] = Inr False"
| "anyM p (x # xs) = rbind (p x) (\<lambda>b. if b then Inr True else anyM p xs)"

lemma mapM_eq_Inr: "mapM f xs = Inr ys \<longleftrightarrow> list_all2 (\<lambda>x y. f x = Inr y) xs ys"
  by (induction xs arbitrary: ys) (auto simp: res_simps list_all2_Cons1)

lemma mapM_total: "(\<And>x. x \<in> set xs \<Longrightarrow> f x = Inr (g x)) \<Longrightarrow> mapM f xs = Inr (map g xs)"
  by (induction xs) simp_all

lemma filterM_eq_Inr:
  "filterM p xs = Inr ys \<Longrightarrow> ys = filter (\<lambda>x. p x = Inr True) xs \<and> (\<forall>x \<in> set xs. \<exists>b. p x = Inr b)"
proof (induction xs arbitrary: ys)
  case Nil
  then show ?case by simp
next
  case (Cons x xs)
  from Cons.prems obtain b zs where "p x = Inr b" "filterM p xs = Inr zs"
    "ys = (if b then x # zs else zs)"
    by (auto simp: res_simps)
  with Cons.IH [of zs] show ?case by auto
qed

lemma filterM_total: "(\<And>x. x \<in> set xs \<Longrightarrow> p x = Inr (q x)) \<Longrightarrow> filterM p xs = Inr (filter q xs)"
  by (induction xs) simp_all

lemma allM_total: "(\<And>x. x \<in> set xs \<Longrightarrow> p x = Inr (q x)) \<Longrightarrow> allM p xs = Inr (list_all q xs)"
  by (induction xs) simp_all

lemma anyM_total: "(\<And>x. x \<in> set xs \<Longrightarrow> p x = Inr (q x)) \<Longrightarrow> anyM p xs = Inr (list_ex q xs)"
  by (induction xs) simp_all

lemma allM_eq_True: "allM p xs = Inr True \<longleftrightarrow> (\<forall>x \<in> set xs. p x = Inr True)"
  by (induction xs) (auto simp: res_simps split: if_splits)

lemma anyM_eq_True_imp: "anyM p xs = Inr True \<Longrightarrow> \<exists>x \<in> set xs. p x = Inr True"
  by (induction xs) (auto simp: res_simps split: if_splits)

lemma anyM_eq_False: "anyM p xs = Inr False \<longleftrightarrow> (\<forall>x \<in> set xs. p x = Inr False)"
  by (induction xs) (auto simp: res_simps split: if_splits)

lemmas loop_total = mapM_total filterM_total allM_total anyM_total

text \<open>\<open>os.environ.get(name)\<close>, and with a default.\<close>

type_synonym environ = "string \<Rightarrow> pystr option"

definition env_get :: "environ \<Rightarrow> string \<Rightarrow> pystr \<Rightarrow> pystr" where
  "env_get env name dflt = (case env name of None \<Rightarrow> dflt | Some v \<Rightarrow> v)"

section \<open>Dictionaries\<close>

text \<open>
  A \<open>dict\<close> with string keys keeps insertion order: \<open>d[k] = v\<close> overwrites in place or appends,
  which is \<^const>\<open>AList.update\<close>; \<open>d.get(k)\<close> is \<^const>\<open>map_of\<close>; \<open>d.update(e)\<close> and the display
  \<open>{**d, **e}\<close> store the items of \<open>e\<close> one after the other.
\<close>

fun dmerge :: "('k \<times> 'v) list \<Rightarrow> ('k \<times> 'v) list \<Rightarrow> ('k \<times> 'v) list" where
  "dmerge d [] = d"
| "dmerge d ((k, v) # e) = dmerge (AList.update k v d) e"

definition dict_ok :: "('k \<times> 'v) list \<Rightarrow> bool" where
  "dict_ok d \<longleftrightarrow> distinct (map fst d)"

lemma map_of_update [dict_simps]: "map_of (AList.update k v d) k' = (if k' = k then Some v else map_of d k')"
  by (simp add: update_conv)

lemma dict_ok_Nil [simp]: "dict_ok []"
  by (simp add: dict_ok_def)

lemma dict_ok_Cons: "dict_ok ((k, v) # d) \<longleftrightarrow> k \<notin> fst ` set d \<and> dict_ok d"
  by (auto simp: dict_ok_def)

lemma dict_ok_update [dict_simps]: "dict_ok d \<Longrightarrow> dict_ok (AList.update k v d)"
  unfolding dict_ok_def by (rule distinct_update)

lemma dict_ok_dmerge [dict_simps]: "dict_ok d \<Longrightarrow> dict_ok (dmerge d e)"
  by (induction d e rule: dmerge.induct) (simp_all add: dict_simps)

lemma map_of_dmerge_notin: "k \<notin> fst ` set e \<Longrightarrow> map_of (dmerge d e) k = map_of d k"
  by (induction d e rule: dmerge.induct) (auto simp: dict_simps)

lemma map_of_dmerge:
  "dict_ok e \<Longrightarrow> map_of (dmerge d e) k = (case map_of e k of None \<Rightarrow> map_of d k | Some v \<Rightarrow> Some v)"
proof (induction d e rule: dmerge.induct)
  case (1 d)
  show ?case by simp
next
  case (2 d k' v e)
  then have ok: "dict_ok e" "k' \<notin> fst ` set e" by (simp_all add: dict_ok_Cons)
  show ?case
  proof (cases "k = k'")
    case True
    with ok have "map_of e k = None" by (simp add: map_of_eq_None_iff)
    with True ok show ?thesis by (simp add: map_of_dmerge_notin dict_simps)
  next
    case False
    with 2 ok show ?thesis by (simp add: dict_simps split: option.splits)
  qed
qed

lemma set_keys_update [simp]: "fst ` set (AList.update k v d) = insert k (fst ` set d)"
  by (induction d) auto

lemma set_keys_dmerge [simp]: "fst ` set (dmerge d e) = fst ` set d \<union> fst ` set e"
  by (induction d e rule: dmerge.induct) auto

end
