(* ===== verification/PyFloat.thy ===== *)
theory PyFloat
  imports Prelude
begin

text \<open>
  Python's \<open>float\<close>: IEEE-754 binary64 with rounding to nearest, ties to even. A finite float is
  its exact rational value (negative zero is the same value as zero: the code never tells them
  apart except in \<open>str()\<close> of a condition's expected value), so an operation is the exact rational
  operation followed by \<open>fl\<close>. The theory also holds \<open>round(x, 4)\<close>, Python 3.12's compensated
  \<open>sum\<close>, and the shortest decimal that \<open>repr\<close> prints, with the proof that it always exists and
  reads back as the same float.
\<close>

section \<open>Integer logarithms and powers over the rationals\<close>

function ilogZ :: "int \<Rightarrow> int \<Rightarrow> int" where
  "ilogZ b n = (if b \<le> 1 \<or> n < b then 0 else 1 + ilogZ b (n div b))"
  by pat_completeness auto
termination
  by (relation "measure (\<lambda>(b, n). nat n)") (auto simp: int_div_less_self)

declare ilogZ.simps [simp del]

definition rpow :: "rat \<Rightarrow> int \<Rightarrow> rat" where
  "rpow b e = (if 0 \<le> e then b ^ nat e else 1 / b ^ nat (- e))"

lemma rpow_powi: "rpow b e = b powi e"
  by (simp add: rpow_def power_int_def field_simps)

lemma rpow_pos [simp]: "0 < b \<Longrightarrow> 0 < rpow b e"
  by (simp add: rpow_def)

lemma rpow_not_neg [simp]: "0 < b \<Longrightarrow> \<not> rpow b e < 0"
  using rpow_pos [of b e] by linarith

lemma rpow_neq_0 [simp]: "0 < b \<Longrightarrow> rpow b e \<noteq> 0"
  using rpow_pos [of b e] by linarith

lemma rpow_add: "0 < b \<Longrightarrow> rpow b (d + e) = rpow b d * rpow b e"
  by (simp add: rpow_powi power_int_add)

lemma rpow_0 [simp]: "rpow b 0 = 1"
  by (simp add: rpow_def)

lemma rpow_1 [simp]: "rpow b 1 = b"
  by (simp add: rpow_def)

lemma rpow_diff: "0 < b \<Longrightarrow> rpow b (d - e) = rpow b d / rpow b e"
  by (simp add: rpow_powi power_int_diff)

lemma rpow_mono: "1 \<le> b \<Longrightarrow> d \<le> e \<Longrightarrow> rpow b d \<le> rpow b e"
  by (simp add: rpow_powi power_int_increasing)

lemma rpow_strict_mono: "1 < b \<Longrightarrow> d < e \<Longrightarrow> rpow b d < rpow b e"
  by (simp add: rpow_powi power_int_strict_increasing)

lemma rpow_less_iff: "1 < b \<Longrightarrow> rpow b d < rpow b e \<longleftrightarrow> d < e"
  by (meson linorder_not_less rpow_mono rpow_strict_mono less_imp_le)

lemma rpow_nonneg: "0 \<le> e \<Longrightarrow> rpow (of_int b) e = of_int (b ^ nat e)"
  by (simp add: rpow_def)

lemma ilogZ_bounds:
  assumes "1 < b" "0 < n"
  shows "0 \<le> ilogZ b n \<and> b ^ nat (ilogZ b n) \<le> n \<and> n < b ^ nat (ilogZ b n + 1)"
  using assms
proof (induction b n rule: ilogZ.induct)
  case (1 b n)
  show ?case
  proof (cases "n < b")
    case True
    with 1 show ?thesis by (simp add: ilogZ.simps [of b n])
  next
    case False
    let ?l = "ilogZ b (n div b)"
    from False 1 have pos: "0 < n div b" by (simp add: pos_imp_zdiv_pos_iff)
    with False 1 have IH: "0 \<le> ?l" "b ^ nat ?l \<le> n div b" "n div b < b ^ nat (?l + 1)" by auto
    have eq: "ilogZ b n = 1 + ?l" using False 1 by (simp add: ilogZ.simps [of b n])
    have dm: "n = b * (n div b) + n mod b" "0 \<le> n mod b" "n mod b < b" using 1 by simp_all
    have "b * b ^ nat ?l \<le> b * (n div b)" using IH 1 by simp
    then have "b * b ^ nat ?l \<le> n" using dm by linarith
    then have lo: "b ^ nat (1 + ?l) \<le> n" using IH by (simp add: nat_add_distrib)
    have "n div b + 1 \<le> b ^ nat (?l + 1)" using IH by simp
    then have "b * (n div b + 1) \<le> b * b ^ nat (?l + 1)" using 1 by simp
    moreover have "b * (n div b + 1) = b * (n div b) + b" by (simp add: distrib_left)
    then have "n < b * (n div b + 1)" using dm by linarith
    ultimately have "n < b * b ^ nat (?l + 1)" by linarith
    moreover have "b * b ^ nat (?l + 1) = b ^ nat (1 + ?l + 1)" using IH by (simp add: nat_add_distrib)
    ultimately have "n < b ^ nat (1 + ?l + 1)" by simp
    with lo IH eq show ?thesis by simp
  qed
qed

definition ilog :: "int \<Rightarrow> rat \<Rightarrow> int" where
  "ilog b q = (case quotient_of q of (n, d) \<Rightarrow>
     let e = ilogZ b n - ilogZ b d
     in if rpow (of_int b) e \<le> q then e else e - 1)"

text \<open>\<open>ilog b q\<close> is the exponent of the leading digit of \<open>q\<close> in base \<open>b\<close>.\<close>

lemma ilog_bounds:
  assumes b: "1 < b" and q: "0 < q"
  shows "rpow (of_int b) (ilog b q) \<le> q" "q < rpow (of_int b) (ilog b q + 1)"
proof -
  obtain n d where nd: "quotient_of q = (n, d)" by (cases "quotient_of q")
  then have qv: "q = of_int n / of_int d" and d: "0 < d"
    by (simp_all add: quotient_of_div quotient_of_denom_pos)
  with q have n: "0 < n" by (simp add: zero_less_divide_iff)
  let ?B = "rat_of_int b" and ?l = "ilogZ b n" and ?m = "ilogZ b d"
  have B: "1 < ?B" "0 < ?B" using b by simp_all
  note nb = ilogZ_bounds [OF b n] and db = ilogZ_bounds [OF b d]
  have n1: "rpow ?B ?l \<le> of_int n" and n2: "of_int n < rpow ?B (?l + 1)"
    using nb by (auto simp: rpow_nonneg simp flip: of_int_power)
  have d1: "rpow ?B ?m \<le> of_int d" and d2: "of_int d < rpow ?B (?m + 1)"
    using db by (auto simp: rpow_nonneg simp flip: of_int_power)
  have up: "q < rpow ?B (?l - ?m + 1)"
  proof -
    have "q \<le> of_int n / rpow ?B ?m"
      unfolding qv using d1 d n B by (intro divide_left_mono) simp_all
    also have "\<dots> < rpow ?B (?l + 1) / rpow ?B ?m"
      using n2 B by (simp add: divide_strict_right_mono)
    also have "\<dots> = rpow ?B (?l - ?m + 1)"
      using B by (simp add: rpow_diff [symmetric] algebra_simps)
    finally show ?thesis .
  qed
  have lo: "rpow ?B (?l - ?m - 1) \<le> q"
  proof -
    have "rpow ?B (?l - ?m - 1) = rpow ?B ?l / rpow ?B (?m + 1)"
      using B by (simp add: rpow_diff [symmetric] algebra_simps)
    also have "\<dots> \<le> of_int n / rpow ?B (?m + 1)"
      using n1 B by (intro divide_right_mono) (simp_all add: less_imp_le)
    also have "\<dots> \<le> of_int n / of_int d"
      using d2 d n B by (intro divide_left_mono) simp_all
    finally show ?thesis using qv by simp
  qed
  from up lo show "rpow ?B (ilog b q) \<le> q" "q < rpow ?B (ilog b q + 1)"
    by (auto simp: ilog_def nd Let_def)
qed

lemma ilog_unique:
  assumes b: "1 < b" and "rpow (of_int b) e \<le> q" "q < rpow (of_int b) (e + 1)"
  shows "ilog b q = e"
proof -
  have B: "1 < rat_of_int b" using b by simp
  then have q: "0 < q" using assms(2) rpow_pos [of "of_int b" e] by linarith
  note lb = ilog_bounds [OF b q]
  have "rpow (of_int b) (ilog b q) < rpow (of_int b) (e + 1)" using lb assms by linarith
  moreover have "rpow (of_int b) e < rpow (of_int b) (ilog b q + 1)" using lb assms by linarith
  ultimately show ?thesis using B by (simp add: rpow_less_iff)
qed

section \<open>Rounding\<close>

text \<open>The nearest integer, ties to even.\<close>

definition rhe :: "rat \<Rightarrow> int" where
  "rhe r = (let f = \<lfloor>r\<rfloor>; d = r - of_int f in
     if d < 1/2 then f else if 1/2 < d then f + 1 else if even f then f else f + 1)"

lemma rhe_of_int [simp]: "rhe (of_int n) = n"
  by (simp add: rhe_def)

lemma rhe_bound: "\<bar>r - of_int (rhe r)\<bar> \<le> 1/2"
proof -
  have "of_int \<lfloor>r\<rfloor> \<le> r" "r < of_int \<lfloor>r\<rfloor> + 1" using floor_correct [of r] by simp_all
  then show ?thesis
    unfolding rhe_def Let_def abs_le_iff by (simp split: if_split) linarith
qed

lemma rhe_unique:
  assumes "\<bar>r - of_int m\<bar> < 1/2"
  shows "rhe r = m"
proof -
  have "\<bar>of_int (rhe r) - of_int m\<bar> < (1::rat)" using rhe_bound [of r] assms by linarith
  then have "\<bar>rat_of_int (rhe r - m)\<bar> < 1" by simp
  then have "\<bar>rhe r - m\<bar> < 1" by linarith
  then show ?thesis by linarith
qed

lemma rhe_mono: "r \<le> s \<Longrightarrow> rhe r \<le> rhe s"
proof (rule ccontr)
  assume le: "r \<le> s" and "\<not> rhe r \<le> rhe s"
  then have "rat_of_int (rhe s) + 1 \<le> of_int (rhe r)" by linarith
  with rhe_bound [of r] rhe_bound [of s] le
  have eq: "r = s" by linarith
  then show False using \<open>\<not> rhe r \<le> rhe s\<close> by simp
qed

lemma rhe_nonneg: "0 \<le> r \<Longrightarrow> 0 \<le> rhe r"
  using rhe_mono [of 0 r] rhe_of_int [of 0] by simp

lemma rhe_minus: "rhe (- r) = - rhe r"
proof (cases "\<exists>n. r = of_int n")
  case True
  then obtain n where "r = of_int n" ..
  then show ?thesis by (metis of_int_minus rhe_of_int)
next
  case False
  let ?f = "\<lfloor>r\<rfloor>"
  have fr: "of_int ?f < r" "r < of_int ?f + 1"
    using False floor_correct [of r] by (auto simp: order_less_le)
  have fm: "\<lfloor>- r\<rfloor> = - ?f - 1" using fr by (intro floor_unique) auto
  show ?thesis unfolding rhe_def Let_def fm by auto
qed

datatype pyfloat = Fin rat | PInf | NInf | NaN

definition ulp_exp :: "rat \<Rightarrow> int" where
  "ulp_exp q = max (ilog 2 \<bar>q\<bar> - 52) (- 1074)"

definition fl :: "rat \<Rightarrow> pyfloat" where
  "fl q = (if q = 0 then Fin 0 else
     let e = ulp_exp q; m = rhe (q / rpow 2 e)
     in if 971 < e \<or> e = 971 \<and> \<bar>m\<bar> = 2 ^ 53 then (if 0 < q then PInf else NInf)
        else Fin (of_int m * rpow 2 e))"

text \<open>The rationals that a finite float can be.\<close>

definition is_double :: "rat \<Rightarrow> bool" where
  "is_double q \<longleftrightarrow> (\<exists>m e. q = of_int m * rpow 2 e \<and> \<bar>m\<bar> < 2 ^ 53 \<and> - 1074 \<le> e \<and> e \<le> 971)"

lemma is_double_0 [simp]: "is_double 0"
  unfolding is_double_def by (rule exI [of _ 0], rule exI [of _ 0]) auto

lemma is_double_int: "\<bar>m\<bar> < 2 ^ 53 \<Longrightarrow> is_double (of_int m)"
  unfolding is_double_def by (rule exI [of _ m], rule exI [of _ 0]) simp

lemma is_double_minus [simp]: "is_double (- q) \<longleftrightarrow> is_double q"
proof -
  have "is_double q \<Longrightarrow> is_double (- q)" for q
  proof -
    assume "is_double q"
    then obtain m e where "q = of_int m * rpow 2 e" "\<bar>m\<bar> < 2 ^ 53" "- 1074 \<le> e" "e \<le> 971"
      unfolding is_double_def by blast
    then show "is_double (- q)"
      unfolding is_double_def by (intro exI [of _ "- m"] exI [of _ e]) simp
  qed
  from this [of q] this [of "- q"] show ?thesis by auto
qed

lemma ulp_exp_minus [simp]: "ulp_exp (- q) = ulp_exp q"
  by (simp add: ulp_exp_def)

text \<open>A positive double is a multiple of its own unit in the last place, with a 53-bit quotient.\<close>

lemma is_double_multiple:
  assumes "is_double q" "0 < q"
  obtains k where "q = of_int k * rpow 2 (ulp_exp q)" "0 < k" "k < 2 ^ 53" "ulp_exp q \<le> 971"
proof -
  from assms obtain m e where q: "q = of_int m * rpow 2 e" and m: "\<bar>m\<bar> < 2 ^ 53"
    and e: "- 1074 \<le> e" "e \<le> 971"
    unfolding is_double_def by blast
  from q \<open>0 < q\<close> have m0: "0 < m" by (simp add: zero_less_mult_iff)
  let ?u = "ulp_exp q"
  have lb: "rpow 2 (ilog 2 q) \<le> q" "q < rpow 2 (ilog 2 q + 1)"
    using ilog_bounds [of 2 q] \<open>0 < q\<close> by simp_all
  have "q < rpow 2 (e + 53)"
  proof -
    have "rat_of_int m < 2 ^ 53" using m m0 by (metis abs_of_pos of_int_less_iff of_int_numeral of_int_power)
    then have "q < 2 ^ 53 * rpow 2 e" unfolding q by simp
    also have "2 ^ 53 * rpow 2 e = rpow 2 (e + 53)" by (simp add: rpow_add) (simp add: rpow_def)
    finally show ?thesis .
  qed
  with lb have "rpow 2 (ilog 2 q) < rpow 2 (e + 53)" by linarith
  then have "ilog 2 q < e + 53" by (simp add: rpow_less_iff)
  with e \<open>0 < q\<close> have u: "?u \<le> e" by (simp add: ulp_exp_def)
  let ?k = "m * 2 ^ nat (e - ?u)"
  have "rpow 2 e = rpow 2 (e - ?u) * rpow 2 ?u" by (simp flip: rpow_add)
  also have "rpow 2 (e - ?u) = 2 ^ nat (e - ?u)" using u by (simp add: rpow_def)
  finally have qk: "q = of_int ?k * rpow 2 ?u" by (simp add: q)
  have "q < rpow 2 (?u + 53)"
  proof -
    have "ilog 2 q + 1 \<le> ?u + 53" using \<open>0 < q\<close> by (simp add: ulp_exp_def)
    then show ?thesis using lb rpow_mono [of 2 "ilog 2 q + 1" "?u + 53"] by simp
  qed
  also have "rpow 2 (?u + 53) = of_int (2 ^ 53) * rpow 2 ?u" by (simp add: rpow_add) (simp add: rpow_def)
  finally have "of_int ?k * rpow 2 ?u < of_int (2 ^ 53) * rpow 2 ?u" using qk by linarith
  then have "?k < 2 ^ 53" by (simp only: mult_less_cancel_right_pos rpow_pos of_int_less_iff zero_less_numeral)
  moreover have "0 < ?k" using m0 by simp
  ultimately show ?thesis using that [OF qk] u e by simp
qed

text \<open>Every double rounds to itself.\<close>

theorem fl_double: "is_double q \<Longrightarrow> fl q = Fin q"
proof -
  have pos: "fl q = Fin q" if q: "is_double q" "0 < q" for q
  proof -
    obtain k where k: "q = of_int k * rpow 2 (ulp_exp q)" "0 < k" "k < 2 ^ 53" "ulp_exp q \<le> 971"
      using is_double_multiple [OF q] .
    have "q / rpow 2 (ulp_exp q) = of_int k"
      by (subst k(1)) (simp add: order_less_imp_not_eq2 [OF rpow_pos])
    with k q show ?thesis by (simp add: fl_def Let_def)
  qed
  assume q: "is_double q"
  consider "q = 0" | "0 < q" | "0 < - q" by linarith
  then show ?thesis
  proof cases
    case 1
    then show ?thesis by (simp add: fl_def)
  next
    case 2
    with q show ?thesis by (rule pos)
  next
    case 3
    with q pos [of "- q"] have "fl (- q) = Fin (- q)" by simp
    with 3 show ?thesis
      by (auto simp: fl_def Let_def rhe_minus split: if_splits)
  qed
qed

lemma fl_0 [simp]: "fl 0 = Fin 0"
  by (simp add: fl_def)

lemma fl_int: "\<bar>n\<bar> < 2 ^ 53 \<Longrightarrow> fl (of_int n) = Fin (of_int n)"
  by (simp add: fl_double is_double_int)

lemma fl_1 [simp]: "fl 1 = Fin 1"
  using fl_int [of 1] by simp

section \<open>Shortest decimals\<close>

text \<open>
  \<open>repr\<close> prints the decimal with the fewest digits that reads back as the same float, and among
  those the closest one: \<open>decimal_at k q\<close> looks for one with \<open>k\<close> digits on either side of \<open>q\<close>, and
  \<open>shortest_decimal\<close> takes the least \<open>k\<close>. A decimal is a pair of an integer and an exponent of ten.
\<close>

type_synonym decimal = "int \<times> int"

definition dec_val :: "decimal \<Rightarrow> rat" where
  "dec_val d = of_int (fst d) * rpow 10 (snd d)"

definition decimal_near :: "rat \<Rightarrow> int \<Rightarrow> decimal" where
  "decimal_near q k =
     (let x = ilog 10 q + 1 - k; r = q / rpow 10 x; lo = \<lfloor>r\<rfloor>
      in if r - of_int lo \<le> 1/2 then (lo, x) else (lo + 1, x))"

definition decimal_far :: "rat \<Rightarrow> int \<Rightarrow> decimal" where
  "decimal_far q k =
     (let x = ilog 10 q + 1 - k; r = q / rpow 10 x; lo = \<lfloor>r\<rfloor>
      in if r - of_int lo \<le> 1/2 then (lo + 1, x) else (lo, x))"

definition decimal_at :: "rat \<Rightarrow> int \<Rightarrow> decimal option" where
  "decimal_at q k =
     (if fl (dec_val (decimal_near q k)) = Fin q then Some (decimal_near q k)
      else if fl (dec_val (decimal_far q k)) = Fin q then Some (decimal_far q k) else None)"

fun first_some :: "('a \<Rightarrow> 'b option) \<Rightarrow> 'a list \<Rightarrow> 'b option" where
  "first_some f [] = None"
| "first_some f (x # xs) = (case f x of Some y \<Rightarrow> Some y | None \<Rightarrow> first_some f xs)"

definition shortest_decimal :: "rat \<Rightarrow> decimal option" where
  "shortest_decimal q = first_some (decimal_at q) [1..17]"

lemma first_some_SomeD: "first_some f xs = Some y \<Longrightarrow> \<exists>x \<in> set xs. f x = Some y"
  by (induction xs) (auto split: option.splits)

lemma first_some_eq_None: "first_some f xs = None \<longleftrightarrow> (\<forall>x \<in> set xs. f x = None)"
  by (induction xs) (auto split: option.splits)

lemma decimal_at_sound: "decimal_at q k = Some d \<Longrightarrow> fl (dec_val d) = Fin q"
  by (auto simp: decimal_at_def split: if_splits)

lemma shortest_decimal_sound: "shortest_decimal q = Some d \<Longrightarrow> fl (dec_val d) = Fin q"
  unfolding shortest_decimal_def by (blast dest: first_some_SomeD decimal_at_sound)

text \<open>A rational within a relative distance of \<open>5 * 10^-17\<close> of a double rounds to it.\<close>

lemma fl_at:
  assumes "ulp_exp y = e" "e \<le> 971" "0 < y" "\<bar>y / rpow 2 e - of_int m\<bar> < 1/2" "\<bar>m\<bar> < 2 ^ 53 \<or> e < 971"
  shows "fl y = Fin (of_int m * rpow 2 e)"
  using assms rhe_unique [OF assms(4)] by (auto simp: fl_def Let_def)

lemma ulp_exp_eqI:
  assumes "0 < y" "y < rpow 2 (u + 53)" "- 1074 \<le> u" "u = - 1074 \<or> rpow 2 (u + 52) \<le> y"
  shows "ulp_exp y = u"
proof -
  have lb: "rpow 2 (ilog 2 y) \<le> y" "y < rpow 2 (ilog 2 y + 1)"
    using ilog_bounds [of 2 y] assms by simp_all
  have "rpow 2 (ilog 2 y) < rpow 2 (u + 53)" using lb assms by linarith
  then have up: "ilog 2 y < u + 53" by (simp add: rpow_less_iff)
  from assms(4) show ?thesis
  proof
    assume "u = - 1074"
    with up show ?thesis using assms by (simp add: ulp_exp_def)
  next
    assume "rpow 2 (u + 52) \<le> y"
    then have "rpow 2 (u + 52) < rpow 2 (ilog 2 y + 1)" using lb by linarith
    then have "u + 52 < ilog 2 y + 1" by (simp add: rpow_less_iff)
    with up show ?thesis using assms by (simp add: ulp_exp_def)
  qed
qed

lemma fl_near:
  assumes dbl: "is_double q" "0 < q" and near: "\<bar>y - q\<bar> \<le> 5 / 10 ^ 17 * q"
  shows "fl y = Fin q"
proof -
  define u where "u = ulp_exp q"
  define U where "U = rpow 2 u"
  obtain k where k: "q = of_int k * U" "0 < k" "k < 2 ^ 53" "u \<le> 971"
    unfolding U_def u_def using is_double_multiple [OF dbl] .
  have U: "0 < U" by (simp add: U_def)
  have u: "- 1074 \<le> u" by (simp add: u_def ulp_exp_def)
  define d where "d = y / U"
  have "k \<le> 9007199254740991" using k(3) by simp
  then have kr: "rat_of_int k \<le> 9007199254740991" by linarith
  have err: "\<bar>d - of_int k\<bar> \<le> 5 / 10 ^ 17 * of_int k"
  proof -
    have dk: "d - of_int k = (y - q) / U" using U by (simp add: d_def k(1) diff_divide_distrib)
    have "\<bar>d - of_int k\<bar> = \<bar>y - q\<bar> / U" unfolding dk using U by (simp add: abs_divide)
    also have "\<dots> \<le> (5 / 10 ^ 17 * q) / U" using near U by (intro divide_right_mono) simp_all
    also have "\<dots> = 5 / 10 ^ 17 * of_int k" using U by (simp add: k(1))
    finally show ?thesis .
  qed
  then have "\<bar>d - of_int k\<bar> \<le> of_int k / 20000000000000000" by simp
  then have errs: "d - of_int k \<le> of_int k / 20000000000000000" "of_int k - d \<le> of_int k / 20000000000000000"
    by linarith+
  have k0: "0 < rat_of_int k" using k(2) by simp
  have d0: "0 < d" using errs k0 by linarith
  have yU: "y = d * U" using U by (simp add: d_def)
  then have y0: "0 < y" using U d0 by simp
  have pw: "rpow 2 (u + int n) = 2 ^ n * U" for n
    unfolding U_def by (simp add: rpow_add) (simp add: rpow_def)
  have "d < 9007199254740992" using errs kr by linarith
  then have up: "y < rpow 2 (u + 53)" using pw [of 53] U by (subst yU) simp
  show ?thesis
  proof (cases "u = - 1074 \<or> rpow 2 (u + 52) \<le> y")
    case True
    have "ulp_exp y = u" by (rule ulp_exp_eqI [OF y0 up u True])
    moreover have "\<bar>d - of_int k\<bar> < 1/2" unfolding abs_less_iff using errs kr by linarith
    ultimately show ?thesis using fl_at [of y u k] k y0 U_def d_def by simp
  next
    case False
    have "rpow 2 (u + 52) \<le> q"
    proof -
      from False u have "u = ilog 2 q - 52" using dbl by (auto simp: u_def ulp_exp_def)
      then show ?thesis using ilog_bounds(1) [of 2 q] dbl by simp
    qed
    then have "2 ^ 52 * U \<le> of_int k * U" using pw [of 52] k(1) by simp
    then have k52: "4503599627370496 \<le> rat_of_int k" using U by simp
    have "d < 4503599627370496" using False pw [of 52] U by (auto simp: d_def divide_less_eq)
    with errs kr have "rat_of_int k < 4503599627370497" by linarith
    with k52 have kk: "k = 4503599627370496" by linarith
    have U2: "U = 2 * rpow 2 (u - 1)" using rpow_add [of 2 1 "u - 1"] by (simp add: U_def)
    have "ulp_exp y = u - 1"
    proof (rule ulp_exp_eqI [OF y0])
      show "y < rpow 2 (u - 1 + 53)" using False by (simp add: add.commute)
      show "- 1074 \<le> u - 1" using False u by simp
      have "2251799813685248 \<le> d" using errs k52 by linarith
      then have "2251799813685248 * U \<le> d * U" using U by (intro mult_right_mono) simp_all
      then have "rpow 2 (u + 51) \<le> y" using pw [of 51] yU by simp
      then show "u - 1 = - 1074 \<or> rpow 2 (u - 1 + 52) \<le> y" by (simp add: add.commute)
    qed
    moreover have "\<bar>y / rpow 2 (u - 1) - of_int (2 ^ 53)\<bar> < 1/2"
    proof -
      have d2: "y / rpow 2 (u - 1) = 2 * d" by (simp add: d_def U2)
      show ?thesis unfolding d2 abs_less_iff using errs by (simp add: kk)
    qed
    ultimately have "fl y = Fin (of_int (2 ^ 53) * rpow 2 (u - 1))"
      using k y0 by (intro fl_at) simp_all
    also have "of_int (2 ^ 53) * rpow 2 (u - 1) = q" by (simp add: k(1) kk U2)
    finally show ?thesis .
  qed
qed

text \<open>Seventeen digits always suffice, so \<open>repr\<close> is defined on every finite float.\<close>

theorem shortest_decimal_exists:
  assumes dbl: "is_double q" "0 < q"
  shows "\<exists>d. shortest_decimal q = Some d"
proof -
  define S where "S = rpow 10 (ilog 10 q + 1 - 17)"
  have S: "0 < S" by (simp add: S_def)
  have "S = rpow 10 (ilog 10 q) / rpow 10 16"
    by (simp add: S_def flip: rpow_diff)
  then have "S \<le> q / 10 ^ 16"
    using ilog_bounds(1) [of 10 q] dbl by (simp add: rpow_def divide_right_mono)
  then have half: "1/2 * S \<le> 5 / 10 ^ 17 * q" by simp
  have near: "\<bar>q / S - of_int (fst (decimal_near q 17))\<bar> \<le> 1/2"
    and exp: "snd (decimal_near q 17) = ilog 10 q + 1 - 17"
    using floor_correct [of "q / S"] by (auto simp: decimal_near_def S_def Let_def)
  have "(q / S - of_int (fst (decimal_near q 17))) * S = q - dec_val (decimal_near q 17)"
    using S exp by (simp add: dec_val_def S_def left_diff_distrib)
  then have "\<bar>q - dec_val (decimal_near q 17)\<bar> = \<bar>q / S - of_int (fst (decimal_near q 17))\<bar> * S"
    using S by (metis abs_mult abs_of_pos)
  also have "\<dots> \<le> 1/2 * S" by (rule mult_right_mono [OF near less_imp_le [OF S]])
  finally have "\<bar>dec_val (decimal_near q 17) - q\<bar> \<le> 5 / 10 ^ 17 * q" using half by linarith
  then have "fl (dec_val (decimal_near q 17)) = Fin q" by (rule fl_near [OF dbl])
  then have "decimal_at q 17 \<noteq> None" by (simp add: decimal_at_def)
  then have "first_some (decimal_at q) [1..17] \<noteq> None"
    unfolding first_some_eq_None by (auto intro!: bexI [of _ 17])
  then show ?thesis by (simp add: shortest_decimal_def)
qed

section \<open>Operations\<close>

fun fneg :: "pyfloat \<Rightarrow> pyfloat" where
  "fneg (Fin a) = Fin (- a)"
| "fneg PInf = NInf"
| "fneg NInf = PInf"
| "fneg NaN = NaN"

fun fadd :: "pyfloat \<Rightarrow> pyfloat \<Rightarrow> pyfloat" where
  "fadd (Fin a) (Fin b) = fl (a + b)"
| "fadd NaN _ = NaN"
| "fadd _ NaN = NaN"
| "fadd PInf NInf = NaN"
| "fadd NInf PInf = NaN"
| "fadd PInf _ = PInf"
| "fadd _ PInf = PInf"
| "fadd NInf _ = NInf"
| "fadd _ NInf = NInf"

definition fsub :: "pyfloat \<Rightarrow> pyfloat \<Rightarrow> pyfloat" where
  "fsub a b = fadd a (fneg b)"

fun fabs :: "pyfloat \<Rightarrow> pyfloat" where
  "fabs (Fin a) = Fin \<bar>a\<bar>"
| "fabs NInf = PInf"
| "fabs x = x"

fun flt :: "pyfloat \<Rightarrow> pyfloat \<Rightarrow> bool" where
  "flt (Fin a) (Fin b) \<longleftrightarrow> a < b"
| "flt NaN _ \<longleftrightarrow> False"
| "flt _ NaN \<longleftrightarrow> False"
| "flt PInf _ \<longleftrightarrow> False"
| "flt NInf b \<longleftrightarrow> b \<noteq> NInf"
| "flt (Fin _) PInf \<longleftrightarrow> True"
| "flt (Fin _) NInf \<longleftrightarrow> False"

fun feq :: "pyfloat \<Rightarrow> pyfloat \<Rightarrow> bool" where
  "feq NaN _ \<longleftrightarrow> False"
| "feq a b \<longleftrightarrow> a = b"

definition fle :: "pyfloat \<Rightarrow> pyfloat \<Rightarrow> bool" where
  "fle a b \<longleftrightarrow> flt a b \<or> feq a b"

text \<open>Python's two-argument \<open>max\<close> and \<open>min\<close>: the first argument unless the second is strictly beyond it.\<close>

definition fmax :: "pyfloat \<Rightarrow> pyfloat \<Rightarrow> pyfloat" where
  "fmax a b = (if flt a b then b else a)"

definition fmin :: "pyfloat \<Rightarrow> pyfloat \<Rightarrow> pyfloat" where
  "fmin a b = (if flt b a then b else a)"

text \<open>\<open>round(x, 4)\<close>: the nearest decimal with four places (ties to even), read back as a float.\<close>

fun round4 :: "pyfloat \<Rightarrow> pyfloat" where
  "round4 (Fin q) = fl (of_int (rhe (q * 10000)) / 10000)"
| "round4 x = x"

text \<open>\<open>float(n)\<close> of an integer: \<open>OverflowError\<close> beyond the largest double.\<close>

definition float_of_int :: "int \<Rightarrow> pyfloat res" where
  "float_of_int n = (case fl (of_int n) of Fin q \<Rightarrow> Inr (Fin q) | _ \<Rightarrow> Inl OverflowError)"

text \<open>
  \<open>sum\<close> of a generator of floats, as Python 3.12 computes it (the version of the server image): the
  integer 0 when there is no item, otherwise Neumaier's compensated sum.
\<close>

fun sum_loop :: "pyfloat \<Rightarrow> pyfloat \<Rightarrow> pyfloat list \<Rightarrow> pyfloat" where
  "sum_loop f c [] = (if (\<exists>q. c = Fin q) \<and> c \<noteq> Fin 0 then fadd f c else f)"
| "sum_loop f c (x # xs) =
     (let t = fadd f x;
          c' = (if fle (fabs x) (fabs f) then fadd c (fadd (fsub f t) x)
                else fadd c (fadd (fsub x t) f))
      in sum_loop t c' xs)"

fun fsum :: "pyfloat list \<Rightarrow> pyfloat" where
  "fsum [] = Fin 0"
| "fsum (x # xs) = sum_loop (fadd (Fin 0) x) (Fin 0) xs"

lemma sum_loop_code [code]:
  "sum_loop f c [] = (case c of Fin q \<Rightarrow> if q = 0 then f else fadd f c | _ \<Rightarrow> f)"
  "sum_loop f c (x # xs) =
     (let t = fadd f x;
          c' = (if fle (fabs x) (fabs f) then fadd c (fadd (fsub f t) x)
                else fadd c (fadd (fsub x t) f))
      in sum_loop t c' xs)"
  by (auto split: pyfloat.split)

lemma fle_Fin [simp]: "fle (Fin a) (Fin b) \<longleftrightarrow> a \<le> b"
  by (auto simp: fle_def)

lemma fle_refl_Fin: "fle (Fin a) (Fin a)"
  by simp

lemma fle_trans: "fle a b \<Longrightarrow> fle b c \<Longrightarrow> fle a c"
  by (cases a; cases b; cases c) (auto simp: fle_def)

text \<open>\<open>max(0.0, min(1.0, v))\<close> is a number between 0 and 1 whatever \<open>v\<close> is, NaN included.\<close>

lemma clamp_range: "\<exists>q. fmax (Fin 0) (fmin (Fin 1) v) = Fin q \<and> 0 \<le> q \<and> q \<le> 1"
  by (cases v) (auto simp: fmax_def fmin_def)

lemma fl_minus: "fl (- q) = fneg (fl q)"
proof (cases q "0 :: rat" rule: linorder_cases)
  case less
  then show ?thesis by (cases "ulp_exp q = 971") (simp_all add: fl_def Let_def rhe_minus not_less)
next
  case greater
  then show ?thesis by (cases "ulp_exp q = 971") (simp_all add: fl_def Let_def rhe_minus not_less)
qed simp

text \<open>Rounding always yields a double (or overflows).\<close>

lemma fl_is_double:
  assumes "fl x = Fin q"
  shows "is_double q"
proof (cases "x = 0")
  case True
  with assms show ?thesis by simp
next
  case False
  define e where "e = ulp_exp x"
  define m where "m = rhe (x / rpow 2 e)"
  from assms False have q: "q = of_int m * rpow 2 e" and e: "e \<le> 971" and ov: "\<not> (e = 971 \<and> \<bar>m\<bar> = 2 ^ 53)"
    by (auto simp: fl_def Let_def e_def m_def split: if_splits)
  have e0: "- 1074 \<le> e" by (simp add: e_def ulp_exp_def)
  have "\<bar>x\<bar> < rpow 2 (ilog 2 \<bar>x\<bar> + 1)" using ilog_bounds(2) [of 2 "\<bar>x\<bar>"] False by simp
  also have "\<dots> \<le> rpow 2 (e + 53)" by (intro rpow_mono) (simp_all add: e_def ulp_exp_def)
  also have "\<dots> = 2 ^ 53 * rpow 2 e" by (simp add: rpow_add) (simp add: rpow_def)
  finally have "x < 2 ^ 53 * rpow 2 e" "- (2 ^ 53 * rpow 2 e) < x" by linarith+
  then have lo: "- of_int (2 ^ 53) \<le> x / rpow 2 e" and hi: "x / rpow 2 e \<le> of_int (2 ^ 53)"
    by (simp_all add: pos_divide_le_eq pos_le_divide_eq)
  have "rhe (- of_int (2 ^ 53)) \<le> m" "m \<le> rhe (of_int (2 ^ 53))"
    unfolding m_def using rhe_mono [OF lo] rhe_mono [OF hi] by simp_all
  then have m: "\<bar>m\<bar> \<le> 2 ^ 53" unfolding rhe_minus rhe_of_int by (simp add: abs_le_iff)
  show ?thesis
  proof (cases "\<bar>m\<bar> = 2 ^ 53")
    case False
    with m q e e0 show ?thesis unfolding is_double_def by (intro exI [of _ m] exI [of _ e]) simp
  next
    case True
    then have "m = 2 ^ 53 \<or> m = - (2 ^ 53)" by linarith
    then have m2: "m = 2 * (m div 2)" by auto
    have "q = of_int (m div 2) * rpow 2 (e + 1)"
      unfolding q by (subst m2) (simp add: rpow_add del: of_int_mult)
    moreover have "\<bar>m div 2\<bar> < 2 ^ 53" using True by (auto simp: abs_if split: if_splits)
    moreover have "e + 1 \<le> 971" using e ov True by auto
    ultimately show ?thesis unfolding is_double_def using e0
      by (intro exI [of _ "m div 2"] exI [of _ "e + 1"]) simp
  qed
qed

lemma shortest_decimal_pos:
  assumes q: "0 < q" and d: "shortest_decimal q = Some d"
  shows "0 < fst d"
proof -
  from d obtain k where k: "k \<in> set [1..17]" "decimal_at q k = Some d"
    unfolding shortest_decimal_def by (blast dest: first_some_SomeD)
  let ?r = "q / rpow 10 (ilog 10 q + 1 - k)"
  have "rpow 10 (ilog 10 q + 1 - k) \<le> rpow 10 (ilog 10 q)" using k by (intro rpow_mono) simp_all
  also have "\<dots> \<le> q" using ilog_bounds(1) [of 10 q] q by simp
  finally have "1 \<le> ?r" by simp
  then have "1 \<le> \<lfloor>?r\<rfloor>" by simp
  moreover have "fst d = \<lfloor>?r\<rfloor> \<or> fst d = \<lfloor>?r\<rfloor> + 1"
    using k(2) by (auto simp: decimal_at_def decimal_near_def decimal_far_def Let_def split: if_splits)
  ultimately show ?thesis by linarith
qed

text \<open>The shortest decimal of an integer below \<open>2^53\<close> is that integer, written without a fraction.\<close>

lemma fl_large_int:
  assumes "2 ^ 53 \<le> y" "fl y = Fin q"
  shows "2 ^ 53 \<le> q"
proof -
  define e where "e = ulp_exp y"
  have y0: "0 < y" using assms(1) by (simp add: less_le_trans [of 0 "2 ^ 53"])
  note lb = ilog_bounds [of 2 y, simplified, OF y0]
  have "rpow 2 53 \<le> y" using assms(1) by (simp add: rpow_def)
  then have "rpow 2 53 < rpow 2 (ilog 2 y + 1)" using lb by linarith
  then have l: "53 \<le> ilog 2 y" by (simp add: rpow_less_iff)
  then have e: "e = ilog 2 y - 52" using y0 by (simp add: e_def ulp_exp_def)
  have "rpow 2 52 * rpow 2 e \<le> y" using lb(1) by (simp add: e flip: rpow_add)
  then have "of_int (2 ^ 52) \<le> y / rpow 2 e" by (simp add: pos_le_divide_eq rpow_def [of 2 52])
  then have m: "2 ^ 52 \<le> rhe (y / rpow 2 e)" using rhe_mono rhe_of_int by metis
  have "q = of_int (rhe (y / rpow 2 e)) * rpow 2 e"
    using assms(2) y0 by (auto simp: fl_def Let_def e_def split: if_splits)
  moreover have "rat_of_int (2 ^ 52) * rpow 2 1 \<le> of_int (rhe (y / rpow 2 e)) * rpow 2 e"
    using m l e by (intro mult_mono rpow_mono) (simp_all only: of_int_le_iff, simp_all add: less_imp_le)
  ultimately show ?thesis by simp
qed

lemma shortest_decimal_int:
  assumes n: "0 < n" "n < 2 ^ 53"
  obtains m x where "shortest_decimal (of_int n) = Some (m, x)" "0 \<le> x" "0 < m" "m * 10 ^ nat x = n"
proof -
  let ?q = "rat_of_int n" and ?l = "ilog 10 (of_int n)"
  have q: "0 < ?q" "is_double ?q" using n by (simp_all add: is_double_int)
  have flq: "fl ?q = Fin ?q" using q(2) by (rule fl_double)
  note lb = ilog_bounds [of 10 ?q, simplified, OF q(1)[simplified]]
  have "rpow 10 0 < rpow 10 (?l + 1)" using lb(2) n by simp
  then have "0 < ?l + 1" by (simp only: rpow_less_iff)
  then have l0: "0 \<le> ?l" by simp
  have "rpow 10 ?l < rpow 10 16"
    using lb(1) n by (simp add: rpow_def [of 10 16])
  then have l16: "?l < 16" by (simp only: rpow_less_iff)
  have at: "decimal_at ?q (?l + 1) = Some (n, 0)"
    using flq by (simp add: decimal_at_def decimal_near_def Let_def dec_val_def)
  obtain k d where k: "k \<in> set [1..17]" "decimal_at ?q k = Some d" "k \<le> ?l + 1"
    "first_some (decimal_at ?q) [1..17] = Some d"
  proof -
    have "[1..17] = [1..?l + 1] @ [?l + 2..17]"
      using l0 l16 upto_split2 [of 1 "?l + 1" 17] by (simp add: add.commute)
    moreover have "?l + 1 \<in> set [1..?l + 1]" using l0 by simp
    then have "first_some (decimal_at ?q) [1..?l + 1] \<noteq> None"
      unfolding first_some_eq_None using at by force
    then obtain d where d: "first_some (decimal_at ?q) [1..?l + 1] = Some d" by blast
    moreover from first_some_SomeD [OF d] obtain k where "k \<in> set [1..?l + 1]" "decimal_at ?q k = Some d" by blast
    moreover have "first_some f (xs @ ys) = (case first_some f xs of Some y \<Rightarrow> Some y | None \<Rightarrow> first_some f ys)"
      for f :: "int \<Rightarrow> decimal option" and xs ys
      by (induction xs) (auto split: option.splits)
    ultimately show thesis using that [of k d] l16 by simp
  qed
  obtain m x where d: "d = (m, x)" by (cases d)
  have sd: "shortest_decimal ?q = Some (m, x)" using k(4) d by (simp add: shortest_decimal_def)
  have x: "0 \<le> x" using k(2,3) d
    by (auto simp: decimal_at_def decimal_near_def decimal_far_def Let_def split: if_splits)
  have m: "0 < m" using shortest_decimal_pos [OF q(1) sd] by simp
  have val: "dec_val (m, x) = of_int (m * 10 ^ nat x)" using x by (simp add: dec_val_def rpow_def)
  have f: "fl (of_int (m * 10 ^ nat x)) = Fin ?q" using shortest_decimal_sound [OF sd] by (simp only: val)
  have "m * 10 ^ nat x < 2 ^ 53"
  proof (rule ccontr)
    assume "\<not> m * 10 ^ nat x < 2 ^ 53"
    then have "rat_of_int (2 ^ 53) \<le> of_int (m * 10 ^ nat x)" by (simp only: of_int_le_iff not_less)
    then have "2 ^ 53 \<le> ?q" using fl_large_int [OF _ f] by simp
    then show False using n by simp
  qed
  then have "fl (of_int (m * 10 ^ nat x)) = Fin (of_int (m * 10 ^ nat x))" using m by (intro fl_int) simp
  with f have "m * 10 ^ nat x = n" by (metis pyfloat.inject of_int_eq_iff)
  with sd x m show thesis using that by blast
qed

lemma float_of_int_small: "\<bar>n\<bar> < 2 ^ 53 \<Longrightarrow> float_of_int n = Inr (Fin (of_int n))"
  by (simp add: float_of_int_def fl_int)

lemma float_of_int_0 [simp]: "float_of_int 0 = Inr (Fin 0)"
  using float_of_int_small [of 0] by simp

lemma is_double_code [code]: "is_double q \<longleftrightarrow> fl q = Fin q"
  using fl_double fl_is_double by blast

end
