(* ===== verification/PyValue.thy ===== *)
theory PyValue
  imports PyFloat
begin

text \<open>
  The Python values that JSON documents decode to, and what the source asks of them: equality
  across the numeric types, truth value, \<open>float()\<close>, \<open>str()\<close>, \<open>repr()\<close>, lower-casing and stripping of
  strings. Case mapping is modelled for code points up to U+00FF and decimal digits for ASCII;
  white space is the full Unicode set.
\<close>

datatype pyval =
    VNone
  | VBool bool
  | VInt int
  | VFloat pyfloat
  | VStr pystr
  | VList "pyval list"
  | VDict "(pystr \<times> pyval) list"

type_synonym pydict = "(pystr \<times> pyval) list"

section \<open>Strings\<close>

definition lower_char :: "int \<Rightarrow> int" where
  "lower_char c = (if 65 \<le> c \<and> c \<le> 90 \<or> 192 \<le> c \<and> c \<le> 222 \<and> c \<noteq> 215 then c + 32 else c)"

definition py_lower :: "pystr \<Rightarrow> pystr" where
  "py_lower s = map lower_char s"

definition is_space :: "int \<Rightarrow> bool" where
  "is_space c \<longleftrightarrow> 9 \<le> c \<and> c \<le> 13 \<or> 28 \<le> c \<and> c \<le> 32 \<or> c = 133 \<or> c = 160 \<or> c = 5760
     \<or> 8192 \<le> c \<and> c \<le> 8202 \<or> c = 8232 \<or> c = 8233 \<or> c = 8239 \<or> c = 8287 \<or> c = 12288"

definition py_strip :: "pystr \<Rightarrow> pystr" where
  "py_strip s = rev (dropWhile is_space (rev (dropWhile is_space s)))"

definition is_digit :: "int \<Rightarrow> bool" where
  "is_digit c \<longleftrightarrow> 48 \<le> c \<and> c \<le> 57"

text \<open>\<open>str(n)\<close> of an integer.\<close>

function dec_digits :: "int \<Rightarrow> pystr" where
  "dec_digits n = (if n < 10 then [48 + n] else dec_digits (n div 10) @ [48 + n mod 10])"
  by pat_completeness auto
termination
  by (relation "measure nat") auto

declare dec_digits.simps [simp del]

definition int_str :: "int \<Rightarrow> pystr" where
  "int_str n = (if n < 0 then 45 # dec_digits (- n) else dec_digits n)"

fun digits_val :: "int \<Rightarrow> pystr \<Rightarrow> int" where
  "digits_val acc [] = acc"
| "digits_val acc (c # s) = digits_val (acc * 10 + (c - 48)) s"

lemma digits_val_append: "digits_val acc (s @ t) = digits_val (digits_val acc s) t"
  by (induction s arbitrary: acc) simp_all

lemma dec_digits_not_Nil [simp]: "dec_digits n \<noteq> []"
  by (subst dec_digits.simps) simp

lemma digits_val_dec_digits [simp]: "0 \<le> n \<Longrightarrow> digits_val 0 (dec_digits n) = n"
proof (induction n rule: dec_digits.induct)
  case (1 n)
  show ?case
  proof (cases "n < 10")
    case True
    then show ?thesis by (simp add: dec_digits.simps [of n])
  next
    case False
    with 1 show ?thesis by (simp add: dec_digits.simps [of n] digits_val_append)
  qed
qed

lemma dec_digits_digits: "0 \<le> n \<Longrightarrow> list_all is_digit (dec_digits n)"
proof (induction n rule: dec_digits.induct)
  case (1 n)
  show ?case
  proof (cases "n < 10")
    case True
    with 1 show ?thesis by (simp add: dec_digits.simps [of n] is_digit_def)
  next
    case False
    with 1 show ?thesis
      using pos_mod_bound [of 10 n] by (simp add: dec_digits.simps [of n] is_digit_def)
  qed
qed

lemma dec_digits_no_leading_zero: "0 < n \<Longrightarrow> hd (dec_digits n) \<noteq> 48"
proof (induction n rule: dec_digits.induct)
  case (1 n)
  show ?case
  proof (cases "n < 10")
    case True
    with 1 show ?thesis by (simp add: dec_digits.simps [of n])
  next
    case False
    with 1 show ?thesis by (simp add: dec_digits.simps [of n] pos_imp_zdiv_pos_iff)
  qed
qed

lemma dec_digits_eq_iff: "0 \<le> m \<Longrightarrow> 0 \<le> n \<Longrightarrow> dec_digits m = dec_digits n \<longleftrightarrow> m = n"
  by (metis digits_val_dec_digits)

section \<open>Equality and truth value\<close>

text \<open>The exact number of a \<open>bool\<close>, \<open>int\<close> or \<open>float\<close>: Python compares the three exactly.\<close>

fun num_val :: "pyval \<Rightarrow> pyfloat option" where
  "num_val (VBool b) = Some (Fin (if b then 1 else 0))"
| "num_val (VInt n) = Some (Fin (of_int n))"
| "num_val (VFloat f) = Some f"
| "num_val _ = None"

definition num_eq :: "pyval \<Rightarrow> pyval \<Rightarrow> bool" where
  "num_eq v w = (case num_val v of None \<Rightarrow> False
     | Some a \<Rightarrow> (case num_val w of None \<Rightarrow> False | Some b \<Rightarrow> feq a b))"

fun py_eq :: "pyval \<Rightarrow> pyval \<Rightarrow> bool"
  and py_eq_list :: "pyval list \<Rightarrow> pyval list \<Rightarrow> bool"
  and py_eq_items :: "pydict \<Rightarrow> pydict \<Rightarrow> bool" where
  "py_eq VNone w \<longleftrightarrow> w = VNone"
| "py_eq (VStr s) w \<longleftrightarrow> w = VStr s"
| "py_eq (VList xs) w \<longleftrightarrow> (case w of VList ys \<Rightarrow> py_eq_list xs ys | _ \<Rightarrow> False)"
| "py_eq (VDict d) w \<longleftrightarrow> (case w of VDict e \<Rightarrow> length d = length e \<and> py_eq_items d e | _ \<Rightarrow> False)"
| "py_eq (VBool b) w \<longleftrightarrow> num_eq (VBool b) w"
| "py_eq (VInt n) w \<longleftrightarrow> num_eq (VInt n) w"
| "py_eq (VFloat f) w \<longleftrightarrow> num_eq (VFloat f) w"
| "py_eq_list [] ys \<longleftrightarrow> ys = []"
| "py_eq_list (x # xs) ys \<longleftrightarrow> (case ys of [] \<Rightarrow> False | y # ys' \<Rightarrow> py_eq x y \<and> py_eq_list xs ys')"
| "py_eq_items [] e \<longleftrightarrow> True"
| "py_eq_items (kv # d) e \<longleftrightarrow>
     (case map_of e (fst kv) of None \<Rightarrow> False | Some w \<Rightarrow> py_eq (snd kv) w) \<and> py_eq_items d e"

lemma py_eq_items_iff:
  "py_eq_items d e \<longleftrightarrow> (\<forall>(k, v) \<in> set d. \<exists>w. map_of e k = Some w \<and> py_eq v w)"
  by (induction d) (auto split: option.splits)

lemma py_eq_str_iff [simp]: "py_eq v (VStr s) \<longleftrightarrow> v = VStr s"
  by (cases v) (auto simp: num_eq_def split: option.splits)

text \<open>\<open>x in xs\<close> for a list.\<close>

definition py_in :: "pyval \<Rightarrow> pyval list \<Rightarrow> bool" where
  "py_in v xs \<longleftrightarrow> list_ex (py_eq v) xs"

fun truthy :: "pyval \<Rightarrow> bool" where
  "truthy VNone \<longleftrightarrow> False"
| "truthy (VBool b) \<longleftrightarrow> b"
| "truthy (VInt n) \<longleftrightarrow> n \<noteq> 0"
| "truthy (VFloat f) \<longleftrightarrow> f \<noteq> Fin 0"
| "truthy (VStr s) \<longleftrightarrow> s \<noteq> []"
| "truthy (VList xs) \<longleftrightarrow> xs \<noteq> []"
| "truthy (VDict d) \<longleftrightarrow> d \<noteq> []"

section \<open>\<open>float()\<close>\<close>

text \<open>
  \<open>float(s)\<close>: surrounding white space, an optional sign, then an infinity, a NaN or a decimal with
  optional fraction and exponent; underscores are allowed between digits only.
\<close>

fun underscores_ok :: "bool \<Rightarrow> pystr \<Rightarrow> bool" where
  "underscores_ok prev [] \<longleftrightarrow> True"
| "underscores_ok prev (c # s) \<longleftrightarrow>
     (if c = 95 then prev \<and> (case s of [] \<Rightarrow> False | d # _ \<Rightarrow> is_digit d) \<and> underscores_ok False s
      else underscores_ok (is_digit c) s)"

definition take_sign :: "pystr \<Rightarrow> bool \<times> pystr" where
  "take_sign s = (case s of [] \<Rightarrow> (False, [])
     | c # r \<Rightarrow> if c = 45 then (True, r) else if c = 43 then (False, r) else (False, s))"

definition take_digits :: "pystr \<Rightarrow> pystr \<times> pystr" where
  "take_digits s = (takeWhile is_digit s, dropWhile is_digit s)"

definition take_fraction :: "pystr \<Rightarrow> pystr \<times> pystr" where
  "take_fraction s = (case s of [] \<Rightarrow> ([], []) | c # r \<Rightarrow> if c = 46 then take_digits r else ([], s))"

definition read_exponent :: "pystr \<Rightarrow> int option" where
  "read_exponent s = (case s of [] \<Rightarrow> Some 0
     | c # r \<Rightarrow>
         if c = 101 \<or> c = 69
         then (case take_sign r of (neg, t) \<Rightarrow>
                 if t \<noteq> [] \<and> list_all is_digit t
                 then Some (if neg then - digits_val 0 t else digits_val 0 t) else None)
         else None)"

definition read_decimal :: "pystr \<Rightarrow> decimal option" where
  "read_decimal s =
     (case take_digits s of (ip, r) \<Rightarrow> case take_fraction r of (fp, r') \<Rightarrow>
        if ip = [] \<and> fp = [] then None
        else map_option (\<lambda>x. (digits_val 0 (ip @ fp), x - int (length fp))) (read_exponent r'))"

definition float_of_str :: "pystr \<Rightarrow> pyfloat res" where
  "float_of_str s =
     (case take_sign (py_strip s) of (neg, r) \<Rightarrow>
        if py_lower r = str ''inf'' \<or> py_lower r = str ''infinity'' then Inr (if neg then NInf else PInf)
        else if py_lower r = str ''nan'' then Inr NaN
        else if \<not> underscores_ok False r then Inl (ValueError (str ''could not convert string to float''))
        else (case read_decimal (filter (\<lambda>c. c \<noteq> 95) r) of
                None \<Rightarrow> Inl (ValueError (str ''could not convert string to float''))
              | Some d \<Rightarrow> Inr (fl (if neg then - dec_val d else dec_val d))))"

fun py_float :: "pyval \<Rightarrow> pyfloat res" where
  "py_float (VBool b) = Inr (Fin (if b then 1 else 0))"
| "py_float (VInt n) = float_of_int n"
| "py_float (VFloat f) = Inr f"
| "py_float (VStr s) = float_of_str s"
| "py_float _ = Inl TypeError"

section \<open>\<open>str()\<close> and \<open>repr()\<close>\<close>

text \<open>Trailing zeros of a decimal's integer moved into its exponent.\<close>

function strip_zeros :: "int \<Rightarrow> int \<Rightarrow> decimal" where
  "strip_zeros m x = (if m \<noteq> 0 \<and> m mod 10 = 0 then strip_zeros (m div 10) (x + 1) else (m, x))"
  by pat_completeness auto
termination
  by (relation "measure (\<lambda>(m, x). nat \<bar>m\<bar>)") (auto simp: dvd_def)

declare strip_zeros.simps [simp del]

definition zeros :: "int \<Rightarrow> pystr" where
  "zeros n = replicate (nat n) 48"

text \<open>\<open>repr\<close> of a positive finite float with the given shortest decimal.\<close>

definition decimal_repr :: "decimal \<Rightarrow> pystr" where
  "decimal_repr d =
     (case strip_zeros (fst d) (snd d) of (m, x) \<Rightarrow>
        let ds = dec_digits m; k = int (length ds); n = x + k
        in if n \<le> - 4 \<or> 16 < n
           then (if k = 1 then ds else take 1 ds @ [46] @ drop 1 ds) @ [101]
                  @ (if n - 1 < 0 then [45] else [43])
                  @ (if \<bar>n - 1\<bar> < 10 then [48] else []) @ dec_digits \<bar>n - 1\<bar>
           else if n \<le> 0 then [48, 46] @ zeros (- n) @ ds
           else if k \<le> n then ds @ zeros (n - k) @ [46, 48]
           else take (nat n) ds @ [46] @ drop (nat n) ds)"

fun float_repr :: "pyfloat \<Rightarrow> pystr" where
  "float_repr NaN = str ''nan''"
| "float_repr PInf = str ''inf''"
| "float_repr NInf = str ''-inf''"
| "float_repr (Fin q) =
     (if q = 0 then str ''0.0''
      else (case shortest_decimal \<bar>q\<bar> of None \<Rightarrow> []
            | Some d \<Rightarrow> (if q < 0 then [45] else []) @ decimal_repr d))"

definition hex_digit :: "int \<Rightarrow> int" where
  "hex_digit n = (if n < 10 then 48 + n else 87 + n)"

definition repr_char :: "int \<Rightarrow> int \<Rightarrow> pystr" where
  "repr_char quote c =
     (if c = quote \<or> c = 92 then [92, c]
      else if c = 10 then [92, 110] else if c = 13 then [92, 114] else if c = 9 then [92, 116]
      else if c < 32 \<or> 127 \<le> c \<and> c \<le> 160 \<or> c = 173
           then [92, 120, hex_digit (c div 16), hex_digit (c mod 16)]
      else [c])"

definition str_repr :: "pystr \<Rightarrow> pystr" where
  "str_repr s = (let quote = (if 39 \<in> set s \<and> 34 \<notin> set s then 34 else 39)
                 in [quote] @ concat (map (repr_char quote) s) @ [quote])"

fun py_repr :: "pyval \<Rightarrow> pystr"
  and py_repr_list :: "pyval list \<Rightarrow> pystr list"
  and py_repr_items :: "pydict \<Rightarrow> pystr list" where
  "py_repr VNone = str ''None''"
| "py_repr (VBool b) = (if b then str ''True'' else str ''False'')"
| "py_repr (VInt n) = int_str n"
| "py_repr (VFloat f) = float_repr f"
| "py_repr (VStr s) = str_repr s"
| "py_repr (VList xs) = [91] @ join (str '', '') (py_repr_list xs) @ [93]"
| "py_repr (VDict d) = [123] @ join (str '', '') (py_repr_items d) @ [125]"
| "py_repr_list [] = []"
| "py_repr_list (x # xs) = py_repr x # py_repr_list xs"
| "py_repr_items [] = []"
| "py_repr_items (kv # d) = (str_repr (fst kv) @ str '': '' @ py_repr (snd kv)) # py_repr_items d"

fun py_str :: "pyval \<Rightarrow> pystr" where
  "py_str (VStr s) = s"
| "py_str v = py_repr v"

section \<open>Facts\<close>

lemma py_lower_str_literal: "list_all (\<lambda>c. 97 \<le> c \<and> c \<le> 122) s \<Longrightarrow> py_lower s = s"
  by (induction s) (simp_all add: py_lower_def lower_char_def)

lemma length_py_lower [simp]: "length (py_lower s) = length s"
  by (simp add: py_lower_def)

lemma py_lower_idem [simp]: "py_lower (py_lower s) = py_lower s"
  by (simp add: py_lower_def lower_char_def)

text \<open>Numbers always convert; only integers beyond the largest double raise, and only \<open>OverflowError\<close>.\<close>

lemma py_float_error: "py_float v = Inl e \<Longrightarrow> e = TypeError \<or> is_value_error e \<or> (e = OverflowError \<and> (\<exists>n. v = VInt n))"
  by (cases v) (auto simp: float_of_int_def float_of_str_def split: pyfloat.splits prod.splits if_splits option.splits)

end
