(* ===== verification/Canonical.thy ===== *)
theory Canonical
  imports PyValue "HOL-Library.List_Lexorder"
begin

text \<open>
  \<open>axg/canonical.py\<close> (and its identical copy in the Python SDK): the canonical JSON text whose
  SHA-256 a Passport, an approval ticket and an audit record carry. SHA-256 is the parameter
  \<open>sha\<close>, from bytes to a hexadecimal string. The lemmas show that the number format reads back as
  the same float and that the text determines the value up to key order and number representation.
\<close>

section \<open>Definitions\<close>

definition MAX_SAFE_INTEGER :: int where
  "MAX_SAFE_INTEGER = 2 ^ 53 - 1"

text \<open>The body of \<open>_es_number\<close> for a positive float with the shortest decimal \<open>(digits, exponent)\<close>.\<close>

definition es_body :: "decimal \<Rightarrow> pystr" where
  "es_body d =
     (case strip_zeros (fst d) (snd d) of (m, exponent) \<Rightarrow>
        let digits = dec_digits m; k = int (length digits); n = exponent + k
        in if k \<le> n \<and> n \<le> 21 then digits @ zeros (n - k)
           else if 0 < n \<and> n \<le> 21 then take (nat n) digits @ [46] @ drop (nat n) digits
           else if - 6 < n \<and> n \<le> 0 then [48, 46] @ zeros (- n) @ digits
           else (let e = n - 1;
                     mantissa = (if k = 1 then digits else take 1 digits @ [46] @ drop 1 digits)
                 in mantissa @ [101] @ (if 0 \<le> e then [43] else [45]) @ dec_digits \<bar>e\<bar>))"

fun es_number :: "pyfloat \<Rightarrow> pystr res" where
  "es_number (Fin q) =
     (if q = 0 then Inr [48]
      else (case shortest_decimal \<bar>q\<bar> of
              None \<Rightarrow> Inl (ValueError (str ''no decimal''))
            | Some d \<Rightarrow> Inr ((if q < 0 then [45] else []) @ es_body d)))"
| "es_number _ = Inl (ValueError (str ''NaN and Infinity are not valid JSON numbers''))"

text \<open>\<open>json.dumps(s, ensure_ascii=False)\<close> of a string.\<close>

definition json_escape :: "int \<Rightarrow> pystr" where
  "json_escape c =
     (if c = 34 \<or> c = 92 then [92, c]
      else if c = 8 then [92, 98] else if c = 9 then [92, 116] else if c = 10 then [92, 110]
      else if c = 12 then [92, 102] else if c = 13 then [92, 114]
      else if c < 32 then [92, 117, 48, 48, hex_digit (c div 16), hex_digit (c mod 16)]
      else [c])"

definition json_string :: "pystr \<Rightarrow> pystr" where
  "json_string s = [34] @ concat (map json_escape s) @ [34]"

definition is_surrogate :: "int \<Rightarrow> bool" where
  "is_surrogate c \<longleftrightarrow> 55296 \<le> c \<and> c \<le> 57343"

definition utf16_units :: "int \<Rightarrow> int list" where
  "utf16_units c =
     (if c < 65536 then [c]
      else [55296 + (c - 65536) div 1024, 56320 + (c - 65536) mod 1024])"

definition utf16_be :: "pystr \<Rightarrow> int list" where
  "utf16_be s = concat (map (\<lambda>u. [u div 256, u mod 256]) (concat (map utf16_units s)))"

definition utf8_char :: "int \<Rightarrow> int list" where
  "utf8_char c =
     (if c < 128 then [c]
      else if c < 2048 then [192 + c div 64, 128 + c mod 64]
      else if c < 65536 then [224 + c div 4096, 128 + c div 64 mod 64, 128 + c mod 64]
      else [240 + c div 262144, 128 + c div 4096 mod 64, 128 + c div 64 mod 64, 128 + c mod 64])"

text \<open>\<open>s.encode("utf-16-be")\<close> and \<open>s.encode("utf-8")\<close> refuse lone surrogates.\<close>

definition encode_utf16 :: "pystr \<Rightarrow> int list res" where
  "encode_utf16 s = (if list_ex is_surrogate s then Inl UnicodeError else Inr (utf16_be s))"

definition encode_utf8 :: "pystr \<Rightarrow> int list res" where
  "encode_utf8 s = (if list_ex is_surrogate s then Inl UnicodeError else Inr (concat (map utf8_char s)))"

text \<open>
  \<open>canonical_json\<close>. The items of a dictionary are sorted by their keys' UTF-16 encoding before any
  value is rendered: \<open>canonical_items\<close> pairs each key with its value's result, and the results are
  demanded in sorted order.
\<close>

definition sort_by_key :: "(pystr \<times> 'a) list \<Rightarrow> (pystr \<times> 'a) list" where
  "sort_by_key d = sort_key (\<lambda>kv. utf16_be (fst kv)) d"

fun canonical_json :: "pyval \<Rightarrow> pystr res"
  and canonical_list :: "pyval list \<Rightarrow> pystr list res"
  and canonical_items :: "pydict \<Rightarrow> (pystr \<times> pystr res) list" where
  "canonical_json VNone = Inr (str ''null'')"
| "canonical_json (VBool b) = Inr (if b then str ''true'' else str ''false'')"
| "canonical_json (VStr s) = Inr (json_string s)"
| "canonical_json (VInt n) =
     (if \<bar>n\<bar> \<le> MAX_SAFE_INTEGER then Inr (int_str n) else rbind (float_of_int n) es_number)"
| "canonical_json (VFloat f) = es_number f"
| "canonical_json (VDict d) =
     rbind (mapM (\<lambda>kv. encode_utf16 (fst kv)) d) (\<lambda>_.
       rmap (\<lambda>ts. [123] @ join [44] ts @ [125])
         (mapM (\<lambda>kr. rmap (\<lambda>t. json_string (fst kr) @ [58] @ t) (snd kr))
           (sort_by_key (canonical_items d))))"
| "canonical_json (VList xs) = rmap (\<lambda>ts. [91] @ join [44] ts @ [93]) (canonical_list xs)"
| "canonical_list [] = Inr []"
| "canonical_list (x # xs) = rbind (canonical_json x) (\<lambda>t. rmap ((#) t) (canonical_list xs))"
| "canonical_items [] = []"
| "canonical_items (kv # d) = (fst kv, canonical_json (snd kv)) # canonical_items d"

definition canonical_hash :: "(int list \<Rightarrow> pystr) \<Rightarrow> pyval \<Rightarrow> pystr res" where
  "canonical_hash sha v = rbind (canonical_json v) (\<lambda>t. rmap sha (encode_utf8 t))"

section \<open>Numbers read back\<close>

lemma strip_zeros_val:
  assumes "0 < m"
  shows "0 < fst (strip_zeros m x) \<and> dec_val (strip_zeros m x) = dec_val (m, x)"
  using assms
proof (induction m x rule: strip_zeros.induct)
  case (1 m x)
  show ?case
  proof (cases "m mod 10 = 0")
    case True
    with 1(2) have m: "m = 10 * (m div 10)" "0 < m div 10" by auto
    have "dec_val (m div 10, x + 1) = of_int (10 * (m div 10)) * rpow 10 x"
      by (simp add: dec_val_def rpow_add)
    then have "dec_val (m div 10, x + 1) = dec_val (m, x)" using m(1) by (simp add: dec_val_def)
    with m(2) show ?thesis using 1 True by (simp add: strip_zeros.simps [of m x])
  next
    case False
    with 1 show ?thesis by (simp add: strip_zeros.simps [of m x])
  qed
qed

lemma digits_val_zeros: "digits_val acc (zeros n) = acc * 10 ^ nat n"
proof -
  have "digits_val acc (replicate k 48) = acc * 10 ^ k" for k
    by (induction k arbitrary: acc) simp_all
  then show ?thesis by (simp add: zeros_def)
qed

lemma zeros_digits: "list_all is_digit (zeros n)"
  by (simp add: zeros_def list_all_iff is_digit_def)

lemma length_zeros [simp]: "length (zeros n) = nat n"
  by (simp add: zeros_def)

lemma take_digits_append:
  "list_all is_digit ds \<Longrightarrow> (r = [] \<or> \<not> is_digit (hd r)) \<Longrightarrow> take_digits (ds @ r) = (ds, r)"
  by (induction ds) (cases r; simp add: take_digits_def)+

lemma take_fraction_dot:
  "list_all is_digit ds \<Longrightarrow> (r = [] \<or> \<not> is_digit (hd r)) \<Longrightarrow> take_fraction (46 # ds @ r) = (ds, r)"
  by (simp add: take_fraction_def take_digits_append)

lemma take_fraction_none: "r = [] \<or> hd r \<noteq> 46 \<Longrightarrow> take_fraction r = ([], r)"
  by (cases r) (simp_all add: take_fraction_def)

lemma read_exponent_signed:
  assumes "0 \<le> e"
  shows "read_exponent (101 # 43 # dec_digits e) = Some e" "read_exponent (101 # 45 # dec_digits e) = Some (- e)"
  using assms dec_digits_digits by (simp_all add: read_exponent_def take_sign_def)

lemma read_decimal_plain:
  assumes "list_all is_digit ip" "ip \<noteq> []" "r = [] \<or> (\<not> is_digit (hd r) \<and> hd r \<noteq> 46)" "read_exponent r = Some e"
  shows "read_decimal (ip @ r) = Some (digits_val 0 ip, e)"
proof -
  have "take_digits (ip @ r) = (ip, r)" "take_fraction r = ([], r)"
    using assms by (auto intro: take_digits_append take_fraction_none)
  then show ?thesis using assms by (simp add: read_decimal_def)
qed

lemma read_decimal_fraction:
  assumes "list_all is_digit ip" "list_all is_digit fp" "ip \<noteq> []" "r = [] \<or> \<not> is_digit (hd r)"
    "read_exponent r = Some e"
  shows "read_decimal (ip @ [46] @ fp @ r) = Some (digits_val 0 (ip @ fp), e - int (length fp))"
proof -
  have "take_digits (ip @ (46 # fp @ r)) = (ip, 46 # fp @ r)"
    using assms by (intro take_digits_append) (simp_all add: is_digit_def)
  moreover have "take_fraction (46 # fp @ r) = (fp, r)" using assms by (intro take_fraction_dot)
  ultimately show ?thesis using assms by (simp add: read_decimal_def)
qed

text \<open>The text of a positive number is a decimal of exactly its value.\<close>

theorem read_decimal_es_body:
  assumes pos: "0 < fst d"
  shows "\<exists>c. read_decimal (es_body d) = Some c \<and> dec_val c = dec_val d"
proof -
  obtain m x where mx: "strip_zeros (fst d) (snd d) = (m, x)" by (cases "strip_zeros (fst d) (snd d)")
  with strip_zeros_val [OF pos, of "snd d"] have m: "0 < m" and val: "dec_val (m, x) = dec_val d"
    by simp_all
  define ds where "ds = dec_digits m"
  define k where "k = int (length ds)"
  define n where "n = x + k"
  have ds: "list_all is_digit ds" "ds \<noteq> []" "digits_val 0 ds = m"
    using m dec_digits_digits by (simp_all add: ds_def)
  have k: "1 \<le> k" using ds(2) by (cases ds) (simp_all add: k_def)
  have body: "es_body d =
      (if k \<le> n \<and> n \<le> 21 then ds @ zeros (n - k)
       else if 0 < n \<and> n \<le> 21 then take (nat n) ds @ [46] @ drop (nat n) ds
       else if - 6 < n \<and> n \<le> 0 then [48, 46] @ zeros (- n) @ ds
       else (if k = 1 then ds else take 1 ds @ [46] @ drop 1 ds)
         @ [101] @ (if 0 \<le> n - 1 then [43] else [45]) @ dec_digits \<bar>n - 1\<bar>)"
    unfolding es_body_def mx prod.case Let_def ds_def k_def n_def by (rule refl)
  have ten: "is_digit c \<longleftrightarrow> 48 \<le> c \<and> c \<le> 57" for c by (simp add: is_digit_def)
  consider (int) "k \<le> n" "n \<le> 21" | (frac) "0 < n" "n \<le> 21" "n < k"
    | (small) "- 6 < n" "n \<le> 0" | (exp) "\<not> (- 6 < n \<and> n \<le> 21)"
    using k by linarith
  then show ?thesis
  proof cases
    case int
    have "read_decimal ((ds @ zeros (n - k)) @ []) = Some (digits_val 0 (ds @ zeros (n - k)), 0)"
      using ds zeros_digits by (intro read_decimal_plain) (simp_all add: read_exponent_def)
    moreover have "dec_val (digits_val 0 (ds @ zeros (n - k)), 0) = dec_val (m, x)"
      using int by (simp add: digits_val_append digits_val_zeros ds dec_val_def n_def rpow_def)
    moreover have "es_body d = (ds @ zeros (n - k)) @ []" using int by (simp add: body)
    ultimately show ?thesis using val by auto
  next
    case frac
    let ?i = "take (nat n) ds" and ?f = "drop (nat n) ds"
    have "read_decimal (?i @ [46] @ ?f @ []) = Some (digits_val 0 (?i @ ?f), 0 - int (length ?f))"
      using ds frac by (intro read_decimal_fraction)
        (auto simp: read_exponent_def list_all_iff dest: in_set_takeD in_set_dropD)
    moreover have "0 - int (length ?f) = x" using frac by (simp add: n_def k_def)
    moreover have "es_body d = ?i @ [46] @ ?f @ []" using frac by (simp add: body)
    ultimately show ?thesis using val ds by (auto simp del: append_assoc)
  next
    case small
    have "read_decimal ([48] @ [46] @ (zeros (- n) @ ds) @ []) =
        Some (digits_val 0 ([48] @ zeros (- n) @ ds), 0 - int (length (zeros (- n) @ ds)))"
      using ds zeros_digits by (intro read_decimal_fraction) (simp_all add: read_exponent_def ten)
    moreover have "0 - int (length (zeros (- n) @ ds)) = x" using small by (simp add: n_def k_def)
    moreover have "digits_val 0 ([48] @ zeros (- n) @ ds) = m"
      by (simp add: digits_val_append digits_val_zeros ds)
    moreover have "es_body d = [48] @ [46] @ (zeros (- n) @ ds) @ []" using small k by (simp add: body)
    ultimately show ?thesis using val by auto
  next
    case exp
    let ?e = "n - 1"
    let ?t = "101 # (if 0 \<le> ?e then 43 else 45) # dec_digits \<bar>?e\<bar>"
    have rt: "read_exponent ?t = Some ?e"
      using read_exponent_signed [of "\<bar>?e\<bar>"] by (auto simp: abs_if split: if_splits)
    have ht: "\<not> is_digit (hd ?t)" "hd ?t \<noteq> 46" by (simp_all add: ten)
    show ?thesis
    proof (cases "k = 1")
      case True
      have "read_decimal (ds @ ?t) = Some (digits_val 0 ds, ?e)"
        using ds ht rt by (intro read_decimal_plain) simp_all
      moreover have "es_body d = ds @ ?t" using exp True by (auto simp: body)
      moreover have "?e = x" using True by (simp add: n_def)
      ultimately show ?thesis using val ds by auto
    next
      case False
      let ?i = "take 1 ds" and ?f = "drop 1 ds"
      have "read_decimal (?i @ [46] @ ?f @ ?t) = Some (digits_val 0 (?i @ ?f), ?e - int (length ?f))"
        using ds ht rt by (intro read_decimal_fraction)
          (auto simp: list_all_iff dest: in_set_takeD in_set_dropD)
      moreover have "?e - int (length ?f) = x" using k by (simp add: n_def k_def)
      moreover have "es_body d = ?i @ [46] @ ?f @ ?t" using exp False k by (auto simp: body)
      ultimately show ?thesis using val ds by (auto simp del: append_assoc)
    qed
  qed
qed

text \<open>
  A number's text holds only digits, a sign, a point and \<open>e\<close>; in particular no white space, no
  underscore and no letter of \<open>inf\<close> or \<open>nan\<close>, so \<open>float()\<close> reads it as the decimal it is.
\<close>

definition number_char :: "int \<Rightarrow> bool" where
  "number_char c \<longleftrightarrow> is_digit c \<or> c = 43 \<or> c = 45 \<or> c = 46 \<or> c = 101"

lemma is_digit_number_char: "list_all is_digit s \<Longrightarrow> list_all number_char s"
  by (auto simp: list_all_iff number_char_def)

lemma list_all_takeD: "list_all P xs \<Longrightarrow> list_all P (take n xs)"
  by (auto simp: list_all_iff dest: in_set_takeD)

lemma list_all_dropD: "list_all P xs \<Longrightarrow> list_all P (drop n xs)"
  by (auto simp: list_all_iff dest: in_set_dropD)

lemma es_body_chars:
  assumes pos: "0 < fst d"
  shows "list_all number_char (es_body d)" "es_body d \<noteq> []" "is_digit (hd (es_body d))"
proof -
  obtain m x where mx: "strip_zeros (fst d) (snd d) = (m, x)" by (cases "strip_zeros (fst d) (snd d)")
  with strip_zeros_val [OF pos, of "snd d"] have m: "0 < m" by simp
  have ds: "list_all is_digit (dec_digits m)" "dec_digits m \<noteq> []" "is_digit (hd (dec_digits m))"
    using m dec_digits_digits [of m] by (cases "dec_digits m"; simp)+
  have nc: "list_all number_char (dec_digits \<bar>n\<bar>)" "list_all number_char (zeros n)" for n
    by (simp_all add: is_digit_number_char dec_digits_digits zeros_digits)
  have nt: "list_all number_char (take n (dec_digits m))" "list_all number_char (drop n (dec_digits m))" for n
    using ds by (simp_all add: is_digit_number_char list_all_takeD list_all_dropD)
  note nc' = nc nt nt [of 1, simplified] ds(1) [THEN is_digit_number_char]
  have c: "number_char 43" "number_char 45" "number_char 46" "number_char 48" "number_char 101" "is_digit 48"
    by (simp_all add: number_char_def is_digit_def)
  show "list_all number_char (es_body d)"
    using nc' c by (simp add: es_body_def mx Let_def)
  show "es_body d \<noteq> []" using ds by (auto simp: es_body_def mx Let_def)
  have "0 < nat n \<Longrightarrow> is_digit (hd (take (nat n) (dec_digits m) @ r))" for n r
    using ds(2,3) by (cases "dec_digits m"; cases "nat n") simp_all
  then show "is_digit (hd (es_body d))"
    using ds c(6) by (auto simp: es_body_def mx Let_def)
qed

lemma number_char_not_space: "number_char c \<Longrightarrow> \<not> is_space c"
  by (auto simp: number_char_def is_space_def is_digit_def)

lemma py_strip_number: "list_all number_char s \<Longrightarrow> py_strip s = s"
proof -
  assume s: "list_all number_char s"
  then have "\<And>c. c \<in> set s \<Longrightarrow> \<not> is_space c" by (auto simp: list_all_iff number_char_not_space)
  then have "dropWhile is_space s = s" "dropWhile is_space (rev s) = rev s"
    unfolding dropWhile_eq_self_iff by (metis hd_in_set set_rev)+
  then show ?thesis by (simp add: py_strip_def)
qed

lemma underscores_ok_number: "list_all number_char s \<Longrightarrow> underscores_ok b s"
  by (induction s arbitrary: b) (auto simp: number_char_def is_digit_def)

lemma filter_number: "list_all number_char s \<Longrightarrow> filter (\<lambda>c. c \<noteq> 95) s = s"
  by (induction s) (auto simp: number_char_def is_digit_def)

lemma float_of_str_decimal:
  assumes "list_all number_char s" "s \<noteq> []" "is_digit (hd s)" "read_decimal s = Some c"
  shows "float_of_str ((if neg then [45] else []) @ s) = Inr (fl (if neg then - dec_val c else dec_val c))"
proof -
  have ch: "number_char 45" by (simp add: number_char_def)
  then have strip: "py_strip ((if neg then [45] else []) @ s) = (if neg then [45] else []) @ s"
    using assms by (intro py_strip_number) simp
  obtain h t where s: "s = h # t" and h: "is_digit h" using assms by (cases s) auto
  have sign: "take_sign ((if neg then [45] else []) @ s) = (neg, s)"
    using h by (simp add: take_sign_def s is_digit_def)
  have "lower_char h = h" using h by (simp add: lower_char_def is_digit_def)
  then have "hd (py_lower s) = h" by (simp add: py_lower_def s)
  moreover have "hd (str ''inf'') = 105" "hd (str ''infinity'') = 105" "hd (str ''nan'') = 110"
    by (simp_all add: str_def)
  ultimately have no: "py_lower s \<noteq> str ''inf''" "py_lower s \<noteq> str ''infinity''" "py_lower s \<noteq> str ''nan''"
    using h by (auto simp: is_digit_def)
  show ?thesis
    unfolding float_of_str_def strip sign prod.case
    using no assms by (simp add: underscores_ok_number filter_number)
qed

text \<open>The text \<open>_es_number\<close> prints is read back by \<open>float()\<close> as the same float.\<close>

lemma es_number_roundtrip:
  assumes dbl: "is_double q" and t: "es_number (Fin q) = Inr t"
  shows "float_of_str t = Inr (Fin q)"
proof (cases "q = 0")
  case True
  with t have "t = [48]" by simp
  then show ?thesis using True float_of_str_decimal [of "[48]" "(0, 0)" False]
    by (simp add: number_char_def is_digit_def read_decimal_def take_digits_def take_fraction_def
        read_exponent_def dec_val_def)
next
  case False
  with t obtain d where d: "shortest_decimal \<bar>q\<bar> = Some d" and
    td: "t = (if q < 0 then [45] else []) @ es_body d"
    by (auto split: option.splits)
  have d0: "0 < fst d" using d False by (intro shortest_decimal_pos) auto
  have fd: "fl (dec_val d) = Fin \<bar>q\<bar>" using d by (rule shortest_decimal_sound)
  obtain c where c: "read_decimal (es_body d) = Some c" "dec_val c = dec_val d"
    using read_decimal_es_body [OF d0] by blast
  have "float_of_str t = Inr (fl (if q < 0 then - dec_val c else dec_val c))"
    unfolding td using es_body_chars [OF d0] c(1) by (intro float_of_str_decimal) auto
  also have "fl (if q < 0 then - dec_val c else dec_val c) = Fin q"
    using fd c(2) by (auto simp: fl_minus)
  finally show ?thesis .
qed

text \<open>Every finite float has a text.\<close>

lemma es_number_total: "is_double q \<Longrightarrow> \<exists>t. es_number (Fin q) = Inr t"
proof (cases "q = 0")
  case False
  assume "is_double q"
  then have "is_double \<bar>q\<bar>" by (cases "0 \<le> q") simp_all
  with False obtain d where "shortest_decimal \<bar>q\<bar> = Some d" using shortest_decimal_exists [of "\<bar>q\<bar>"] by auto
  then show ?thesis by simp
qed simp

lemma int_str_roundtrip: "\<bar>n\<bar> \<le> MAX_SAFE_INTEGER \<Longrightarrow> float_of_str (int_str n) = Inr (Fin (of_int n))"
proof -
  assume n: "\<bar>n\<bar> \<le> MAX_SAFE_INTEGER"
  let ?s = "dec_digits \<bar>n\<bar>"
  have ds: "list_all is_digit ?s" "?s \<noteq> []" using dec_digits_digits by simp_all
  have "read_decimal (?s @ []) = Some (digits_val 0 ?s, 0)"
    using ds by (intro read_decimal_plain) (simp_all add: read_exponent_def)
  then have rd: "read_decimal ?s = Some (\<bar>n\<bar>, 0)" by simp
  have "is_digit (hd ?s)" using ds by (cases ?s) simp_all
  then have "float_of_str ((if n < 0 then [45] else []) @ ?s) =
      Inr (fl (if n < 0 then - dec_val (\<bar>n\<bar>, 0) else dec_val (\<bar>n\<bar>, 0)))"
    using ds rd by (intro float_of_str_decimal) (simp_all add: is_digit_number_char)
  moreover have "(if n < 0 then - dec_val (\<bar>n\<bar>, 0) else dec_val (\<bar>n\<bar>, 0)) = of_int n"
    by (simp add: dec_val_def)
  moreover have "fl (of_int n) = Fin (of_int n)"
    using n by (intro fl_int) (simp add: MAX_SAFE_INTEGER_def)
  ultimately show ?thesis by (simp add: int_str_def split: if_splits)
qed

section \<open>The text determines the value\<close>

text \<open>
  What the text cannot tell apart: the order of a dictionary's keys, an integer and the float it
  rounds to. \<open>normal\<close> removes both; \<open>wf_val\<close> says that a value is one a JSON document decodes to.
\<close>

fun normal :: "pyval \<Rightarrow> pyval"
  and normal_list :: "pyval list \<Rightarrow> pyval list"
  and normal_items :: "pydict \<Rightarrow> pydict" where
  "normal (VInt n) = VFloat (fl (of_int n))"
| "normal (VList xs) = VList (normal_list xs)"
| "normal (VDict d) = VDict (sort_by_key (normal_items d))"
| "normal VNone = VNone"
| "normal (VBool b) = VBool b"
| "normal (VFloat f) = VFloat f"
| "normal (VStr s) = VStr s"
| "normal_list [] = []"
| "normal_list (x # xs) = normal x # normal_list xs"
| "normal_items [] = []"
| "normal_items (kv # d) = (fst kv, normal (snd kv)) # normal_items d"

definition wf_str :: "pystr \<Rightarrow> bool" where
  "wf_str s \<longleftrightarrow> list_all (\<lambda>c. 0 \<le> c \<and> c < 1114112) s"

fun wf_val :: "pyval \<Rightarrow> bool"
  and wf_list :: "pyval list \<Rightarrow> bool"
  and wf_items :: "pydict \<Rightarrow> bool" where
  "wf_val (VFloat f) \<longleftrightarrow> (case f of Fin q \<Rightarrow> is_double q | _ \<Rightarrow> True)"
| "wf_val (VStr s) \<longleftrightarrow> wf_str s"
| "wf_val (VList xs) \<longleftrightarrow> wf_list xs"
| "wf_val (VDict d) \<longleftrightarrow> dict_ok d \<and> wf_items d"
| "wf_val _ \<longleftrightarrow> True"
| "wf_list [] \<longleftrightarrow> True"
| "wf_list (x # xs) \<longleftrightarrow> wf_val x \<and> wf_list xs"
| "wf_items [] \<longleftrightarrow> True"
| "wf_items (kv # d) \<longleftrightarrow> wf_str (fst kv) \<and> wf_val (snd kv) \<and> wf_items d"

lemma normal_list_map: "normal_list xs = map normal xs"
  by (induction xs) simp_all

lemma normal_items_map: "normal_items d = map (\<lambda>kv. (fst kv, normal (snd kv))) d"
  by (induction d) simp_all

lemma wf_list_iff: "wf_list xs \<longleftrightarrow> (\<forall>x \<in> set xs. wf_val x)"
  by (induction xs) auto

lemma wf_items_iff: "wf_items d \<longleftrightarrow> (\<forall>kv \<in> set d. wf_str (fst kv) \<and> wf_val (snd kv))"
  by (induction d) auto

lemma canonical_list_map: "canonical_list xs = mapM canonical_json xs"
  by (induction xs) simp_all

lemma canonical_items_map: "canonical_items d = map (\<lambda>kv. (fst kv, canonical_json (snd kv))) d"
  by (induction d) simp_all

lemma sort_by_key_map:
  "sort_by_key (map (\<lambda>kv. (fst kv, f (snd kv))) d) = map (\<lambda>kv. (fst kv, f (snd kv))) (sort_by_key d)"
proof -
  let ?g = "\<lambda>kv. (fst kv, f (snd kv))" and ?k = "\<lambda>kv. utf16_be (fst kv)"
  have "insort_key ?k (?g x) (map ?g xs) = map ?g (insort_key ?k x xs)" for x xs
    by (induction xs) simp_all
  then have "sort_key ?k (map ?g d) = map ?g (sort_key ?k d)" by (induction d) simp_all
  then show ?thesis by (simp add: sort_by_key_def)
qed

lemma set_sort_by_key [simp]: "set (sort_by_key d) = set d"
  by (simp add: sort_by_key_def)

definition item_text :: "pystr \<times> pyval \<Rightarrow> pystr res" where
  "item_text kv = rmap (\<lambda>t. json_string (fst kv) @ [58] @ t) (canonical_json (snd kv))"

lemma canonical_dict:
  "canonical_json (VDict d) = Inr t \<longleftrightarrow>
     (\<exists>bs ts. mapM (\<lambda>kv. encode_utf16 (fst kv)) d = Inr bs \<and> mapM item_text (sort_by_key d) = Inr ts
        \<and> t = [123] @ join [44] ts @ [125])"
proof -
  have "mapM (\<lambda>kr. rmap (\<lambda>t. json_string (fst kr) @ [58] @ t) (snd kr)) (sort_by_key (canonical_items d))
      = mapM item_text (sort_by_key d)"
  proof -
    have "mapM (\<lambda>kr. rmap (\<lambda>t. json_string (fst kr) @ [58] @ t) (snd kr))
        (map (\<lambda>kv. (fst kv, canonical_json (snd kv))) xs) = mapM item_text xs" for xs
      by (induction xs) (simp_all add: item_text_def)
    then show ?thesis by (simp add: canonical_items_map sort_by_key_map)
  qed
  then show ?thesis by (auto simp: res_simps)
qed

text \<open>Numbers: the text is a run of number characters, and \<open>float()\<close> of it is the normal form.\<close>

lemma es_number_chars: "es_number f = Inr t \<Longrightarrow> list_all number_char t \<and> t \<noteq> [] \<and> (is_digit (hd t) \<or> hd t = 45)"
proof (cases f)
  case (Fin q)
  assume t: "es_number f = Inr t"
  show ?thesis
  proof (cases "q = 0")
    case True
    with t Fin show ?thesis by (auto simp: number_char_def is_digit_def)
  next
    case False
    with t Fin obtain d where d: "shortest_decimal \<bar>q\<bar> = Some d"
      and td: "t = (if q < 0 then [45] else []) @ es_body d" by (auto split: option.splits)
    have "0 < fst d" using d False by (intro shortest_decimal_pos) auto
    from es_body_chars [OF this] show ?thesis by (auto simp: td number_char_def)
  qed
qed simp_all

lemma int_str_chars: "list_all number_char (int_str n) \<and> int_str n \<noteq> [] \<and> (is_digit (hd (int_str n)) \<or> hd (int_str n) = 45)"
proof -
  have "list_all is_digit (dec_digits \<bar>n\<bar>)" "dec_digits \<bar>n\<bar> \<noteq> []" using dec_digits_digits by simp_all
  then have "list_all number_char (dec_digits \<bar>n\<bar>)" "is_digit (hd (dec_digits \<bar>n\<bar>))"
    by (simp_all add: is_digit_number_char) (cases "dec_digits \<bar>n\<bar>"; simp)
  then show ?thesis by (auto simp: int_str_def number_char_def)
qed

fun is_number :: "pyval \<Rightarrow> bool" where
  "is_number (VInt n) = True"
| "is_number (VFloat f) = True"
| "is_number _ = False"

lemma canonical_number:
  assumes "is_number v" "wf_val v" "canonical_json v = Inr t"
  shows "list_all number_char t \<and> t \<noteq> [] \<and> (is_digit (hd t) \<or> hd t = 45)"
    and "\<exists>f. float_of_str t = Inr f \<and> normal v = VFloat f"
proof -
  have "(list_all number_char t \<and> t \<noteq> [] \<and> (is_digit (hd t) \<or> hd t = 45)) \<and>
    (\<exists>f. float_of_str t = Inr f \<and> normal v = VFloat f)"
  proof (cases v)
    case (VInt n)
    show ?thesis
    proof (cases "\<bar>n\<bar> \<le> MAX_SAFE_INTEGER")
      case True
      then have "fl (of_int n) = Fin (of_int n)" by (intro fl_int) (simp add: MAX_SAFE_INTEGER_def)
      with True VInt assms(3) show ?thesis
        using int_str_chars [of n] int_str_roundtrip [OF True] by simp
    next
      case False
      with VInt assms(3) obtain q where q: "fl (of_int n) = Fin q" "es_number (Fin q) = Inr t"
        by (auto simp: res_simps float_of_int_def split: pyfloat.splits)
      with VInt show ?thesis
        using es_number_chars [OF q(2)] es_number_roundtrip [OF fl_is_double [OF q(1)] q(2)] by simp
    qed
  next
    case (VFloat f)
    with assms obtain q where q: "f = Fin q" "is_double q" "es_number (Fin q) = Inr t"
      by (cases f) auto
    with VFloat show ?thesis
      using es_number_chars [OF q(3)] es_number_roundtrip [OF q(2,3)] by simp
  qed (use assms in simp_all)
  then show "list_all number_char t \<and> t \<noteq> [] \<and> (is_digit (hd t) \<or> hd t = 45)"
    and "\<exists>f. float_of_str t = Inr f \<and> normal v = VFloat f" by blast+
qed

text \<open>What may follow a value's text: nothing, or a comma or closing bracket.\<close>

definition stops :: "pystr \<Rightarrow> bool" where
  "stops r \<longleftrightarrow> r = [] \<or> hd r \<in> {44, 93, 125}"

lemma stops_simps [simp]: "stops []" "stops (44 # r)" "stops (93 # r)" "stops (125 # r)"
  by (simp_all add: stops_def)

lemma number_split:
  assumes "list_all number_char t" "list_all number_char u" "stops r" "stops r'" "t @ r = u @ r'"
  shows "t = u \<and> r = r'"
proof -
  have tw: "takeWhile number_char (s @ a) = s" if "list_all number_char s" "stops a" for s a
    using that by (induction s) (cases a; auto simp: stops_def number_char_def is_digit_def)+
  have "t = u" using tw [of t r] tw [of u r'] assms by simp
  with assms(5) show ?thesis by simp
qed

lemma hex_digit_eq: "0 \<le> c \<Longrightarrow> c < 16 \<Longrightarrow> 0 \<le> d \<Longrightarrow> d < 16 \<Longrightarrow> hex_digit c = hex_digit d \<longleftrightarrow> c = d"
  by (auto simp: hex_digit_def)

lemma json_escape_not_quote: "json_escape c @ a \<noteq> 34 # b"
  by (simp add: json_escape_def)

definition short_escapes :: "(int \<times> int) set" where
  "short_escapes = {(34, 34), (92, 92), (8, 98), (9, 116), (10, 110), (12, 102), (13, 114)}"

lemma short_escapes_inj: "(c, k) \<in> short_escapes \<Longrightarrow> (d, k) \<in> short_escapes \<Longrightarrow> c = d"
  by (auto simp: short_escapes_def)

lemma short_escapes_not_u: "(c, 117) \<notin> short_escapes"
  by (simp add: short_escapes_def)

lemma json_escape_cases:
  obtains (plain) "json_escape c = [c]" "32 \<le> c" "c \<noteq> 92"
    | (short) k where "json_escape c = [92, k]" "(c, k) \<in> short_escapes"
    | (hex) "json_escape c = [92, 117, 48, 48, hex_digit (c div 16), hex_digit (c mod 16)]" "c < 32"
proof -
  consider "c = 34" | "c = 92" | "c = 8" | "c = 9" | "c = 10" | "c = 12" | "c = 13"
    | "c < 32" "c \<notin> {8, 9, 10, 12, 13}" | "32 \<le> c" "c \<noteq> 34" "c \<noteq> 92"
    by (cases "c < 32") (simp_all add: not_less, blast+)
  then show thesis by cases (auto simp: json_escape_def short_escapes_def intro: that)
qed

lemma json_escape_split:
  assumes "0 \<le> c" "0 \<le> d" "json_escape c @ a = json_escape d @ b"
  shows "c = d \<and> a = b"
proof -
  have hex: "c = d" if h: "c < 32" "d < 32" "hex_digit (c div 16) = hex_digit (d div 16)"
    "hex_digit (c mod 16) = hex_digit (d mod 16)"
  proof -
    have "c div 16 = d div 16" "c mod 16 = d mod 16" using h assms by (simp_all add: hex_digit_eq)
    then show ?thesis by (metis div_mult_mod_eq)
  qed
  show ?thesis
    by (cases c rule: json_escape_cases; cases d rule: json_escape_cases)
      (use assms(3) hex in \<open>auto dest: short_escapes_inj simp: short_escapes_not_u\<close>)
qed

lemma json_string_split:
  assumes "wf_str s" "wf_str s'" "json_string s @ r = json_string s' @ r'"
  shows "s = s' \<and> r = r'"
proof -
  have "concat (map json_escape s) @ 34 # r = concat (map json_escape s') @ 34 # r'"
    using assms(3) by (simp add: json_string_def)
  with assms(1,2) show ?thesis
  proof (induction s arbitrary: s')
    case Nil
    then show ?case by (cases s') (auto dest: json_escape_not_quote [THEN notE, OF sym])
  next
    case (Cons c s)
    show ?case
    proof (cases s')
      case Nil
      with Cons.prems show ?thesis by (auto dest: json_escape_not_quote [THEN notE])
    next
      case s': (Cons d t)
      with Cons.prems have "json_escape c @ (concat (map json_escape s) @ 34 # r) =
          json_escape d @ (concat (map json_escape t) @ 34 # r')" by simp
      moreover have "0 \<le> c" "0 \<le> d" "wf_str s" "wf_str t" using Cons.prems s' by (simp_all add: wf_str_def)
      ultimately show ?thesis using json_escape_split Cons.IH [of t] s' by blast
    qed
  qed
qed

text \<open>The first character of a text tells the kind of its value.\<close>

fun head_char :: "pyval \<Rightarrow> int \<Rightarrow> bool" where
  "head_char VNone c \<longleftrightarrow> c = 110"
| "head_char (VBool b) c \<longleftrightarrow> c = (if b then 116 else 102)"
| "head_char (VStr s) c \<longleftrightarrow> c = 34"
| "head_char (VList xs) c \<longleftrightarrow> c = 91"
| "head_char (VDict d) c \<longleftrightarrow> c = 123"
| "head_char v c \<longleftrightarrow> is_digit c \<or> c = 45"

lemma canonical_head:
  assumes "wf_val v" "canonical_json v = Inr t"
  obtains c s where "t = c # s" "head_char v c" "c \<noteq> 93" "c \<noteq> 125"
proof -
  have "t \<noteq> [] \<and> head_char v (hd t) \<and> hd t \<noteq> 93 \<and> hd t \<noteq> 125"
  proof (cases "is_number v")
    case True
    from canonical_number(1) [OF True assms] have "t \<noteq> []" "is_digit (hd t) \<or> hd t = 45" by auto
    moreover have "head_char v (hd t)" using True calculation(2) by (cases v) auto
    ultimately show ?thesis by (auto simp: is_digit_def)
  next
    case False
    then show ?thesis using assms
      by (cases v) (auto simp: res_simps json_string_def str_def)
  qed
  then show ?thesis using that [of "hd t" "tl t"] by (cases t) simp_all
qed

definition text_inj :: "pyval \<Rightarrow> bool" where
  "text_inj v \<longleftrightarrow> (\<forall>w t u r r'. wf_val w \<longrightarrow> canonical_json v = Inr t \<longrightarrow> canonical_json w = Inr u \<longrightarrow>
     t @ r = u @ r' \<longrightarrow> stops r \<longrightarrow> stops r' \<longrightarrow> normal v = normal w \<and> r = r')"

lemma text_injD:
  "text_inj v \<Longrightarrow> wf_val w \<Longrightarrow> canonical_json v = Inr t \<Longrightarrow> canonical_json w = Inr u \<Longrightarrow>
     t @ r = u @ r' \<Longrightarrow> stops r \<Longrightarrow> stops r' \<Longrightarrow> normal v = normal w \<and> r = r'"
  unfolding text_inj_def by blast

text \<open>What follows an element in a joined sequence closed by the bracket \<open>z\<close>.\<close>

definition seq_rest :: "int \<Rightarrow> pystr list \<Rightarrow> pystr \<Rightarrow> pystr" where
  "seq_rest z ts r = (if ts = [] then z # r else 44 # join [44] ts @ z # r)"

lemma join_seq_rest: "join [44] (t # ts) @ z # r = t @ seq_rest z ts r"
  by (cases ts) (simp_all add: seq_rest_def)

lemma seq_rest_stops: "z \<in> {93, 125} \<Longrightarrow> stops (seq_rest z ts r)"
  by (auto simp: seq_rest_def)

lemma seq_rest_eq:
  assumes "z \<noteq> 44" "seq_rest z ts r = seq_rest z us r'"
  shows "(ts = [] \<longleftrightarrow> us = []) \<and> join [44] ts @ z # r = join [44] us @ z # r'"
  using assms by (auto simp: seq_rest_def split: if_splits)

lemma list_text_inj:
  assumes "\<And>x. x \<in> set xs \<Longrightarrow> text_inj x \<and> wf_val x" "\<And>y. y \<in> set ys \<Longrightarrow> wf_val y"
    and "mapM canonical_json xs = Inr ts" "mapM canonical_json ys = Inr us"
    and "join [44] ts @ 93 # r = join [44] us @ 93 # r'"
  shows "map normal xs = map normal ys \<and> r = r'"
  using assms
proof (induction xs arbitrary: ys ts us)
  case Nil
  show ?case
  proof (cases ys)
    case Nil
    with Nil.prems show ?thesis by simp
  next
    case (Cons y ys')
    with Nil.prems obtain u us' where u: "canonical_json y = Inr u" "us = u # us'" by (auto simp: res_simps)
    moreover from Nil.prems Cons have "wf_val y" by simp
    ultimately obtain c s where "u = c # s" "c \<noteq> 93" by (metis canonical_head)
    with Nil.prems u show ?thesis by (simp add: join_seq_rest)
  qed
next
  case (Cons x xs)
  from Cons.prems obtain t ts' where t: "canonical_json x = Inr t" "mapM canonical_json xs = Inr ts'" "ts = t # ts'"
    by (auto simp: res_simps)
  show ?case
  proof (cases ys)
    case Nil
    obtain c s where "t = c # s" "c \<noteq> 93" using Cons.prems(1) t(1) canonical_head by (metis list.set_intros(1))
    with Cons.prems Nil t show ?thesis by (simp add: join_seq_rest)
  next
    case ys: (Cons y ys')
    with Cons.prems obtain u us' where u: "canonical_json y = Inr u" "mapM canonical_json ys' = Inr us'" "us = u # us'"
      by (auto simp: res_simps)
    from Cons.prems(5) have "t @ seq_rest 93 ts' r = u @ seq_rest 93 us' r'"
      by (simp only: t u join_seq_rest)
    then have h: "normal x = normal y \<and> seq_rest 93 ts' r = seq_rest 93 us' r'"
      using Cons.prems(1,2) t(1) u(1) ys by (intro text_injD [of x y t u]) (simp_all add: seq_rest_stops)
    then have "join [44] ts' @ 93 # r = join [44] us' @ 93 # r'" using seq_rest_eq [of 93 ts' r us' r'] by simp
    then have "map normal xs = map normal ys' \<and> r = r'"
      using Cons.prems(1,2) t(2) u(2) ys by (intro Cons.IH) auto
    with h ys show ?thesis by simp
  qed
qed

lemma items_text_inj:
  assumes "\<And>kv. kv \<in> set d \<Longrightarrow> text_inj (snd kv) \<and> wf_str (fst kv)"
    and "\<And>kv. kv \<in> set e \<Longrightarrow> wf_val (snd kv) \<and> wf_str (fst kv)"
    and "mapM item_text d = Inr ts" "mapM item_text e = Inr us"
    and "join [44] ts @ 125 # r = join [44] us @ 125 # r'"
  shows "map (\<lambda>kv. (fst kv, normal (snd kv))) d = map (\<lambda>kv. (fst kv, normal (snd kv))) e \<and> r = r'"
  using assms
proof (induction d arbitrary: e ts us)
  case Nil
  show ?case
  proof (cases e)
    case Nil
    with Nil.prems show ?thesis by simp
  next
    case (Cons kv e')
    with Nil.prems show ?thesis by (auto simp: res_simps item_text_def json_string_def join_seq_rest)
  qed
next
  case (Cons kv d)
  obtain tk ts' where tk: "item_text kv = Inr tk" "mapM item_text d = Inr ts'" "ts = tk # ts'"
    using Cons.prems(3) by (auto simp: res_simps)
  then obtain t where t: "canonical_json (snd kv) = Inr t" "mapM item_text d = Inr ts'"
    "ts = (json_string (fst kv) @ [58] @ t) # ts'"
    by (auto simp: res_simps item_text_def)
  show ?case
  proof (cases e)
    case Nil
    with Cons.prems t show ?thesis by (simp add: join_seq_rest json_string_def)
  next
    case e: (Cons kv' e')
    with Cons.prems(4) obtain uk us' where uk: "item_text kv' = Inr uk" "mapM item_text e' = Inr us'" "us = uk # us'"
      by (auto simp: res_simps)
    then obtain u where u: "canonical_json (snd kv') = Inr u" "mapM item_text e' = Inr us'"
      "us = (json_string (fst kv') @ [58] @ u) # us'"
      by (auto simp: res_simps item_text_def)
    from Cons.prems(5) have eq: "json_string (fst kv) @ (58 # t @ seq_rest 125 ts' r) =
        json_string (fst kv') @ (58 # u @ seq_rest 125 us' r')"
      by (simp add: t u join_seq_rest)
    have k: "fst kv = fst kv'" "t @ seq_rest 125 ts' r = u @ seq_rest 125 us' r'"
      using json_string_split [OF _ _ eq] Cons.prems(1) [of kv] Cons.prems(2) [of kv'] e by simp_all
    have h: "normal (snd kv) = normal (snd kv') \<and> seq_rest 125 ts' r = seq_rest 125 us' r'"
      using Cons.prems(1,2) t(1) u(1) e k(2)
      by (intro text_injD [of "snd kv" "snd kv'" t u]) (simp_all add: seq_rest_stops)
    then have "join [44] ts' @ 125 # r = join [44] us' @ 125 # r'" using seq_rest_eq [of 125 ts' r us' r'] by simp
    then have "map (\<lambda>kv. (fst kv, normal (snd kv))) d = map (\<lambda>kv. (fst kv, normal (snd kv))) e' \<and> r = r'"
      using Cons.prems(1,2) t(2) u(2) e by (intro Cons.IH) auto
    with h k e show ?thesis by simp
  qed
qed

lemma number_text_inj:
  assumes "is_number v" "wf_val v"
  shows "text_inj v"
  unfolding text_inj_def
proof (intro allI impI)
  fix w t u r r'
  assume w: "wf_val w" and t: "canonical_json v = Inr t" and u: "canonical_json w = Inr u"
    and eq: "t @ r = u @ r'" and st: "stops r" "stops r'"
  note vt = canonical_number [OF assms t]
  obtain c s where c: "u = c # s" "head_char w c" using canonical_head [OF w u] by metis
  from vt(1) eq c have "is_digit c \<or> c = 45" by (cases t) auto
  with c(2) have "is_number w" by (cases w) (auto simp: is_digit_def split: if_splits)
  note wu = canonical_number [OF this w u]
  from vt(1) wu(1) st eq have "t = u \<and> r = r'" by (intro number_split) auto
  with vt(2) wu(2) show "normal v = normal w \<and> r = r'" by auto
qed

lemma constant_text_inj:
  assumes "canonical_json v = Inr c" "\<And>w. head_char w (hd c) \<Longrightarrow> w = v" "c \<noteq> []"
  shows "text_inj v"
  unfolding text_inj_def
proof (intro allI impI)
  fix w t u r r'
  assume w: "wf_val w" and t: "canonical_json v = Inr t" and u: "canonical_json w = Inr u" and eq: "t @ r = u @ r'"
  obtain a s where a: "u = a # s" "head_char w a" using canonical_head [OF w u] by metis
  from assms(1,3) t eq a(1) have "a = hd c" by (cases c) auto
  with a(2) assms(2) have "w = v" by simp
  with t u eq show "normal v = normal w \<and> r = r'" by simp
qed

theorem canonical_text_inj: "wf_val v \<Longrightarrow> text_inj v"
proof (induction v)
  case VNone
  show ?case
  proof (rule constant_text_inj)
    fix w
    show "head_char w (hd (str ''null'')) \<Longrightarrow> w = VNone"
      by (cases w) (auto simp: str_def is_digit_def split: if_splits)
  qed simp_all
next
  case (VBool b)
  show ?case
  proof (rule constant_text_inj)
    fix w
    show "head_char w (hd (if b then str ''true'' else str ''false'')) \<Longrightarrow> w = VBool b"
      by (cases w) (auto simp: str_def is_digit_def split: if_splits)
  qed simp_all
next
  case (VInt n)
  then show ?case by (intro number_text_inj) simp_all
next
  case (VFloat f)
  then show ?case by (intro number_text_inj) simp_all
next
  case (VStr s)
  show ?case unfolding text_inj_def
  proof (intro allI impI)
    fix w t u r r'
    assume w: "wf_val w" and t: "canonical_json (VStr s) = Inr t" and u: "canonical_json w = Inr u"
      and eq: "t @ r = u @ r'"
    obtain c a where c: "u = c # a" "head_char w c" using canonical_head [OF w u] by metis
    from t eq c have "c = 34" by (auto simp: json_string_def)
    with c(2) obtain s' where s': "w = VStr s'" by (cases w) (auto simp: is_digit_def split: if_splits)
    with t u eq w VStr json_string_split [of s s' r r'] show "normal (VStr s) = normal w \<and> r = r'" by auto
  qed
next
  case (VList xs)
  show ?case unfolding text_inj_def
  proof (intro allI impI)
    fix w t u r r'
    assume w: "wf_val w" and t: "canonical_json (VList xs) = Inr t" and u: "canonical_json w = Inr u"
      and eq: "t @ r = u @ r'"
    obtain c a where c: "u = c # a" "head_char w c" using canonical_head [OF w u] by metis
    from t eq c have "c = 91" by (auto simp: res_simps)
    with c(2) obtain ys where ys: "w = VList ys" by (cases w) (auto simp: is_digit_def split: if_splits)
    from t obtain ts where ts: "mapM canonical_json xs = Inr ts" "t = [91] @ join [44] ts @ [93]"
      by (auto simp: canonical_list_map res_simps)
    from u ys obtain us where us: "mapM canonical_json ys = Inr us" "u = [91] @ join [44] us @ [93]"
      by (auto simp: canonical_list_map res_simps)
    have "map normal xs = map normal ys \<and> r = r'"
    proof (rule list_text_inj [OF _ _ ts(1) us(1)])
      show "join [44] ts @ 93 # r = join [44] us @ 93 # r'" using eq by (simp add: ts us)
    qed (use VList w ys in \<open>auto simp: wf_list_iff\<close>)
    with ys show "normal (VList xs) = normal w \<and> r = r'" by (simp add: normal_list_map)
  qed
next
  case (VDict d)
  show ?case unfolding text_inj_def
  proof (intro allI impI)
    fix w t u r r'
    assume w: "wf_val w" and t: "canonical_json (VDict d) = Inr t" and u: "canonical_json w = Inr u"
      and eq: "t @ r = u @ r'"
    obtain c a where c: "u = c # a" "head_char w c" using canonical_head [OF w u] by metis
    from t eq c have "c = 123" unfolding canonical_dict by auto
    with c(2) obtain e where e: "w = VDict e" by (cases w) (auto simp: is_digit_def split: if_splits)
    from t obtain ts where ts: "mapM item_text (sort_by_key d) = Inr ts" "t = [123] @ join [44] ts @ [125]"
      by (auto simp only: canonical_dict)
    from u e obtain us where us: "mapM item_text (sort_by_key e) = Inr us" "u = [123] @ join [44] us @ [125]"
      by (auto simp only: canonical_dict)
    have "map (\<lambda>kv. (fst kv, normal (snd kv))) (sort_by_key d) =
        map (\<lambda>kv. (fst kv, normal (snd kv))) (sort_by_key e) \<and> r = r'"
    proof (rule items_text_inj [OF _ _ ts(1) us(1)])
      fix kv
      assume "kv \<in> set (sort_by_key d)"
      with VDict show "text_inj (snd kv) \<and> wf_str (fst kv)" by (cases kv) (auto simp: wf_items_iff)
    next
      show "join [44] ts @ 125 # r = join [44] us @ 125 # r'" using eq by (simp add: ts us)
    qed (use w e in \<open>auto simp: wf_items_iff\<close>)
    with e show "normal (VDict d) = normal w \<and> r = r'" by (simp add: normal_items_map sort_by_key_map)
  qed
qed

lemma canonical_json_normal:
  assumes "wf_val v" "wf_val w" "canonical_json v = Inr t" "canonical_json w = Inr t"
  shows "normal v = normal w"
  using text_injD [OF canonical_text_inj [OF assms(1)] assms(2-4), of "[]" "[]"] by simp

section \<open>Equal values have equal texts\<close>

lemma dec_digits_snoc: "0 < q \<Longrightarrow> dec_digits (q * 10) = dec_digits q @ [48]"
  by (subst dec_digits.simps) simp

lemma dec_digits_shift: "0 < m \<Longrightarrow> dec_digits (m * 10 ^ k) = dec_digits m @ replicate k 48"
proof (induction k)
  case (Suc k)
  have "dec_digits ((m * 10 ^ k) * 10) = dec_digits (m * 10 ^ k) @ [48]"
    using Suc.prems by (intro dec_digits_snoc) simp
  with Suc show ?case by (simp add: replicate_append_same mult.commute [of _ 10] mult.left_commute)
qed simp

lemma strip_zeros_exp: "x \<le> snd (strip_zeros m x)"
proof (induction m x rule: strip_zeros.induct)
  case (1 m x)
  show ?case
  proof (cases "m \<noteq> 0 \<and> m mod 10 = 0")
    case True
    with 1 have "x + 1 \<le> snd (strip_zeros (m div 10) (x + 1))" by blast
    with True show ?thesis by (subst strip_zeros.simps) simp
  qed (subst strip_zeros.simps, auto)
qed

lemma dec_digits_bound: "0 < k \<Longrightarrow> 10 ^ (length (dec_digits k) - 1) \<le> k"
proof (induction k rule: dec_digits.induct)
  case (1 k)
  show ?case
  proof (cases "k < 10")
    case True
    with 1 show ?thesis by (simp add: dec_digits.simps [of k])
  next
    case False
    with 1 have "10 ^ (length (dec_digits (k div 10)) - 1) \<le> k div 10"
      by (simp add: pos_imp_zdiv_pos_iff)
    moreover have "length (dec_digits (k div 10)) \<noteq> 0" by simp
    then have "(10 :: int) ^ length (dec_digits (k div 10)) = 10 * 10 ^ (length (dec_digits (k div 10)) - 1)"
      by (metis Suc_pred' gr0I power_Suc)
    ultimately show ?thesis using False by (simp add: dec_digits.simps [of k])
  qed
qed

lemma es_number_int:
  assumes "\<bar>n\<bar> \<le> MAX_SAFE_INTEGER"
  shows "es_number (Fin (of_int n)) = Inr (int_str n)"
proof (cases "n = 0")
  case True
  then show ?thesis by (simp add: int_str_def dec_digits.simps)
next
  case False
  let ?a = "\<bar>n\<bar>"
  have a: "0 < ?a" "?a < 2 ^ 53" using False assms by (simp_all add: MAX_SAFE_INTEGER_def)
  obtain m x where d: "shortest_decimal (of_int ?a) = Some (m, x)" "0 \<le> x" "0 < m" "m * 10 ^ nat x = ?a"
    using shortest_decimal_int [OF a] .
  obtain m' x' where sz: "strip_zeros m x = (m', x')" by (cases "strip_zeros m x")
  have x': "0 \<le> x'" using strip_zeros_exp [of x m] d(2) sz by simp
  have m': "0 < m'" and "dec_val (m', x') = dec_val (m, x)" using strip_zeros_val [OF d(3), of x] sz by simp_all
  then have "rat_of_int (m' * 10 ^ nat x') = of_int (m * 10 ^ nat x)"
    using x' d(2) by (simp add: dec_val_def rpow_def)
  then have "m' * 10 ^ nat x' = ?a" using d(4) by (simp only: of_int_eq_iff)
  then have ds: "dec_digits ?a = dec_digits m' @ zeros x'"
    using dec_digits_shift [OF m', of "nat x'"] by (simp add: zeros_def)
  have len: "int (length (dec_digits ?a)) \<le> 21"
  proof -
    have "10 ^ (length (dec_digits ?a) - 1) < (10 :: int) ^ 16" using dec_digits_bound [OF a(1)] a(2) by simp
    then have "length (dec_digits ?a) - 1 < 16" by (rule power_less_imp_less_exp [rotated]) simp
    then show ?thesis by simp
  qed
  have body: "es_body (m, x) = dec_digits ?a"
    using x' len by (simp add: es_body_def sz Let_def ds)
  have "rat_of_int ?a = \<bar>of_int n\<bar>" by simp
  then show ?thesis using False d(1) body by (simp add: int_str_def split: if_splits)
qed

lemma snds_snd: "xb \<in> Basic_BNFs.snds kv \<longleftrightarrow> xb = snd kv"
  by (cases kv) auto

lemma canonical_json_int:
  assumes "canonical_json (VInt n) = Inr t"
  shows "es_number (fl (of_int n)) = Inr t"
proof (cases "\<bar>n\<bar> \<le> MAX_SAFE_INTEGER")
  case True
  then have "fl (of_int n) = Fin (of_int n)" by (intro fl_int) (simp add: MAX_SAFE_INTEGER_def)
  with True assms es_number_int [OF True] show ?thesis by simp
next
  case False
  with assms show ?thesis by (auto simp: float_of_int_def res_simps split: pyfloat.splits)
qed

lemma sort_by_key_idem: "sort_by_key (sort_by_key d) = sort_by_key d"
  by (simp add: sort_by_key_def sort_key_id_if_sorted)

lemma normal_dict_items: "sort_by_key (normal_items d) = map (\<lambda>kv. (fst kv, normal (snd kv))) (sort_by_key d)"
  by (simp add: normal_items_map sort_by_key_map)

lemma mapM_item_text_normal:
  assumes "\<And>kv t. kv \<in> set d \<Longrightarrow> canonical_json (snd kv) = Inr t \<Longrightarrow> canonical_json (normal (snd kv)) = Inr t"
    and "mapM item_text d = Inr ts"
  shows "mapM item_text (map (\<lambda>kv. (fst kv, normal (snd kv))) d) = Inr ts"
  using assms
proof (induction d arbitrary: ts)
  case (Cons kv d)
  from Cons.prems(2) obtain t us where t: "item_text kv = Inr t" "mapM item_text d = Inr us" "ts = t # us"
    by (auto simp: res_simps)
  then have "item_text (fst kv, normal (snd kv)) = Inr t"
    using Cons.prems(1) [of kv] by (auto simp: item_text_def res_simps)
  with t Cons.IH [OF Cons.prems(1) t(2)] show ?case by simp
qed simp

lemma canonical_normal_text: "canonical_json v = Inr t \<Longrightarrow> canonical_json (normal v) = Inr t"
proof (induction v arbitrary: t)
  case (VInt n)
  then show ?case using canonical_json_int [OF VInt] by simp
next
  case (VList xs)
  then obtain ts where ts: "mapM canonical_json xs = Inr ts" "t = [91] @ join [44] ts @ [93]"
    by (auto simp: canonical_list_map res_simps)
  then have "mapM canonical_json (map normal xs) = Inr ts"
    using VList.IH unfolding mapM_eq_Inr list_all2_map1
    by (auto elim!: list.rel_mono_strong)
  with ts(2) show ?case by (simp add: canonical_list_map normal_list_map)
next
  case (VDict d)
  then obtain bs ts where ts: "mapM (\<lambda>kv. encode_utf16 (fst kv)) d = Inr bs"
    "mapM item_text (sort_by_key d) = Inr ts" "t = [123] @ join [44] ts @ [125]"
    unfolding canonical_dict by blast
  have "\<exists>bs. mapM (\<lambda>kv. encode_utf16 (fst kv)) (map (\<lambda>kv. (fst kv, normal (snd kv))) (sort_by_key d)) = Inr bs"
  proof -
    have "\<exists>b. encode_utf16 (fst kv) = Inr b" if "kv \<in> set d" for kv
      using ts(1) that unfolding mapM_eq_Inr list_all2_conv_all_nth in_set_conv_nth by auto
    then have "encode_utf16 (fst kv) = Inr (projr (encode_utf16 (fst kv)))" if "kv \<in> set d" for kv
      using that by fastforce
    then show ?thesis
      using mapM_total [of "map (\<lambda>kv. (fst kv, normal (snd kv))) (sort_by_key d)" "\<lambda>kv. encode_utf16 (fst kv)"
          "\<lambda>kv. projr (encode_utf16 (fst kv))"] by fastforce
  qed
  moreover have "mapM item_text (map (\<lambda>kv. (fst kv, normal (snd kv))) (sort_by_key d)) = Inr ts"
    using VDict.IH ts(2) by (intro mapM_item_text_normal) (auto simp: snds_snd)
  ultimately show ?case
    using ts(3) unfolding normal.simps canonical_dict
    by (metis normal_dict_items sort_by_key_idem)
qed simp_all

section \<open>The hash binds the value\<close>

definition utf8_read :: "int list \<Rightarrow> int \<times> int list" where
  "utf8_read bs =
     (let b = bs ! 0; c = bs ! 1 - 128; d = bs ! 2 - 128; e = bs ! 3 - 128
      in if b < 128 then (b, drop 1 bs)
         else if b < 224 then (64 * (b - 192) + c, drop 2 bs)
         else if b < 240 then (4096 * (b - 224) + 64 * c + d, drop 3 bs)
         else (262144 * (b - 240) + 4096 * c + 64 * d + e, drop 4 bs))"

lemma utf8_read_bytes:
  "c < 128 \<Longrightarrow> utf8_read (c # a) = (c, a)"
  "0 \<le> p \<Longrightarrow> p < 32 \<Longrightarrow> utf8_read ((192 + p) # (128 + r) # a) = (64 * p + r, a)"
  "0 \<le> q \<Longrightarrow> q < 16 \<Longrightarrow> utf8_read ((224 + q) # (128 + s) # (128 + r) # a) = (4096 * q + 64 * s + r, a)"
  "0 \<le> u \<Longrightarrow> utf8_read ((240 + u) # (128 + t) # (128 + s) # (128 + r) # a)
     = (262144 * u + 4096 * t + 64 * s + r, a)"
  by (simp_all add: utf8_read_def Let_def)

lemma utf8_groups:
  fixes c :: int
  shows "64 * (c div 64) + c mod 64 = c" "4096 * (c div 4096) + 64 * (c div 64 mod 64) + c mod 64 = c"
    "262144 * (c div 262144) + 4096 * (c div 4096 mod 64) + 64 * (c div 64 mod 64) + c mod 64 = c"
proof -
  have m: "c = 64 * (c div 64) + c mod 64" by simp
  have d: "c div 64 = 64 * (c div 4096) + c div 64 mod 64" "c div 4096 = 64 * (c div 262144) + c div 4096 mod 64"
    using zdiv_zmult2_eq [of 64 c 64] zdiv_zmult2_eq [of 64 c 4096]
      mult_div_mod_eq [of 64 "c div 64"] mult_div_mod_eq [of 64 "c div 4096"] by simp_all
  have sum3: "x = 64 * p + r \<Longrightarrow> p = 64 * q + s \<Longrightarrow> 4096 * q + 64 * s + r = x" for x p q r s :: int by simp
  have sum4: "x = 64 * p + r \<Longrightarrow> p = 64 * q + s \<Longrightarrow> q = 64 * u + t \<Longrightarrow> 262144 * u + 4096 * t + 64 * s + r = x"
    for x p q r s t u :: int by simp
  show "64 * (c div 64) + c mod 64 = c" using m by (rule sym)
  show "4096 * (c div 4096) + 64 * (c div 64 mod 64) + c mod 64 = c" using m d(1) by (rule sum3)
  show "262144 * (c div 262144) + 4096 * (c div 4096 mod 64) + 64 * (c div 64 mod 64) + c mod 64 = c"
    using m d by (rule sum4)
qed

lemma utf8_read_char: "utf8_read (utf8_char c @ a) = (c, a)"
proof -
  have r: "0 \<le> c div 64" "0 \<le> c div 4096" "0 \<le> c div 262144" if "128 \<le> c" using that by simp_all
  have s: "c div 64 < 32" if "c < 2048" using that by simp
  have t: "c div 4096 < 16" if "c < 65536" using that by simp
  consider "c < 128" | "128 \<le> c" "c < 2048" | "2048 \<le> c" "c < 65536" | "65536 \<le> c" by linarith
  then show ?thesis
  proof cases
    case 1
    then show ?thesis by (simp add: utf8_char_def utf8_read_bytes(1))
  next
    case 2
    then have "utf8_char c = [192 + c div 64, 128 + c mod 64]" by (simp add: utf8_char_def)
    then show ?thesis using utf8_read_bytes(2) [OF r(1) s, of "c mod 64" a] 2 utf8_groups(1) [of c] by simp
  next
    case 3
    then have "utf8_char c = [224 + c div 4096, 128 + c div 64 mod 64, 128 + c mod 64]" by (simp add: utf8_char_def)
    then show ?thesis
      using utf8_read_bytes(3) [OF r(2) t, of "c div 64 mod 64" "c mod 64" a] 3
      by (simp only: utf8_groups(2) append.simps)
  next
    case 4
    then have "utf8_char c = [240 + c div 262144, 128 + c div 4096 mod 64, 128 + c div 64 mod 64, 128 + c mod 64]"
      by (simp add: utf8_char_def)
    then show ?thesis
      using utf8_read_bytes(4) [OF r(3), of "c div 4096 mod 64" "c div 64 mod 64" "c mod 64" a] 4
      by (simp only: utf8_groups(3) append.simps)
  qed
qed

lemma utf8_char_split: "utf8_char c @ a = utf8_char d @ b \<Longrightarrow> c = d \<and> a = b"
  by (metis utf8_read_char prod.inject)

lemma utf8_inj: "concat (map utf8_char s) = concat (map utf8_char t) \<Longrightarrow> s = t"
proof (induction s arbitrary: t)
  case Nil
  then show ?case by (cases t) (auto simp: utf8_char_def split: if_splits)
next
  case (Cons c s)
  show ?case
  proof (cases t)
    case Nil
    with Cons.prems show ?thesis by (auto simp: utf8_char_def split: if_splits)
  next
    case (Cons d u)
    then have "utf8_char c @ concat (map utf8_char s) = utf8_char d @ concat (map utf8_char u)"
      using Cons.prems by simp
    from utf8_char_split [OF this] Cons.IH Cons show ?thesis by simp
  qed
qed

lemma encode_utf8_inj: "encode_utf8 s = Inr a \<Longrightarrow> encode_utf8 t = Inr a \<Longrightarrow> s = t"
  by (auto simp: encode_utf8_def utf8_inj split: if_splits)

text \<open>Two given inputs with the same hash, and the bytes \<open>canonical_hash\<close> hashes.\<close>

definition collides :: "('a \<Rightarrow> 'b) \<Rightarrow> 'a \<Rightarrow> 'a \<Rightarrow> bool" where
  "collides sha a b \<longleftrightarrow> a \<noteq> b \<and> sha a = sha b"

definition canonical_bytes :: "pyval \<Rightarrow> int list" where
  "canonical_bytes v = (case rbind (canonical_json v) encode_utf8 of Inr b \<Rightarrow> b | Inl _ \<Rightarrow> [])"

lemma canonical_hash_binds:
  assumes "wf_val v" "wf_val w" "canonical_hash sha v = Inr h" "canonical_hash sha w = Inr h"
  shows "normal v = normal w \<or> collides sha (canonical_bytes v) (canonical_bytes w)"
proof -
  from assms(3,4) obtain s t a b where s: "canonical_json v = Inr s" "encode_utf8 s = Inr a" "sha a = h"
    and t: "canonical_json w = Inr t" "encode_utf8 t = Inr b" "sha b = h"
    by (auto simp: canonical_hash_def res_simps)
  show ?thesis
  proof (cases "a = b")
    case True
    with s(2) t(2) encode_utf8_inj have "s = t" by blast
    with canonical_json_normal assms(1,2) s(1) t(1) show ?thesis by blast
  next
    case False
    with s t show ?thesis by (simp add: collides_def canonical_bytes_def)
  qed
qed

lemma canonical_hash_normal: "canonical_hash sha v = Inr h \<Longrightarrow> canonical_hash sha (normal v) = Inr h"
  using canonical_normal_text by (auto simp: canonical_hash_def res_simps)

text \<open>The values that have a canonical text: finite numbers, and keys without lone surrogates.\<close>

fun renderable :: "pyval \<Rightarrow> bool"
  and renderable_list :: "pyval list \<Rightarrow> bool"
  and renderable_items :: "pydict \<Rightarrow> bool" where
  "renderable (VInt n) \<longleftrightarrow> (\<exists>q. fl (of_int n) = Fin q)"
| "renderable (VFloat f) \<longleftrightarrow> (\<exists>q. f = Fin q)"
| "renderable (VList xs) \<longleftrightarrow> renderable_list xs"
| "renderable (VDict d) \<longleftrightarrow> renderable_items d"
| "renderable _ \<longleftrightarrow> True"
| "renderable_list [] \<longleftrightarrow> True"
| "renderable_list (x # xs) \<longleftrightarrow> renderable x \<and> renderable_list xs"
| "renderable_items [] \<longleftrightarrow> True"
| "renderable_items (kv # d) \<longleftrightarrow>
     \<not> list_ex is_surrogate (fst kv) \<and> renderable (snd kv) \<and> renderable_items d"

lemma renderable_list_iff: "renderable_list xs \<longleftrightarrow> (\<forall>x \<in> set xs. renderable x)"
  by (induction xs) simp_all

lemma renderable_items_iff:
  "renderable_items d \<longleftrightarrow> (\<forall>kv \<in> set d. \<not> list_ex is_surrogate (fst kv) \<and> renderable (snd kv))"
  by (induction d) auto

lemma es_number_ok: "(case f of Fin q \<Rightarrow> is_double q | _ \<Rightarrow> True) \<Longrightarrow> (\<exists>t. es_number f = Inr t) \<longleftrightarrow> (\<exists>q. f = Fin q)"
  using es_number_total by (cases f) fastforce+

lemma mapM_ok_iff: "(\<exists>ys. mapM f xs = Inr ys) \<longleftrightarrow> (\<forall>x \<in> set xs. \<exists>y. f x = Inr y)"
  by (induction xs) (auto simp: res_simps)

lemma canonical_json_total: "wf_val v \<Longrightarrow> (\<exists>t. canonical_json v = Inr t) \<longleftrightarrow> renderable v"
proof (induction v)
  case (VInt n)
  have "fl (of_int n) = Fin (of_int n)" if "\<bar>n\<bar> \<le> MAX_SAFE_INTEGER"
    using that by (intro fl_int) (simp add: MAX_SAFE_INTEGER_def)
  moreover have "is_double q" if "fl (of_int n) = Fin q" for q using that fl_is_double by blast
  ultimately show ?case using es_number_total
    by (cases "fl (of_int n)") (fastforce simp: float_of_int_def res_simps)+
next
  case (VList xs)
  then show ?case using mapM_ok_iff [of canonical_json xs]
    by (auto simp: canonical_list_map res_simps renderable_list_iff wf_list_iff)
next
  case (VDict d)
  have "(\<exists>t. canonical_json (VDict d) = Inr t) \<longleftrightarrow>
      (\<forall>kv \<in> set d. \<exists>b. encode_utf16 (fst kv) = Inr b) \<and> (\<forall>kv \<in> set d. \<exists>t. item_text kv = Inr t)"
    using mapM_ok_iff [of "\<lambda>kv. encode_utf16 (fst kv)" d] mapM_ok_iff [of item_text "sort_by_key d"]
    unfolding canonical_dict by auto
  moreover have "(\<exists>t. item_text kv = Inr t) \<longleftrightarrow> renderable (snd kv)" if "kv \<in> set d" for kv
  proof -
    have "wf_val (snd kv)" using VDict.prems that by (simp add: wf_items_iff)
    with VDict.IH [OF that, of "snd kv"] show ?thesis by (auto simp: snds_snd item_text_def res_simps)
  qed
  ultimately show ?case by (auto simp: renderable_items_iff encode_utf16_def)
qed (use es_number_ok in simp_all)

section \<open>Properties\<close>

text \<open>
  C29. Canonical JSON is canonical: two JSON values that have a canonical text have the same text
  exactly when they are the same value up to the order of keys and the representation of numbers.
\<close>

theorem canonical_json_iff:
  assumes "wf_val v" "wf_val w" "canonical_json v = Inr s" "canonical_json w = Inr t"
  shows "s = t \<longleftrightarrow> normal v = normal w"
  using assms canonical_json_normal canonical_normal_text by (metis sum.inject(2))

lemma canonical_json_iff_witness:
  "normal (VDict [(str ''b'', VInt 2), (str ''a'', VNone)]) = normal (VDict [(str ''a'', VNone), (str ''b'', VFloat (Fin 2))])"
proof -
  let ?v = "VDict [(str ''b'', VInt 2), (str ''a'', VNone)]"
    and ?w = "VDict [(str ''a'', VNone), (str ''b'', VFloat (Fin 2))]"
    and ?t = "str (CHR 0x7B # ''\"a\":null,\"b\":2'' @ [CHR 0x7D])"
  have "wf_val ?v" "wf_val ?w" by code_simp+
  moreover have "canonical_json ?v = Inr ?t" "canonical_json ?w = Inr ?t" by code_simp+
  ultimately show ?thesis using canonical_json_iff [of ?v ?w ?t ?t] by blast
qed

text \<open>
  C30. The number format loses nothing: every finite double has a text, and \<open>float()\<close> reads that
  text back as the same double.
\<close>

theorem es_number_parses_back:
  assumes "is_double q"
  shows "\<exists>t. es_number (Fin q) = Inr t \<and> float_of_str t = Inr (Fin q)"
  using es_number_total [OF assms] es_number_roundtrip assms by blast

lemma es_number_parses_back_witness: "\<exists>t. es_number (Fin (1 / 4)) = Inr t \<and> float_of_str t = Inr (Fin (1 / 4))"
proof -
  have "is_double (1 / 4)" by code_simp
  then show ?thesis by (rule es_number_parses_back)
qed

end
