(* ===== verification/Models.thy ===== *)
theory Models
  imports Canonical
begin

text \<open>
  \<open>axg/models.py\<close>: decisions and their precedence, decision requests, plugins (policies), decision
  responses, and the claims of Passports and approval tickets. The field names keep the source's with
  a prefix per model. What pydantic validates (ranges, the condition-group validator) is stated as
  \<open>request_ok\<close>, \<open>plugin_ok\<close> and \<open>approver_ok\<close>; pydantic itself is not under the repository's sources.
\<close>

section \<open>Decisions\<close>

datatype decision = ALLOW | SUGGEST | CONFIRM | BLOCK

fun DECISION_PRECEDENCE :: "decision \<Rightarrow> int" where
  "DECISION_PRECEDENCE ALLOW = 0"
| "DECISION_PRECEDENCE SUGGEST = 1"
| "DECISION_PRECEDENCE CONFIRM = 2"
| "DECISION_PRECEDENCE BLOCK = 3"

fun decision_value :: "decision \<Rightarrow> pystr" where
  "decision_value ALLOW = str ''ALLOW''"
| "decision_value SUGGEST = str ''SUGGEST''"
| "decision_value CONFIRM = str ''CONFIRM''"
| "decision_value BLOCK = str ''BLOCK''"

text \<open>The precedence orders the decisions by strictness.\<close>

lemma precedence_inj [simp]: "DECISION_PRECEDENCE d = DECISION_PRECEDENCE e \<longleftrightarrow> d = e"
  by (cases d; cases e) simp_all

instantiation decision :: linorder
begin

definition less_eq_decision :: "decision \<Rightarrow> decision \<Rightarrow> bool" where
  "less_eq_decision d e \<longleftrightarrow> DECISION_PRECEDENCE d \<le> DECISION_PRECEDENCE e"

definition less_decision :: "decision \<Rightarrow> decision \<Rightarrow> bool" where
  "less_decision d e \<longleftrightarrow> DECISION_PRECEDENCE d < DECISION_PRECEDENCE e"

instance
  by standard (auto simp: less_eq_decision_def less_decision_def)

end

lemma precedence_le [simp]: "DECISION_PRECEDENCE d \<le> DECISION_PRECEDENCE e \<longleftrightarrow> d \<le> e"
  by (simp add: less_eq_decision_def)

lemma precedence_less [simp]: "DECISION_PRECEDENCE d < DECISION_PRECEDENCE e \<longleftrightarrow> d < e"
  by (simp add: less_decision_def)

lemma ALLOW_least [simp]: "ALLOW \<le> d"
  by (cases d) (simp_all add: less_eq_decision_def)

lemma BLOCK_greatest [simp]: "d \<le> BLOCK"
  by (cases d) (simp_all add: less_eq_decision_def)

lemma CONFIRM_le_iff: "CONFIRM \<le> d \<longleftrightarrow> d = CONFIRM \<or> d = BLOCK"
  by (cases d) (simp_all add: less_eq_decision_def)

lemma decision_value_inj [simp]: "decision_value d = decision_value e \<longleftrightarrow> d = e"
  by (cases d; cases e) simp_all

lemma less_CONFIRM_iff: "d < CONFIRM \<longleftrightarrow> d = ALLOW \<or> d = SUGGEST"
  by (cases d) (simp_all add: less_decision_def)

section \<open>Requests\<close>

record agent_identity =
  ag_id :: pystr
  ag_type :: pystr
  ag_permissions :: "pystr list"

record llm_signal =
  llm_model :: "pystr option"
  llm_confidence :: pyfloat
  llm_raw_output :: pydict

record decision_request =
  rq_schema_version :: pystr
  rq_execution_id :: pystr
  rq_tenant_id :: pystr
  rq_app_id :: pystr
  rq_plugin_id :: pystr
  rq_user_id :: "pystr option"
  rq_agent :: "agent_identity option"
  rq_source :: pystr
  rq_action_type :: pystr
  rq_payload :: pydict
  rq_context :: pydict
  rq_signed_context :: "pystr list"
  rq_llm :: llm_signal
  rq_intent :: pydict
  rq_shadow_mode :: bool
  rq_metadata :: pydict

text \<open>The range \<open>ge=0.0, le=1.0\<close> of a float field; a NaN satisfies neither bound.\<close>

fun unit_float :: "pyfloat \<Rightarrow> bool" where
  "unit_float (Fin q) \<longleftrightarrow> 0 \<le> q \<and> q \<le> 1 \<and> is_double q"
| "unit_float _ \<longleftrightarrow> False"

definition wf_dict :: "pydict \<Rightarrow> bool" where
  "wf_dict d \<longleftrightarrow> wf_val (VDict d)"

definition request_ok :: "decision_request \<Rightarrow> bool" where
  "request_ok rq \<longleftrightarrow> unit_float (llm_confidence (rq_llm rq)) \<and> length (rq_signed_context rq) \<le> 8
     \<and> wf_dict (rq_payload rq) \<and> wf_dict (rq_context rq) \<and> wf_dict (llm_raw_output (rq_llm rq))
     \<and> wf_dict (rq_intent rq) \<and> wf_dict (rq_metadata rq)"

text \<open>\<open>request.model_dump()\<close>: the fields in the order of their declaration.\<close>

definition opt_str :: "pystr option \<Rightarrow> pyval" where
  "opt_str s = (case s of None \<Rightarrow> VNone | Some t \<Rightarrow> VStr t)"

definition str_list :: "pystr list \<Rightarrow> pyval" where
  "str_list xs = VList (map VStr xs)"

definition agent_dump :: "agent_identity \<Rightarrow> pydict" where
  "agent_dump a = [(str ''id'', VStr (ag_id a)), (str ''type'', VStr (ag_type a)),
     (str ''permissions'', str_list (ag_permissions a))]"

definition llm_dump :: "llm_signal \<Rightarrow> pydict" where
  "llm_dump l = [(str ''model'', opt_str (llm_model l)), (str ''confidence'', VFloat (llm_confidence l)),
     (str ''raw_output'', VDict (llm_raw_output l))]"

definition request_dump :: "decision_request \<Rightarrow> pydict" where
  "request_dump rq =
    [(str ''schema_version'', VStr (rq_schema_version rq)),
     (str ''execution_id'', VStr (rq_execution_id rq)),
     (str ''tenant_id'', VStr (rq_tenant_id rq)),
     (str ''app_id'', VStr (rq_app_id rq)),
     (str ''plugin_id'', VStr (rq_plugin_id rq)),
     (str ''user_id'', opt_str (rq_user_id rq)),
     (str ''agent'', (case rq_agent rq of None \<Rightarrow> VNone | Some a \<Rightarrow> VDict (agent_dump a))),
     (str ''source'', VStr (rq_source rq)),
     (str ''action_type'', VStr (rq_action_type rq)),
     (str ''payload'', VDict (rq_payload rq)),
     (str ''context'', VDict (rq_context rq)),
     (str ''signed_context'', str_list (rq_signed_context rq)),
     (str ''llm'', VDict (llm_dump (rq_llm rq))),
     (str ''intent'', VDict (rq_intent rq)),
     (str ''shadow_mode'', VBool (rq_shadow_mode rq)),
     (str ''metadata'', VDict (rq_metadata rq))]"

section \<open>Policies\<close>

datatype rule_operator =
  Op_eq | Op_neq | Op_gt | Op_gte | Op_lt | Op_lte | Op_in | Op_not_in | Op_exists | Op_contains

record rule_condition =
  cond_field :: pystr
  cond_operator :: rule_operator
  cond_value :: pyval

record condition_group =
  group_all :: "rule_condition list option"
  group_any :: "rule_condition list option"

text \<open>\<open>x or []\<close> on an optional list, and the validator \<open>require_condition\<close>.\<close>

definition or_empty :: "'a list option \<Rightarrow> 'a list" where
  "or_empty x = (case x of None \<Rightarrow> [] | Some xs \<Rightarrow> xs)"

definition require_condition :: "condition_group \<Rightarrow> bool" where
  "require_condition g \<longleftrightarrow> \<not> (or_empty (group_all g) = [] \<and> or_empty (group_any g) = [])"

record policy_rule =
  rule_id :: pystr
  rule_description :: pystr
  rule_condition :: condition_group
  rule_decision :: decision
  rule_reason :: pystr
  rule_confidence_penalty :: pyfloat
  rule_risk_delta :: pyfloat
  rule_actionable_payload :: pydict
  rule_audit_flags :: "pystr list"
  rule_approver_role :: "pystr option"

record thresholds =
  allow_min_confidence :: pyfloat
  suggest_min_confidence :: pyfloat
  high_risk_threshold :: pyfloat

record action_policy =
  required_permissions :: "pystr list"
  base_risk :: pyfloat
  action_approver_role :: "pystr option"
  required_context :: "pystr list"

record approval_policy =
  default_role :: pystr
  ticket_ttl_seconds :: int

record uncertainty_gate =
  gate_actions :: "pystr list"
  uncertain_sources :: "pystr list"
  uncertain_source_suffixes :: "pystr list"
  gate_threshold :: pyfloat
  gate_audit_flag :: pystr
  gate_reason :: pystr

record plugin =
  pl_schema_version :: pystr
  pl_plugin :: pystr
  pl_version :: pystr
  pl_domain :: pystr
  pl_thresholds :: thresholds
  pl_actions :: "(pystr \<times> action_policy) list"
  pl_rules :: "policy_rule list"
  pl_uncertainty_gate :: uncertainty_gate
  pl_approval :: approval_policy

definition version_label :: "plugin \<Rightarrow> pystr" where
  "version_label p = pl_plugin p @ str ''@'' @ pl_version p"

definition rule_ok :: "policy_rule \<Rightarrow> bool" where
  "rule_ok r \<longleftrightarrow> require_condition (rule_condition r) \<and> unit_float (rule_confidence_penalty r)
     \<and> unit_float (rule_risk_delta r) \<and> wf_dict (rule_actionable_payload r)"

definition thresholds_ok :: "thresholds \<Rightarrow> bool" where
  "thresholds_ok t \<longleftrightarrow> unit_float (allow_min_confidence t) \<and> unit_float (suggest_min_confidence t)
     \<and> unit_float (high_risk_threshold t)"

definition plugin_ok :: "plugin \<Rightarrow> bool" where
  "plugin_ok p \<longleftrightarrow> thresholds_ok (pl_thresholds p) \<and> dict_ok (pl_actions p)
     \<and> list_all (\<lambda>kv. unit_float (base_risk (snd kv))) (pl_actions p) \<and> list_all rule_ok (pl_rules p)
     \<and> unit_float (gate_threshold (pl_uncertainty_gate p))
     \<and> 60 \<le> ticket_ttl_seconds (pl_approval p) \<and> ticket_ttl_seconds (pl_approval p) \<le> 604800"

text \<open>The defaults a plugin manifest may leave out.\<close>

definition default_gate :: uncertainty_gate where
  "default_gate = \<lparr>gate_actions = [],
     uncertain_sources = [str ''whatsapp_bot'', str ''telegram_bot'', str ''chat''],
     uncertain_source_suffixes = [str ''_bot''], gate_threshold = fl (7 / 10),
     gate_audit_flag = str ''write_requires_confirmation'',
     gate_reason = str (''Intent could not be confidently identified. This action changes data, ''
       @ ''so confirmation is required before execution.'')\<rparr>"

definition default_approval :: approval_policy where
  "default_approval = \<lparr>default_role = str ''end_user'', ticket_ttl_seconds = 3600\<rparr>"

definition default_thresholds :: thresholds where
  "default_thresholds = \<lparr>allow_min_confidence = fl (85 / 100), suggest_min_confidence = fl (65 / 100),
     high_risk_threshold = fl (7 / 10)\<rparr>"

section \<open>Responses and records\<close>

record decision_scores =
  sc_llm_confidence :: pyfloat
  sc_final_confidence :: pyfloat
  sc_risk_score :: pyfloat
  sc_risk_level :: pystr
  sc_uncertainty_score :: pyfloat

record triggered_rule =
  tr_id :: pystr
  tr_decision :: decision
  tr_reason :: pystr

record approval_challenge =
  ch_ticket :: pystr
  ch_ticket_id :: pystr
  ch_required_role :: pystr
  ch_expires_at :: int

record decision_response =
  rs_execution_id :: pystr
  rs_plugin_version :: pystr
  rs_decision :: decision
  rs_passport :: "pystr option"
  rs_passport_id :: "pystr option"
  rs_scores :: decision_scores
  rs_actionable_payload :: pydict
  rs_reason :: pystr
  rs_audit_flags :: "pystr list"
  rs_rules_triggered :: "triggered_rule list"
  rs_shadow_mode :: bool
  rs_metadata :: pydict
  rs_approval :: "approval_challenge option"
  rs_verified_context :: "pystr list"

text \<open>The enum is lower-cased when a record stores it.\<close>

datatype execution_status = PENDING | RUNNING | COMPLETED | FAILED

record execution_record =
  er_execution_id :: pystr
  er_tenant_id :: pystr
  er_app_id :: pystr
  er_plugin_id :: pystr
  er_source :: pystr
  er_requested_by :: "pystr option"
  er_agent_id :: "pystr option"
  er_input_hash :: "pystr option"
  er_action_type :: pystr
  er_proposal_model :: "pystr option"
  er_proposal_confidence :: pyfloat
  er_intent_fallback_used :: bool
  er_decision :: decision
  er_policy :: pystr
  er_risk_score :: pyfloat
  er_risk_level :: pystr
  er_rules_triggered :: "pystr list"
  er_audit_flags :: "pystr list"
  er_passport_id :: "pystr option"
  er_human_confirmation_required :: bool
  er_shadow_mode :: bool
  er_verified_context :: "pystr list"
  er_execution_status :: execution_status
  er_created_at :: pystr
  er_metadata :: pydict
  er_trace_id :: "pystr option"

section \<open>Tokens and approvals\<close>

record passport_approval =
  pa_ticket_id :: pystr
  pa_approver_id :: pystr
  pa_approver_role :: pystr

record passport_claims =
  pc_sub :: pystr
  pc_aud :: pystr
  pc_azp :: pystr
  pc_iat :: int
  pc_nbf :: int
  pc_exp :: int
  pc_jti :: pystr
  pc_tenant_id :: pystr
  pc_action_type :: pystr
  pc_policy :: pystr
  pc_payload_hash :: pystr
  pc_approval :: "passport_approval option"

record ticket_claims =
  tc_sub :: pystr
  tc_aud :: pystr
  tc_azp :: pystr
  tc_iat :: int
  tc_nbf :: int
  tc_exp :: int
  tc_jti :: pystr
  tc_tenant_id :: pystr
  tc_plugin_id :: pystr
  tc_policy :: pystr
  tc_decision :: pystr
  tc_action_type :: pystr
  tc_payload_hash :: pystr
  tc_required_role :: pystr
  tc_user_id :: "pystr option"
  tc_agent_id :: "pystr option"

record approver_identity =
  ap_id :: pystr
  ap_role :: pystr

text \<open>Both fields have \<open>min_length=1\<close>.\<close>

definition approver_ok :: "approver_identity \<Rightarrow> bool" where
  "approver_ok a \<longleftrightarrow> ap_id a \<noteq> [] \<and> ap_role a \<noteq> []"

datatype approval_outcome = Approve | Deny

record approval_request =
  aq_ticket :: pystr
  aq_actionable_payload :: pydict
  aq_approver :: approver_identity
  aq_outcome :: approval_outcome

record approval_response =
  ar_execution_id :: pystr
  ar_outcome :: pystr
  ar_passport :: "pystr option"
  ar_passport_id :: "pystr option"
  ar_actionable_payload :: pydict

record approval_record =
  al_execution_id :: pystr
  al_tenant_id :: pystr
  al_app_id :: pystr
  al_action_type :: pystr
  al_policy :: pystr
  al_ticket_id :: pystr
  al_payload_hash :: pystr
  al_approver_id :: pystr
  al_approver_role :: pystr
  al_outcome :: pystr
  al_client_id :: pystr
  al_passport_id :: "pystr option"
  al_created_at :: pystr
  al_trace_id :: "pystr option"

record introspection_response =
  in_active :: bool
  in_reason :: "pystr option"
  in_claims :: "pydict option"

text \<open>
  \<open>model_dump(exclude_none=True)\<close> of the two kinds of claims: the JSON object that is signed. The
  constants \<open>iss\<close>, \<open>typ\<close>, \<open>ver\<close> and \<open>decision\<close> are the literals of the models.
\<close>

definition opt_item :: "string \<Rightarrow> pystr option \<Rightarrow> pydict" where
  "opt_item k s = (case s of None \<Rightarrow> [] | Some t \<Rightarrow> [(str k, VStr t)])"

definition passport_dump :: "passport_claims \<Rightarrow> pydict" where
  "passport_dump c =
    [(str ''iss'', VStr (str ''axg-engine'')), (str ''sub'', VStr (pc_sub c)), (str ''aud'', VStr (pc_aud c)),
     (str ''azp'', VStr (pc_azp c)), (str ''iat'', VInt (pc_iat c)), (str ''nbf'', VInt (pc_nbf c)),
     (str ''exp'', VInt (pc_exp c)), (str ''jti'', VStr (pc_jti c)), (str ''ver'', VInt 2),
     (str ''tenant_id'', VStr (pc_tenant_id c)), (str ''decision'', VStr (str ''ALLOW'')),
     (str ''action_type'', VStr (pc_action_type c)), (str ''policy'', VStr (pc_policy c)),
     (str ''payload_hash'', VStr (pc_payload_hash c))]
    @ (case pc_approval c of None \<Rightarrow> []
       | Some a \<Rightarrow> [(str ''approval'', VDict [(str ''ticket_id'', VStr (pa_ticket_id a)),
           (str ''approver_id'', VStr (pa_approver_id a)), (str ''approver_role'', VStr (pa_approver_role a))])])"

definition ticket_dump :: "ticket_claims \<Rightarrow> pydict" where
  "ticket_dump c =
    [(str ''iss'', VStr (str ''axg-engine'')), (str ''typ'', VStr (str ''approval'')),
     (str ''sub'', VStr (tc_sub c)), (str ''aud'', VStr (tc_aud c)), (str ''azp'', VStr (tc_azp c)),
     (str ''iat'', VInt (tc_iat c)), (str ''nbf'', VInt (tc_nbf c)), (str ''exp'', VInt (tc_exp c)),
     (str ''jti'', VStr (tc_jti c)), (str ''tenant_id'', VStr (tc_tenant_id c)),
     (str ''plugin_id'', VStr (tc_plugin_id c)), (str ''policy'', VStr (tc_policy c)),
     (str ''decision'', VStr (tc_decision c)), (str ''action_type'', VStr (tc_action_type c)),
     (str ''payload_hash'', VStr (tc_payload_hash c)), (str ''required_role'', VStr (tc_required_role c))]
    @ opt_item ''user_id'' (tc_user_id c) @ opt_item ''agent_id'' (tc_agent_id c)"

text \<open>The \<open>pattern\<close> of \<open>payload_hash\<close>: \<open>^[0-9a-f]{64}$\<close> (pydantic's regular expressions anchor at the very end).\<close>

definition is_hex_char :: "int \<Rightarrow> bool" where
  "is_hex_char c \<longleftrightarrow> 48 \<le> c \<and> c \<le> 57 \<or> 97 \<le> c \<and> c \<le> 102"

definition is_sha256_hex :: "pystr \<Rightarrow> bool" where
  "is_sha256_hex s \<longleftrightarrow> length s = 64 \<and> list_all is_hex_char s"

lemmas dump_simps = passport_dump_def ticket_dump_def opt_item_def request_dump_def opt_str_def

lemma dict_ok_passport_dump: "dict_ok (passport_dump c)"
  by (simp add: passport_dump_def dict_ok_def split: option.splits)

lemma dict_ok_ticket_dump: "dict_ok (ticket_dump c)"
  by (simp add: ticket_dump_def opt_item_def dict_ok_def split: option.splits)

lemma dict_ok_request_dump: "dict_ok (request_dump rq)"
  by (simp add: request_dump_def dict_ok_def)

end
