(* ===== verification/Json.thy ===== *)
theory Json
  imports Canonical
begin

text \<open>
  Python's \<open>json\<close> module as the source uses it: \<open>json.loads\<close> of a text and \<open>json.dumps\<close> with the
  options \<open>sort_keys\<close>, \<open>ensure_ascii\<close> and \<open>separators\<close>. Texts nest less deeply than the interpreter's
  recursion limit; the fuel of the parser is twice the length of the text, which no parse exhausts (\<open>JsonFuel\<close>).
\<close>

section \<open>\<open>json.loads\<close>\<close>

definition json_ws :: "int \<Rightarrow> bool" where
  "json_ws c \<longleftrightarrow> c = 32 \<or> c = 9 \<or> c = 10 \<or> c = 13"

definition skip_ws :: "pystr \<Rightarrow> pystr" where
  "skip_ws s = dropWhile json_ws s"

definition hex_val :: "int \<Rightarrow> int option" where
  "hex_val c = (if 48 \<le> c \<and> c \<le> 57 then Some (c - 48)
     else if 97 \<le> c \<and> c \<le> 102 then Some (c - 87)
     else if 65 \<le> c \<and> c \<le> 70 then Some (c - 55) else None)"

text \<open>Four hexadecimal digits.\<close>

fun hex4 :: "pystr \<Rightarrow> (int \<times> pystr) option" where
  "hex4 (a # b # c # d # r) =
     (case (hex_val a, hex_val b, hex_val c, hex_val d) of
        (Some w, Some x, Some y, Some z) \<Rightarrow> Some (4096 * w + 256 * x + 16 * y + z, r)
      | _ \<Rightarrow> None)"
| "hex4 _ = None"

definition low_surrogate :: "pystr \<Rightarrow> (int \<times> pystr) option" where
  "low_surrogate s = (case s of
     a # b # r \<Rightarrow> if a = 92 \<and> b = 117
       then (case hex4 r of Some (u, r') \<Rightarrow> if 56320 \<le> u \<and> u \<le> 57343 then Some (u, r') else None | None \<Rightarrow> None)
       else None
   | _ \<Rightarrow> None)"

text \<open>A string from after its opening quote to after its closing quote.\<close>

definition simple_escape :: "int \<Rightarrow> int option" where
  "simple_escape c = (if c = 34 \<or> c = 92 \<or> c = 47 then Some c
     else if c = 98 then Some 8 else if c = 102 then Some 12 else if c = 110 then Some 10
     else if c = 114 then Some 13 else if c = 116 then Some 9 else None)"

fun scan_string :: "nat \<Rightarrow> pystr \<Rightarrow> (pystr \<times> pystr) res" where
  "scan_string 0 s = Inl JSONDecodeError"
| "scan_string (Suc n) [] = Inl JSONDecodeError"
| "scan_string (Suc n) (c # s) =
     (if c = 34 then Inr ([], s)
      else if c \<noteq> 92 then
        (if c < 32 then Inl JSONDecodeError else rmap (\<lambda>(t, r). (c # t, r)) (scan_string n s))
      else (case s of [] \<Rightarrow> Inl JSONDecodeError
        | e # s' \<Rightarrow>
            if e \<noteq> 117 then
              (case simple_escape e of None \<Rightarrow> Inl JSONDecodeError
               | Some d \<Rightarrow> rmap (\<lambda>(t, r). (d # t, r)) (scan_string n s'))
            else (case hex4 s' of None \<Rightarrow> Inl JSONDecodeError
               | Some (u, s2) \<Rightarrow>
                   if 55296 \<le> u \<and> u \<le> 56319
                   then (case low_surrogate s2 of
                           Some (l, s3) \<Rightarrow>
                             rmap (\<lambda>(t, r). ((65536 + 1024 * (u - 55296) + (l - 56320)) # t, r)) (scan_string n s3)
                         | None \<Rightarrow> rmap (\<lambda>(t, r). (u # t, r)) (scan_string n s2))
                   else rmap (\<lambda>(t, r). (u # t, r)) (scan_string n s2))))"

text \<open>
  A number: an integer part without leading zeros, then a fraction and an exponent only where digits
  follow. \<open>int()\<close> refuses more than 4300 digits.
\<close>

definition scan_int :: "pystr \<Rightarrow> (pystr \<times> pystr) option" where
  "scan_int s = (case s of [] \<Rightarrow> None
     | c # r \<Rightarrow> if c = 48 then Some ([48], r)
       else if is_digit c then Some (take_digits s) else None)"

definition scan_fraction :: "pystr \<Rightarrow> pystr \<times> pystr" where
  "scan_fraction s = (case s of c # d # r \<Rightarrow>
       if c = 46 \<and> is_digit d then (case take_digits (d # r) of (ds, r') \<Rightarrow> (46 # ds, r')) else ([], s)
     | _ \<Rightarrow> ([], s))"

definition scan_exponent :: "pystr \<Rightarrow> pystr \<times> pystr" where
  "scan_exponent s = (case s of [] \<Rightarrow> ([], s)
     | c # r \<Rightarrow>
         if c = 101 \<or> c = 69
         then (case (case r of d # r' \<Rightarrow> if d = 43 \<or> d = 45 then ([d], r') else ([], r) | [] \<Rightarrow> ([], r)) of
                 (sign, r2) \<Rightarrow> (case take_digits r2 of (ds, r3) \<Rightarrow>
                    if ds = [] then ([], s) else ([c] @ sign @ ds, r3)))
         else ([], s))"

definition scan_number :: "pystr \<Rightarrow> (pyval \<times> pystr) res" where
  "scan_number s =
     (case (if s \<noteq> [] \<and> hd s = 45 then ([45], tl s) else ([], s)) of (sg, r0) \<Rightarrow>
        (case scan_int r0 of
           None \<Rightarrow> Inl JSONDecodeError
         | Some (ip, r1) \<Rightarrow>
             (case scan_fraction r1 of (fp, r2) \<Rightarrow> (case scan_exponent r2 of (ep, r3) \<Rightarrow>
                if fp = [] \<and> ep = []
                then (if 4300 < length ip then Inl (ValueError (str ''Exceeds the limit for integer string conversion''))
                      else Inr (VInt (if sg = [] then digits_val 0 ip else - digits_val 0 ip), r3))
                else rmap (\<lambda>f. (VFloat f, r3)) (float_of_str (sg @ ip @ fp @ ep))))))"

definition json_constants :: "(pystr \<times> pyval) list" where
  "json_constants = [(str ''null'', VNone), (str ''true'', VBool True), (str ''false'', VBool False),
     (str ''NaN'', VFloat NaN), (str ''Infinity'', VFloat PInf), (str ''-Infinity'', VFloat NInf)]"

fun scan_constant :: "(pystr \<times> pyval) list \<Rightarrow> pystr \<Rightarrow> (pyval \<times> pystr) option" where
  "scan_constant [] s = None"
| "scan_constant ((k, v) # cs) s = (if startswith s k then Some (v, drop (length k) s) else scan_constant cs s)"

fun scan_value :: "nat \<Rightarrow> pystr \<Rightarrow> (pyval \<times> pystr) res"
  and scan_array :: "nat \<Rightarrow> pystr \<Rightarrow> (pyval list \<times> pystr) res"
  and scan_object :: "nat \<Rightarrow> pydict \<Rightarrow> pystr \<Rightarrow> (pydict \<times> pystr) res" where
  "scan_value 0 s = Inl JSONDecodeError"
| "scan_value (Suc n) s =
     (case s of [] \<Rightarrow> Inl JSONDecodeError
      | c # r \<Rightarrow>
          if c = 34 then rmap (\<lambda>(t, r'). (VStr t, r')) (scan_string (Suc (length r)) r)
          else if c = 123 then
            (case skip_ws r of
               [] \<Rightarrow> Inl JSONDecodeError
             | d # r' \<Rightarrow> if d = 125 then Inr (VDict [], r')
                 else rmap (\<lambda>(items, r2). (VDict items, r2)) (scan_object n [] (d # r')))
          else if c = 91 then
            (case skip_ws r of
               [] \<Rightarrow> Inl JSONDecodeError
             | d # r' \<Rightarrow> if d = 93 then Inr (VList [], r')
                 else rmap (\<lambda>(xs, r2). (VList xs, r2)) (scan_array n (d # r')))
          else (case scan_constant json_constants s of
                  Some vr \<Rightarrow> Inr vr
                | None \<Rightarrow> scan_number s))"
| "scan_array 0 s = Inl JSONDecodeError"
| "scan_array (Suc n) s =
     rbind (scan_value n s) (\<lambda>(v, r).
       (case skip_ws r of
          [] \<Rightarrow> Inl JSONDecodeError
        | c # r' \<Rightarrow>
            if c = 93 then Inr ([v], r')
            else if c = 44 then rmap (\<lambda>(vs, r2). (v # vs, r2)) (scan_array n (skip_ws r'))
            else Inl JSONDecodeError))"
| "scan_object 0 d s = Inl JSONDecodeError"
| "scan_object (Suc n) d s =
     (case s of [] \<Rightarrow> Inl JSONDecodeError
      | q # s' \<Rightarrow>
          if q \<noteq> 34 then Inl JSONDecodeError
          else rbind (scan_string (Suc (length s')) s') (\<lambda>(k, r).
            (case skip_ws r of [] \<Rightarrow> Inl JSONDecodeError
             | c # r' \<Rightarrow>
                 if c \<noteq> 58 then Inl JSONDecodeError
                 else rbind (scan_value n (skip_ws r')) (\<lambda>(v, r2).
                   (case skip_ws r2 of [] \<Rightarrow> Inl JSONDecodeError
                    | e # r3 \<Rightarrow>
                        if e = 125 then Inr (AList.update k v d, r3)
                        else if e = 44 then scan_object n (AList.update k v d) (skip_ws r3)
                        else Inl JSONDecodeError)))))"

definition json_loads :: "pystr \<Rightarrow> pyval res" where
  "json_loads s =
     (if startswith s [65279] then Inl JSONDecodeError
      else rbind (scan_value (Suc (2 * length s)) (skip_ws s)) (\<lambda>(v, r).
             if skip_ws r = [] then Inr v else Inl JSONDecodeError))"

section \<open>\<open>json.dumps\<close>\<close>

definition hex_u :: "int \<Rightarrow> pystr" where
  "hex_u u = [92, 117, hex_digit (u div 4096 mod 16), hex_digit (u div 256 mod 16),
     hex_digit (u div 16 mod 16), hex_digit (u mod 16)]"

definition ascii_escape :: "int \<Rightarrow> pystr" where
  "ascii_escape c =
     (if 32 \<le> c \<and> c \<le> 126 \<and> c \<noteq> 34 \<and> c \<noteq> 92 then [c]
      else if c = 34 \<or> c = 92 then [92, c]
      else if c = 8 then [92, 98] else if c = 9 then [92, 116] else if c = 10 then [92, 110]
      else if c = 12 then [92, 102] else if c = 13 then [92, 114]
      else concat (map hex_u (utf16_units c)))"

definition dumps_string :: "bool \<Rightarrow> pystr \<Rightarrow> pystr" where
  "dumps_string ensure_ascii s =
     (if ensure_ascii then [34] @ concat (map ascii_escape s) @ [34] else json_string s)"

fun dumps_float :: "pyfloat \<Rightarrow> pystr" where
  "dumps_float NaN = str ''NaN''"
| "dumps_float PInf = str ''Infinity''"
| "dumps_float NInf = str ''-Infinity''"
| "dumps_float (Fin q) = float_repr (Fin q)"

definition sort_items :: "(pystr \<times> 'a) list \<Rightarrow> (pystr \<times> 'a) list" where
  "sort_items d = sort_key fst d"

record json_style =
  ensure_ascii :: bool
  sort_keys :: bool
  item_separator :: pystr
  key_separator :: pystr

definition default_style :: json_style where
  "default_style = \<lparr>ensure_ascii = True, sort_keys = False, item_separator = str '', '', key_separator = str '': ''\<rparr>"

fun json_dumps :: "json_style \<Rightarrow> pyval \<Rightarrow> pystr"
  and dumps_list :: "json_style \<Rightarrow> pyval list \<Rightarrow> pystr list"
  and dumps_items :: "json_style \<Rightarrow> pydict \<Rightarrow> (pystr \<times> pystr) list" where
  "json_dumps st VNone = str ''null''"
| "json_dumps st (VBool b) = (if b then str ''true'' else str ''false'')"
| "json_dumps st (VInt n) = int_str n"
| "json_dumps st (VFloat f) = dumps_float f"
| "json_dumps st (VStr s) = dumps_string (ensure_ascii st) s"
| "json_dumps st (VList xs) = [91] @ join (item_separator st) (dumps_list st xs) @ [93]"
| "json_dumps st (VDict d) =
     (let items = dumps_items st d; sorted_items = (if sort_keys st then sort_items items else items)
      in [123] @ join (item_separator st) (map snd sorted_items) @ [125])"
| "dumps_list st [] = []"
| "dumps_list st (x # xs) = json_dumps st x # dumps_list st xs"
| "dumps_items st [] = []"
| "dumps_items st (kv # d) =
     (fst kv, dumps_string (ensure_ascii st) (fst kv) @ key_separator st @ json_dumps st (snd kv)) # dumps_items st d"

text \<open>Every failure of the parser is a \<open>ValueError\<close> (in most cases its subclass \<open>JSONDecodeError\<close>).\<close>

definition only_value_errors :: "'a res \<Rightarrow> bool" where
  "only_value_errors r \<longleftrightarrow> (\<forall>e. r = Inl e \<longrightarrow> is_value_error e)"

lemma only_value_errors_simps [simp]:
  "only_value_errors (Inr x)" "only_value_errors (Inl e) \<longleftrightarrow> is_value_error e"
  "only_value_errors (rmap f m) \<longleftrightarrow> only_value_errors m"
  by (auto simp: only_value_errors_def res_simps)

lemma only_value_errors_rbind:
  "only_value_errors m \<Longrightarrow> (\<And>x. m = Inr x \<Longrightarrow> only_value_errors (f x)) \<Longrightarrow> only_value_errors (rbind m f)"
  by (cases m) simp_all

lemma scan_string_errors: "only_value_errors (scan_string n s)"
  by (induction n s rule: scan_string.induct) (simp_all split: list.split option.split)

lemma float_of_str_errors: "only_value_errors (float_of_str s)"
  by (simp add: float_of_str_def split: prod.split option.split)

lemma scan_number_errors: "only_value_errors (scan_number s)"
  by (simp add: scan_number_def float_of_str_errors split: prod.split option.split)

lemma scan_errors:
  "only_value_errors (scan_value n s)" "only_value_errors (scan_array n s)" "only_value_errors (scan_object n d s)"
  by (induction n s and n s and n d s rule: scan_value_scan_array_scan_object.induct)
    (auto simp: scan_string_errors scan_number_errors split: list.split option.split
      intro!: only_value_errors_rbind)

lemma json_loads_errors: "json_loads s = Inl e \<Longrightarrow> is_value_error e"
proof -
  have "only_value_errors (json_loads s)"
    by (auto simp: json_loads_def scan_errors simp del: scan_value.simps intro!: only_value_errors_rbind)
  then show "json_loads s = Inl e \<Longrightarrow> is_value_error e" by (simp add: only_value_errors_def)
qed

end
