(* ===== verification/Auth.thy ===== *)
theory Auth
  imports Models Json
begin

text \<open>
  \<open>axg/auth.py\<close>: who calls AXG. API keys are compared by their SHA-256 with the clients configured in
  \<open>AXG_CLIENTS\<close>; a caller is bound to apps (Passport audiences) and to a ceiling on the permissions it
  may assert for its agents. A frozen set of a configuration may hold any JSON values; only its string
  members are kept, since membership is only ever asked for strings.
\<close>

section \<open>Definitions\<close>

definition WILDCARD :: pystr where
  "WILDCARD = str ''*''"

record caller =
  cl_client_id :: pystr
  cl_authenticated :: bool
  cl_app_ids :: "pystr set"
  cl_permissions :: "pystr set option"

definition may_act_for :: "caller \<Rightarrow> pystr \<Rightarrow> bool" where
  "may_act_for c app_id \<longleftrightarrow> WILDCARD \<in> cl_app_ids c \<or> app_id \<in> cl_app_ids c"

definition effective_permissions :: "caller \<Rightarrow> pystr list \<Rightarrow> pystr list" where
  "effective_permissions c requested =
     (case cl_permissions c of
        None \<Rightarrow> requested
      | Some ps \<Rightarrow> if WILDCARD \<in> ps then requested else filter (\<lambda>p. p \<in> ps) requested)"

definition TRUSTED_LOCAL :: caller where
  "TRUSTED_LOCAL = \<lparr>cl_client_id = str ''local'', cl_authenticated = True, cl_app_ids = {WILDCARD}, cl_permissions = None\<rparr>"

definition ANONYMOUS :: caller where
  "ANONYMOUS = \<lparr>cl_client_id = str ''anonymous'', cl_authenticated = False, cl_app_ids = {WILDCARD}, cl_permissions = Some {}\<rparr>"

datatype auth_mode_kind = Required | Optional_mode

definition auth_mode :: "environ \<Rightarrow> auth_mode_kind res" where
  "auth_mode env =
     (let mode = py_lower (py_strip (env_get env ''AXG_AUTH_MODE'' (str ''required'')))
      in if mode = str ''required'' then Inr Required
         else if mode = str ''optional'' then Inr Optional_mode
         else Inl (ConfigError (str ''AXG_AUTH_MODE must be '' @ quoted (str ''required'') @ str '' or ''
                   @ quoted (str ''optional'') @ str '', got '' @ quoted mode)))"

text \<open>\<open>d.get(key)\<close>, with \<open>None\<close> for a missing key, and its truth value.\<close>

definition dget :: "pydict \<Rightarrow> string \<Rightarrow> pyval" where
  "dget d key = (case map_of d (str key) of None \<Rightarrow> VNone | Some v \<Rightarrow> v)"

fun client_ok :: "pyval \<Rightarrow> bool" where
  "client_ok (VDict d) \<longleftrightarrow> truthy (dget d ''client_id'') \<and> truthy (dget d ''key_sha256'')"
| "client_ok _ \<longleftrightarrow> False"

fun dict_of :: "pyval \<Rightarrow> pydict" where
  "dict_of (VDict d) = d"
| "dict_of _ = []"

definition load_clients :: "environ \<Rightarrow> pydict list res" where
  "load_clients env =
     (let raw = py_strip (env_get env ''AXG_CLIENTS'' [])
      in if raw = [] then Inr []
         else (case json_loads raw of
             Inl e \<Rightarrow> Inl (if e = JSONDecodeError then ConfigError (str ''AXG_CLIENTS is not valid JSON'') else e)
           | Inr (VList clients) \<Rightarrow>
               if list_all client_ok clients then Inr (map dict_of clients)
               else Inl (ConfigError (str ''Each AXG client needs '' @ quoted (str ''client_id'') @ str '' and ''
                      @ quoted (str ''key_sha256'')))
           | Inr _ \<Rightarrow> Inl (ConfigError (str ''AXG_CLIENTS must be a JSON list''))))"

definition hash_api_key :: "(int list \<Rightarrow> pystr) \<Rightarrow> pystr \<Rightarrow> pystr res" where
  "hash_api_key sha api_key = rmap sha (encode_utf8 api_key)"

text \<open>\<open>hmac.compare_digest\<close> of two strings refuses characters outside ASCII.\<close>

definition is_ascii :: "pystr \<Rightarrow> bool" where
  "is_ascii s \<longleftrightarrow> list_all (\<lambda>c. c < 128) s"

definition compare_digest :: "pystr \<Rightarrow> pystr \<Rightarrow> bool res" where
  "compare_digest a b = (if is_ascii a \<and> is_ascii b then Inr (a = b) else Inl TypeError)"

text \<open>\<open>frozenset(v or [])\<close>: the elements must be hashable.\<close>

fun hashable :: "pyval \<Rightarrow> bool" where
  "hashable (VList _) \<longleftrightarrow> False"
| "hashable (VDict _) \<longleftrightarrow> False"
| "hashable _ \<longleftrightarrow> True"

fun string_members :: "pyval list \<Rightarrow> pystr set" where
  "string_members [] = {}"
| "string_members (VStr s # xs) = insert s (string_members xs)"
| "string_members (_ # xs) = string_members xs"

definition frozen_strings :: "pyval \<Rightarrow> pystr set res" where
  "frozen_strings v =
     (if \<not> truthy v then Inr {}
      else (case v of
          VList xs \<Rightarrow> if list_all hashable xs then Inr (string_members xs) else Inl TypeError
        | VStr s \<Rightarrow> Inr ((\<lambda>c. [c]) ` set s)
        | VDict d \<Rightarrow> Inr (fst ` set d)
        | _ \<Rightarrow> Inl TypeError))"

fun find_client :: "pystr \<Rightarrow> pydict option \<Rightarrow> pydict list \<Rightarrow> pydict option res" where
  "find_client presented found [] = Inr found"
| "find_client presented found (client # rest) =
     rbind (compare_digest presented (py_lower (py_str (dget client ''key_sha256''))))
       (\<lambda>same. find_client presented (if same then Some client else found) rest)"

definition client_caller :: "pydict \<Rightarrow> caller res" where
  "client_caller client =
     rbind (frozen_strings (dget client ''app_ids'')) (\<lambda>apps.
       rmap (\<lambda>perms. \<lparr>cl_client_id = py_str (dget client ''client_id''), cl_authenticated = True,
               cl_app_ids = apps, cl_permissions = Some perms\<rparr>)
         (frozen_strings (dget client ''permissions'')))"

definition authenticate :: "(int list \<Rightarrow> pystr) \<Rightarrow> environ \<Rightarrow> pystr \<Rightarrow> caller option res" where
  "authenticate sha env api_key =
     rbind (hash_api_key sha api_key) (\<lambda>presented.
       rbind (load_clients env) (\<lambda>clients.
         rbind (find_client presented None clients) (\<lambda>found.
           (case found of None \<Rightarrow> Inr None | Some client \<Rightarrow> rmap Some (client_caller client)))))"

section \<open>Permissions\<close>

lemma effective_subset: "set (effective_permissions c ps) \<subseteq> set ps"
  by (auto simp: effective_permissions_def split: option.splits if_splits)

lemma effective_mono:
  "set ps \<subseteq> set qs \<Longrightarrow> set (effective_permissions c ps) \<subseteq> set (effective_permissions c qs)"
  by (auto simp: effective_permissions_def split: option.splits if_splits)

lemma effective_capped:
  "cl_permissions c = Some ps \<Longrightarrow> WILDCARD \<notin> ps \<Longrightarrow> set (effective_permissions c qs) = set qs \<inter> ps"
  by (auto simp: effective_permissions_def)

lemma effective_trusted [simp]: "effective_permissions TRUSTED_LOCAL ps = ps"
  by (simp add: effective_permissions_def TRUSTED_LOCAL_def)

lemma effective_anonymous [simp]: "effective_permissions ANONYMOUS ps = []"
  by (simp add: effective_permissions_def ANONYMOUS_def)

lemma anonymous_not_authenticated [simp]: "\<not> cl_authenticated ANONYMOUS"
  by (simp add: ANONYMOUS_def)

section \<open>Authentication\<close>

definition key_matches :: "pystr \<Rightarrow> pydict \<Rightarrow> bool" where
  "key_matches presented client \<longleftrightarrow> presented = py_lower (py_str (dget client ''key_sha256''))"

lemma find_client_last:
  assumes "find_client presented found clients = Inr m"
  shows "m = (case filter (key_matches presented) clients of [] \<Rightarrow> found | cs \<Rightarrow> Some (last cs))"
  using assms
proof (induction clients arbitrary: found)
  case (Cons client rest)
  from Cons.prems have "find_client presented (if key_matches presented client then Some client else found) rest = Inr m"
    by (auto simp: res_simps compare_digest_def key_matches_def split: if_splits)
  from Cons.IH [OF this] show ?case by (auto split: list.splits)
qed simp

lemma find_client_total:
  assumes "is_ascii presented" "list_all (\<lambda>c. is_ascii (py_lower (py_str (dget c ''key_sha256'')))) clients"
  shows "\<exists>m. find_client presented found clients = Inr m"
  using assms by (induction clients arbitrary: found) (auto simp: compare_digest_def)

lemma client_caller_fields:
  "client_caller client = Inr c \<Longrightarrow> cl_authenticated c \<and> cl_client_id c = py_str (dget client ''client_id'')
     \<and> (\<exists>perms. cl_permissions c = Some perms)"
  by (auto simp: client_caller_def res_simps)

lemma authenticate_SomeD:
  assumes "authenticate sha env api_key = Inr (Some c)"
  obtains bytes clients client where "encode_utf8 api_key = Inr bytes" "load_clients env = Inr clients"
    "client \<in> set clients" "key_matches (sha bytes) client" "client_caller client = Inr c"
proof -
  from assms obtain bytes clients found where f: "encode_utf8 api_key = Inr bytes" "load_clients env = Inr clients"
    "find_client (sha bytes) None clients = Inr (Some found)" "client_caller found = Inr c"
    by (auto simp: authenticate_def hash_api_key_def res_simps split: option.splits)
  have "found \<in> set clients \<and> key_matches (sha bytes) found"
  proof (cases "filter (key_matches (sha bytes)) clients")
    case Nil
    then show ?thesis using find_client_last [OF f(3)] by simp
  next
    case (Cons a as)
    then have "found = last (filter (key_matches (sha bytes)) clients)" using find_client_last [OF f(3)] by simp
    with Cons have "found \<in> set (filter (key_matches (sha bytes)) clients)" by (metis last_in_set list.discI)
    then show ?thesis by simp
  qed
  with that f show thesis by blast
qed

lemma load_clients_ok: "load_clients env = Inr clients \<Longrightarrow> c \<in> set clients \<Longrightarrow>
    truthy (dget c ''client_id'') \<and> truthy (dget c ''key_sha256'')"
proof -
  have "client_ok v \<Longrightarrow> truthy (dget (dict_of v) ''client_id'') \<and> truthy (dget (dict_of v) ''key_sha256'')" for v
    by (cases v) simp_all
  then show "load_clients env = Inr clients \<Longrightarrow> c \<in> set clients \<Longrightarrow>
      truthy (dget c ''client_id'') \<and> truthy (dget c ''key_sha256'')"
    by (auto simp: load_clients_def Let_def list_all_iff split: if_splits sum.splits pyval.splits)
qed

lemma authenticate_last:
  assumes "authenticate sha env api_key = Inr (Some c)"
  obtains bytes clients where "encode_utf8 api_key = Inr bytes" "load_clients env = Inr clients"
    "filter (key_matches (sha bytes)) clients \<noteq> []"
    "client_caller (last (filter (key_matches (sha bytes)) clients)) = Inr c"
proof -
  from assms obtain bytes clients found where f: "encode_utf8 api_key = Inr bytes" "load_clients env = Inr clients"
    "find_client (sha bytes) None clients = Inr (Some found)" "client_caller found = Inr c"
    by (auto simp: authenticate_def hash_api_key_def res_simps split: option.splits)
  with find_client_last [OF f(3)] that show thesis by (auto split: list.splits)
qed

section \<open>Properties\<close>

text \<open>
  C26. An authenticated caller is a configured client: the key's hash is the hash of a client of
  \<open>AXG_CLIENTS\<close> (the last one, when several share it), the caller carries that client's id, apps and
  permissions, and it can grant an agent nothing outside those permissions unless they hold the wildcard.
\<close>

theorem caller_is_configured_client:
  assumes "authenticate sha env api_key = Inr (Some c)"
  shows "\<exists>bytes clients client ps. encode_utf8 api_key = Inr bytes \<and> load_clients env = Inr clients
    \<and> client = last (filter (key_matches (sha bytes)) clients) \<and> client \<in> set clients
    \<and> sha bytes = py_lower (py_str (dget client ''key_sha256'')) \<and> truthy (dget client ''client_id'')
    \<and> cl_authenticated c \<and> cl_client_id c = py_str (dget client ''client_id'')
    \<and> frozen_strings (dget client ''app_ids'') = Inr (cl_app_ids c)
    \<and> frozen_strings (dget client ''permissions'') = Inr ps \<and> cl_permissions c = Some ps
    \<and> (WILDCARD \<notin> ps \<longrightarrow> (\<forall>requested. set (effective_permissions c requested) = set requested \<inter> ps))"
proof -
  obtain bytes clients where a: "encode_utf8 api_key = Inr bytes" "load_clients env = Inr clients"
    "filter (key_matches (sha bytes)) clients \<noteq> []"
    "client_caller (last (filter (key_matches (sha bytes)) clients)) = Inr c"
    by (rule authenticate_last [OF assms])
  let ?client = "last (filter (key_matches (sha bytes)) clients)"
  from last_in_set [OF a(3)] have m: "?client \<in> set clients" "key_matches (sha bytes) ?client" by auto
  have id: "truthy (dget ?client ''client_id'')" using load_clients_ok [OF a(2) m(1)] by simp
  from a(4) obtain ps where p: "frozen_strings (dget ?client ''app_ids'') = Inr (cl_app_ids c)"
    "frozen_strings (dget ?client ''permissions'') = Inr ps" "cl_permissions c = Some ps"
    "cl_authenticated c" "cl_client_id c = py_str (dget ?client ''client_id'')"
    by (auto simp: client_caller_def res_simps)
  have "sha bytes = py_lower (py_str (dget ?client ''key_sha256''))" using m(2) by (simp add: key_matches_def)
  with a(1,2) m(1) id p effective_capped [OF p(3)] show ?thesis by blast
qed

definition example_clients :: environ where
  "example_clients = (\<lambda>n. if n = ''AXG_CLIENTS'' then
     Some (str (''[{'' @ [CHR 0x22] @ ''client_id'' @ [CHR 0x22] @ '':'' @ [CHR 0x22] @ ''bot'' @ [CHR 0x22] @ '',''
       @ [CHR 0x22] @ ''key_sha256'' @ [CHR 0x22] @ '':'' @ [CHR 0x22] @ ''AB'' @ [CHR 0x22] @ '',''
       @ [CHR 0x22] @ ''permissions'' @ [CHR 0x22] @ '':['' @ [CHR 0x22] @ ''pay'' @ [CHR 0x22] @ '']}]'')) else None)"

lemma example_authenticate: "authenticate (\<lambda>_. str ''ab'') example_clients (str ''key'')
    = Inr (Some \<lparr>cl_client_id = str ''bot'', cl_authenticated = True, cl_app_ids = {}, cl_permissions = Some {str ''pay''}\<rparr>)"
proof -
  have "load_clients example_clients = Inr [[(str ''client_id'', VStr (str ''bot'')), (str ''key_sha256'', VStr (str ''AB'')),
      (str ''permissions'', VList [VStr (str ''pay'')])]]" by code_simp
  moreover have "py_lower (str ''AB'') = str ''ab''" "is_ascii (str ''ab'')" "encode_utf8 (str ''key'') = Inr (str ''key'')"
    by code_simp+
  ultimately show ?thesis
    by (simp add: authenticate_def hash_api_key_def client_caller_def dget_def compare_digest_def frozen_strings_def)
qed

lemma caller_is_configured_client_witness:
  "set (effective_permissions \<lparr>cl_client_id = str ''bot'', cl_authenticated = True, cl_app_ids = {},
      cl_permissions = Some {str ''pay''}\<rparr> [str ''pay'', str ''refund'']) = {str ''pay''}"
  using caller_is_configured_client [OF example_authenticate] by (auto simp: WILDCARD_def)

end
