(* ===== verification/PyInt.thy ===== *)
theory PyInt
  imports PyValue
begin

text \<open>Python's \<open>int()\<close> of strings and of JSON values.\<close>

text \<open>\<open>int(s)\<close> of a string: white space, a sign, digits with single underscores between them.\<close>

definition int_of_str :: "pystr \<Rightarrow> int res" where
  "int_of_str s =
     (case take_sign (py_strip s) of (neg, r) \<Rightarrow>
        let ds = filter (\<lambda>c. c \<noteq> 95) r
        in if ds = [] \<or> \<not> underscores_ok False r \<or> \<not> list_all is_digit ds
           then Inl (ValueError (str ''invalid literal for int() with base 10''))
           else if 4300 < length ds then Inl (ValueError (str ''Exceeds the limit for integer string conversion''))
           else Inr (if neg then - digits_val 0 ds else digits_val 0 ds))"

text \<open>\<open>int(v)\<close>: floats are cut towards zero.\<close>

fun py_int :: "pyval \<Rightarrow> int res" where
  "py_int (VBool b) = Inr (if b then 1 else 0)"
| "py_int (VInt n) = Inr n"
| "py_int (VFloat (Fin q)) = Inr (if q < 0 then \<lceil>q\<rceil> else \<lfloor>q\<rfloor>)"
| "py_int (VFloat NaN) = Inl (ValueError (str ''cannot convert float NaN to integer''))"
| "py_int (VFloat _) = Inl OverflowError"
| "py_int (VStr s) = int_of_str s"
| "py_int _ = Inl TypeError"

lemma digits_no_space: "list_all is_digit s \<Longrightarrow> py_strip s = s"
proof -
  have "dropWhile is_space s = s" if "list_all is_digit s" for s
    using that by (cases s) (auto simp: is_digit_def is_space_def)
  moreover have "list_all is_digit (rev s) = list_all is_digit s" by (simp add: list_all_iff)
  ultimately show "list_all is_digit s \<Longrightarrow> py_strip s = s" by (simp add: py_strip_def)
qed

lemma digits_no_underscore: "list_all is_digit s \<Longrightarrow> underscores_ok b s \<and> filter (\<lambda>c. c \<noteq> 95) s = s"
  by (induction s arbitrary: b) (auto simp: is_digit_def)

lemma int_of_digits:
  assumes "s \<noteq> []" "list_all is_digit s" "length s \<le> 4300"
  shows "int_of_str s = Inr (digits_val 0 s)"
proof -
  have "take_sign s = (False, s)" using assms(1,2) by (cases s) (auto simp: take_sign_def is_digit_def)
  with assms digits_no_space [OF assms(2)] digits_no_underscore [OF assms(2), of False] show ?thesis
    by (simp add: int_of_str_def Let_def)
qed

text \<open>\<open>int\<close> reads back what \<open>str\<close> wrote.\<close>

lemma int_of_int_str: "length (dec_digits \<bar>n\<bar>) \<le> 4300 \<Longrightarrow> int_of_str (int_str n) = Inr n"
proof -
  assume len: "length (dec_digits \<bar>n\<bar>) \<le> 4300"
  have d: "list_all is_digit (dec_digits \<bar>n\<bar>)" "dec_digits \<bar>n\<bar> \<noteq> []" using dec_digits_digits by simp_all
  show ?thesis
  proof (cases "n < 0")
    case True
    let ?s = "dec_digits (- n)"
    have s: "list_all is_digit ?s" "?s \<noteq> []" "length ?s \<le> 4300" using d len True by simp_all
    have "py_strip (45 # ?s) = 45 # ?s"
    proof -
      have "dropWhile is_space (rev (45 # ?s)) = rev (45 # ?s)"
        using s(1,2) by (cases "rev ?s") (auto simp: is_digit_def is_space_def list_all_iff rev_eq_Cons_iff)
      then show ?thesis by (simp add: py_strip_def is_space_def)
    qed
    with True s digits_no_underscore [OF s(1), of False] show ?thesis
      by (simp add: int_of_str_def int_str_def take_sign_def Let_def)
  next
    case False
    with d len int_of_digits [of "dec_digits n"] show ?thesis by (simp add: int_str_def)
  qed
qed

end
