(* ===== verification/Crypto.thy ===== *)
theory Crypto
  imports Auth PyInt
begin

text \<open>
  \<open>axg/crypto.py\<close>: signing keys and their JWK form, Passports, approval tickets and introspection.
  PyJWT, \<open>cryptography\<close>, SHA-256 and pydantic's validation are the functions of a record
  \<open>crypto_lib\<close>, an argument of every operation that calls them; the clock (whole seconds) and
  \<open>uuid4()\<close> are arguments as well. What the proofs need of PyJWT is the named hypothesis \<open>jwt_laws\<close>.
\<close>

section \<open>The libraries\<close>

record decode_options =
  do_algorithms :: "pystr list"
  do_issuer :: pystr
  do_audience :: "pystr option"
  do_leeway :: int
  do_require :: "pystr list"

text \<open>
  \<open>jwt_encode\<close> takes claims, private key and headers (RS256 throughout); \<open>jwt_decode\<close> takes options,
  the current time, token and key; \<open>jwt_claims\<close> is \<open>jwt.decode\<close> without verification. \<open>rsa_numbers\<close>
  is \<open>load_pem_public_key\<close> followed by \<open>public_numbers()\<close> as \<open>(e, n)\<close>, \<open>None\<close> for other kinds of keys.
\<close>

record crypto_lib =
  jwt_encode :: "pydict \<Rightarrow> pystr \<Rightarrow> pydict \<Rightarrow> pystr res"
  jwt_header :: "pystr \<Rightarrow> pydict res"
  jwt_claims :: "pystr \<Rightarrow> pydict res"
  jwt_decode :: "decode_options \<Rightarrow> int \<Rightarrow> pystr \<Rightarrow> pystr \<Rightarrow> pydict res"
  sha256 :: "int list \<Rightarrow> int list"
  rsa_numbers :: "pystr \<Rightarrow> (int \<times> int) option res"
  derive_public :: "pystr \<Rightarrow> pystr res"
  validate_ticket :: "pydict \<Rightarrow> ticket_claims option"

definition hex_bytes :: "int list \<Rightarrow> pystr" where
  "hex_bytes bs = concat (map (\<lambda>b. [hex_digit (b div 16 mod 16), hex_digit (b mod 16)]) bs)"

definition sha_hex :: "crypto_lib \<Rightarrow> int list \<Rightarrow> pystr" where
  "sha_hex lib bs = hex_bytes (sha256 lib bs)"

section \<open>Base64url and JWKs\<close>

function int_bytes :: "int \<Rightarrow> int list" where
  "int_bytes n = (if n \<le> 0 then [] else int_bytes (n div 256) @ [n mod 256])"
  by pat_completeness auto
termination
  by (relation "measure nat") auto

declare int_bytes.simps [simp del]

definition b64_char :: "int \<Rightarrow> int" where
  "b64_char x = (if x < 26 then 65 + x else if x < 52 then 71 + x else if x < 62 then x - 4
     else if x = 62 then 45 else 95)"

fun b64encode :: "int list \<Rightarrow> pystr" where
  "b64encode [] = []"
| "b64encode [a] = [b64_char (a div 4), b64_char (a mod 4 * 16), 61, 61]"
| "b64encode [a, b] = [b64_char (a div 4), b64_char (a mod 4 * 16 + b div 16), b64_char (b mod 16 * 4), 61]"
| "b64encode (a # b # c # r) =
     [b64_char (a div 4), b64_char (a mod 4 * 16 + b div 16), b64_char (b mod 16 * 4 + c div 64),
      b64_char (c mod 64)] @ b64encode r"

definition rstrip_char :: "int \<Rightarrow> pystr \<Rightarrow> pystr" where
  "rstrip_char c s = rev (dropWhile (\<lambda>x. x = c) (rev s))"

definition base64url :: "int list \<Rightarrow> pystr" where
  "base64url bs = rstrip_char 61 (b64encode bs)"

definition int_to_base64url :: "int \<Rightarrow> pystr" where
  "int_to_base64url val = (if val = 0 then str ''AA'' else base64url (int_bytes val))"

record jwk =
  jwk_kid :: pystr
  jwk_n :: pystr
  jwk_e :: pystr

definition thumbprint_input :: "pystr \<Rightarrow> pystr \<Rightarrow> pystr" where
  "thumbprint_input e n =
     json_dumps \<lparr>ensure_ascii = True, sort_keys = True, item_separator = str '','', key_separator = str '':''\<rparr>
       (VDict [(str ''e'', VStr e), (str ''kty'', VStr (str ''RSA'')), (str ''n'', VStr n)])"

definition rsa_jwk :: "crypto_lib \<Rightarrow> pystr \<Rightarrow> jwk res" where
  "rsa_jwk lib pem =
     rbind (rsa_numbers lib pem) (\<lambda>nums.
       (case nums of
          None \<Rightarrow> Inl (ValueError (str ''Only RSA keys are supported for JWKS''))
        | Some (e, n) \<Rightarrow>
            (let e' = int_to_base64url e; n' = int_to_base64url n
             in Inr \<lparr>jwk_kid = base64url (sha256 lib (thumbprint_input e' n')), jwk_n = n', jwk_e = e'\<rparr>)))"

section \<open>Keys\<close>

fun unescape_newlines :: "pystr \<Rightarrow> pystr" where
  "unescape_newlines [] = []"
| "unescape_newlines [c] = [c]"
| "unescape_newlines (c # d # s) =
     (if c = 92 \<and> d = 110 then 10 # unescape_newlines s else c # unescape_newlines (d # s))"

definition is_production :: "environ \<Rightarrow> bool" where
  "is_production env \<longleftrightarrow> py_lower (py_strip (env_get env ''AXG_ENV'' (str ''development''))) = str ''production''"

record key_manager =
  km_private :: pystr
  km_public :: pystr

text \<open>\<open>if env_priv\<close> holds for a variable that is set and not empty.\<close>

definition env_set :: "environ \<Rightarrow> string \<Rightarrow> pystr option" where
  "env_set env name = (case env name of Some v \<Rightarrow> if v = [] then None else Some v | None \<Rightarrow> None)"

definition load_keys :: "crypto_lib \<Rightarrow> environ \<Rightarrow> key_manager \<Rightarrow> key_manager res" where
  "load_keys lib env ephemeral =
     (case env_set env ''AXG_PRIVATE_KEY'' of
        Some priv \<Rightarrow>
          (let private_key = unescape_newlines priv
           in case env_set env ''AXG_PUBLIC_KEY'' of
                Some pub \<Rightarrow> Inr \<lparr>km_private = private_key, km_public = unescape_newlines pub\<rparr>
              | None \<Rightarrow> rmap (\<lambda>pub. \<lparr>km_private = private_key, km_public = pub\<rparr>) (derive_public lib private_key))
      | None \<Rightarrow>
          if is_production env then Inl (OtherError (str ''KeyConfigError'')) else Inr ephemeral)"

definition kid :: "crypto_lib \<Rightarrow> key_manager \<Rightarrow> pystr res" where
  "kid lib km = rmap jwk_kid (rsa_jwk lib (km_public km))"

fun as_pem :: "pyval \<Rightarrow> pystr res" where
  "as_pem (VStr k) = Inr (unescape_newlines k)"
| "as_pem _ = Inl AttributeError"

definition previous_public_keys :: "environ \<Rightarrow> pystr list res" where
  "previous_public_keys env =
     (let raw = py_strip (env_get env ''AXG_PREVIOUS_PUBLIC_KEYS'' [])
      in if raw = [] then Inr []
         else rbind (json_loads raw) (\<lambda>keys.
                case keys of
                  VList ks \<Rightarrow> mapM as_pem ks
                | _ \<Rightarrow> Inl (ValueError (str ''AXG_PREVIOUS_PUBLIC_KEYS must be a JSON list of PEM strings''))))"

fun find_key :: "crypto_lib \<Rightarrow> pyval \<Rightarrow> pystr list \<Rightarrow> pystr option res" where
  "find_key lib k [] = Inr None"
| "find_key lib k (pem # pems) =
     rbind (rsa_jwk lib pem) (\<lambda>j. if k = VStr (jwk_kid j) then Inr (Some pem) else find_key lib k pems)"

definition verification_key :: "crypto_lib \<Rightarrow> environ \<Rightarrow> key_manager \<Rightarrow> pyval \<Rightarrow> pystr option res" where
  "verification_key lib env km k =
     rbind (previous_public_keys env) (\<lambda>previous. find_key lib k (km_public km # previous))"

definition get_jwks :: "crypto_lib \<Rightarrow> environ \<Rightarrow> key_manager \<Rightarrow> jwk list res" where
  "get_jwks lib env km =
     (case rbind (rsa_jwk lib (km_public km)) (\<lambda>j.
             rbind (previous_public_keys env) (\<lambda>previous. rmap ((#) j) (mapM (rsa_jwk lib) previous))) of
        Inr keys \<Rightarrow> Inr keys
      | Inl e \<Rightarrow> Inl (if is_value_error e then e else ValueError (str ''Could not generate JWKS'')))"

section \<open>Passports\<close>

definition ISSUER :: pystr where
  "ISSUER = str ''axg-engine''"

definition APPROVAL_TICKET_TYP :: pystr where
  "APPROVAL_TICKET_TYP = str ''axg-approval+jwt''"

definition hash_payload :: "crypto_lib \<Rightarrow> pydict \<Rightarrow> pystr res" where
  "hash_payload lib payload = canonical_hash (sha_hex lib) (VDict payload)"

record decision_args =
  da_execution_id :: pystr
  da_app_id :: pystr
  da_tenant_id :: pystr
  da_decision :: pystr
  da_action_type :: pystr
  da_payload :: pydict
  da_client_id :: pystr
  da_policy :: pystr
  da_expires_in_minutes :: int
  da_jti :: "pystr option"
  da_approval :: "passport_approval option"

definition passport_of :: "decision_args \<Rightarrow> pystr \<Rightarrow> int \<Rightarrow> pystr \<Rightarrow> passport_claims" where
  "passport_of a hash now jti =
     \<lparr>pc_sub = da_execution_id a, pc_aud = da_app_id a, pc_azp = da_client_id a, pc_iat = now, pc_nbf = now,
      pc_exp = now + 60 * da_expires_in_minutes a, pc_jti = jti, pc_tenant_id = da_tenant_id a,
      pc_action_type = da_action_type a, pc_policy = da_policy a, pc_payload_hash = hash,
      pc_approval = da_approval a\<rparr>"

definition or_else :: "pystr option \<Rightarrow> pystr \<Rightarrow> pystr" where
  "or_else s dflt = (case s of None \<Rightarrow> dflt | Some t \<Rightarrow> if t = [] then dflt else t)"

definition sign_decision :: "crypto_lib \<Rightarrow> key_manager \<Rightarrow> int \<Rightarrow> pystr \<Rightarrow> decision_args \<Rightarrow> (pystr \<times> pystr) res" where
  "sign_decision lib km now uuid a =
     (let jti = or_else (da_jti a) uuid
      in rbind (hash_payload lib (da_payload a)) (\<lambda>hash.
           if da_decision a \<noteq> str ''ALLOW'' \<or> \<not> is_sha256_hex hash then Inl (ValueError (str ''ValidationError''))
           else (case rbind (kid lib km) (\<lambda>k.
                        jwt_encode lib (passport_dump (passport_of a hash now jti)) (km_private km)
                          [(str ''kid'', VStr k)]) of
                   Inr token \<Rightarrow> Inr (token, jti)
                 | Inl e \<Rightarrow> Inl (ValueError (str ''Could not generate cryptographic decision token'')))))"

section \<open>Approval tickets\<close>

record ticket_args =
  ta_execution_id :: pystr
  ta_app_id :: pystr
  ta_tenant_id :: pystr
  ta_plugin_id :: pystr
  ta_policy :: pystr
  ta_decision :: pystr
  ta_action_type :: pystr
  ta_payload :: pydict
  ta_client_id :: pystr
  ta_required_role :: pystr
  ta_user_id :: "pystr option"
  ta_agent_id :: "pystr option"
  ta_ttl_seconds :: int

definition ticket_of :: "ticket_args \<Rightarrow> pystr \<Rightarrow> int \<Rightarrow> pystr \<Rightarrow> ticket_claims" where
  "ticket_of a hash now jti =
     \<lparr>tc_sub = ta_execution_id a, tc_aud = ta_app_id a, tc_azp = ta_client_id a, tc_iat = now, tc_nbf = now,
      tc_exp = now + ta_ttl_seconds a, tc_jti = jti, tc_tenant_id = ta_tenant_id a,
      tc_plugin_id = ta_plugin_id a, tc_policy = ta_policy a, tc_decision = ta_decision a,
      tc_action_type = ta_action_type a, tc_payload_hash = hash, tc_required_role = ta_required_role a,
      tc_user_id = ta_user_id a, tc_agent_id = ta_agent_id a\<rparr>"

definition sign_approval_ticket ::
    "crypto_lib \<Rightarrow> key_manager \<Rightarrow> int \<Rightarrow> pystr \<Rightarrow> ticket_args \<Rightarrow> approval_challenge res" where
  "sign_approval_ticket lib km now uuid a =
     rbind (hash_payload lib (ta_payload a)) (\<lambda>hash.
       if ta_decision a \<notin> {str ''CONFIRM'', str ''SUGGEST''} \<or> \<not> is_sha256_hex hash
       then Inl (ValueError (str ''ValidationError''))
       else (let claims = ticket_of a hash now uuid
             in rbind (kid lib km) (\<lambda>k.
                  rmap (\<lambda>token. \<lparr>ch_ticket = token, ch_ticket_id = tc_jti claims,
                          ch_required_role = ta_required_role a, ch_expires_at = tc_exp claims\<rparr>)
                    (jwt_encode lib (ticket_dump claims) (km_private km)
                      [(str ''kid'', VStr k), (str ''typ'', VStr APPROVAL_TICKET_TYP)]))))"

definition axg_decode_options :: decode_options where
  "axg_decode_options = \<lparr>do_algorithms = [str ''RS256''], do_issuer = ISSUER, do_audience = None, do_leeway = 0,
     do_require = [str ''exp'', str ''nbf'', str ''jti'']\<rparr>"

definition ticket_claims_of ::
    "crypto_lib \<Rightarrow> environ \<Rightarrow> key_manager \<Rightarrow> int \<Rightarrow> pystr \<Rightarrow> ticket_claims res" where
  "ticket_claims_of lib env km now token =
     rbind (jwt_header lib token) (\<lambda>header.
       if dget header ''typ'' \<noteq> VStr APPROVAL_TICKET_TYP then Inl (TicketError (str ''Not an approval ticket''))
       else rbind (verification_key lib env km (dget header ''kid'')) (\<lambda>key.
         (case key of
            None \<Rightarrow> Inl (TicketError (str ''Unknown signing key''))
          | Some pem \<Rightarrow>
              rbind (jwt_decode lib axg_decode_options now token pem) (\<lambda>claims.
                (case validate_ticket lib claims of
                   None \<Rightarrow> Inl (ValueError (str ''ValidationError''))
                 | Some c \<Rightarrow> Inr c)))))"

fun is_ticket_error :: "pyexc \<Rightarrow> bool" where
  "is_ticket_error (TicketError _) \<longleftrightarrow> True"
| "is_ticket_error _ \<longleftrightarrow> False"

definition verify_approval_ticket ::
    "crypto_lib \<Rightarrow> environ \<Rightarrow> key_manager \<Rightarrow> int \<Rightarrow> pystr \<Rightarrow> ticket_claims res" where
  "verify_approval_ticket lib env km now token =
     (case ticket_claims_of lib env km now token of
        Inr c \<Rightarrow> Inr c
      | Inl e \<Rightarrow> Inl (if is_ticket_error e then e else TicketError (str ''Invalid or expired approval ticket'')))"

section \<open>Introspection\<close>

text \<open>The claims, or the reason why there are none; \<open>Inl\<close> is an exception that escapes.\<close>

datatype introspection = Active pydict | Inactive pystr

definition introspect_claims ::
    "crypto_lib \<Rightarrow> environ \<Rightarrow> key_manager \<Rightarrow> int \<Rightarrow> pystr \<Rightarrow> introspection res" where
  "introspect_claims lib env km now token =
     rbind (jwt_header lib token) (\<lambda>header.
       if dget header ''typ'' = VStr APPROVAL_TICKET_TYP
       then Inr (Inactive (str ''This is an approval ticket, not a Passport''))
       else rbind (verification_key lib env km (dget header ''kid'')) (\<lambda>key.
         (case key of
            None \<Rightarrow> Inr (Inactive (str ''Unknown signing key''))
          | Some pem \<Rightarrow> rmap Active (jwt_decode lib axg_decode_options now token pem))))"

definition introspect_passport ::
    "crypto_lib \<Rightarrow> environ \<Rightarrow> key_manager \<Rightarrow> int \<Rightarrow> pystr \<Rightarrow> pystr option \<Rightarrow> pydict option \<Rightarrow> introspection res" where
  "introspect_passport lib env km now token action_type actionable_payload =
     (case introspect_claims lib env km now token of
        Inl e \<Rightarrow>
          if e = JwtExpired then Inr (Inactive (str ''Passport expired''))
          else if is_jwt_error e then Inr (Inactive (str ''Invalid Passport''))
          else Inl e
      | Inr (Inactive reason) \<Rightarrow> Inr (Inactive reason)
      | Inr (Active claims) \<Rightarrow>
          if dget claims ''decision'' \<noteq> VStr (str ''ALLOW'') then Inr (Inactive (str ''Not an ALLOW Passport''))
          else if action_type \<noteq> None \<and> dget claims ''action_type'' \<noteq> opt_str action_type
          then Inr (Inactive (str ''Passport issued for another action''))
          else (case actionable_payload of
                  None \<Rightarrow> Inr (Active claims)
                | Some payload \<Rightarrow>
                    rmap (\<lambda>hash. if VStr hash \<noteq> dget claims ''payload_hash''
                                 then Inactive (str ''Payload differs from the one the Passport authorizes'')
                                 else Active claims)
                      (hash_payload lib payload)))"

section \<open>Encodings lose nothing\<close>

definition is_byte :: "int \<Rightarrow> bool" where
  "is_byte b \<longleftrightarrow> 0 \<le> b \<and> b < 256"

definition bytes_val :: "int list \<Rightarrow> int" where
  "bytes_val bs = foldl (\<lambda>acc b. acc * 256 + b) 0 bs"

lemma int_bytes_round_trip: "0 \<le> n \<Longrightarrow> bytes_val (int_bytes n) = n \<and> list_all is_byte (int_bytes n)"
proof (induction n rule: int_bytes.induct)
  case (1 n)
  show ?case
  proof (cases "n \<le> 0")
    case True
    with 1 have "n = 0" by simp
    then show ?thesis by (simp add: int_bytes.simps [of 0] bytes_val_def)
  next
    case False
    with 1 have "bytes_val (int_bytes (n div 256)) = n div 256 \<and> list_all is_byte (int_bytes (n div 256))"
      by (simp add: pos_imp_zdiv_nonneg_iff)
    moreover have "is_byte (n mod 256)" by (simp add: is_byte_def)
    ultimately show ?thesis using False by (simp add: int_bytes.simps [of n] bytes_val_def)
  qed
qed

text \<open>The characters of base64url, and their values.\<close>

definition b64_val :: "int \<Rightarrow> int" where
  "b64_val c = (if 65 \<le> c \<and> c \<le> 90 then c - 65 else if 97 \<le> c \<and> c \<le> 122 then c - 71
     else if 48 \<le> c \<and> c \<le> 57 then c + 4 else if c = 45 then 62 else 63)"

definition url_safe :: "int \<Rightarrow> bool" where
  "url_safe c \<longleftrightarrow> 65 \<le> c \<and> c \<le> 90 \<or> 97 \<le> c \<and> c \<le> 122 \<or> 48 \<le> c \<and> c \<le> 57 \<or> c = 45 \<or> c = 95"

lemma b64_val_char: "0 \<le> x \<Longrightarrow> x < 64 \<Longrightarrow> b64_val (b64_char x) = x"
  by (auto simp: b64_val_def b64_char_def)

lemma b64_char_url_safe: "0 \<le> x \<Longrightarrow> x < 64 \<Longrightarrow> url_safe (b64_char x)"
  by (auto simp: url_safe_def b64_char_def)

fun b64decode :: "pystr \<Rightarrow> int list" where
  "b64decode (w # x # y # z # r) =
     [b64_val w * 4 + b64_val x div 16, b64_val x mod 16 * 16 + b64_val y div 4, b64_val y mod 4 * 64 + b64_val z]
       @ b64decode r"
| "b64decode [w, x, y] = [b64_val w * 4 + b64_val x div 16, b64_val x mod 16 * 16 + b64_val y div 4]"
| "b64decode [w, x] = [b64_val w * 4 + b64_val x div 16]"
| "b64decode _ = []"

lemma rstrip_char_append:
  "t \<noteq> [] \<Longrightarrow> last t \<noteq> c \<Longrightarrow> rstrip_char c (s @ t) = s @ t"
  by (cases t rule: rev_cases) (simp_all add: rstrip_char_def)

lemma b64_sextets:
  assumes "is_byte a" "is_byte b" "is_byte c"
  shows "0 \<le> a div 4" "a div 4 < 64" "0 \<le> a mod 4 * 16 + b div 16" "a mod 4 * 16 + b div 16 < 64"
    "0 \<le> b mod 16 * 4 + c div 64" "b mod 16 * 4 + c div 64 < 64" "0 \<le> c mod 64" "c mod 64 < 64"
    "0 \<le> a mod 4 * 16" "a mod 4 * 16 < 64" "0 \<le> b mod 16 * 4" "b mod 16 * 4 < 64"
  using assms pos_mod_bound [of 4 a] pos_mod_bound [of 16 b] by (auto simp: is_byte_def)

lemma b64_no_pad: "0 \<le> x \<Longrightarrow> x < 64 \<Longrightarrow> b64_char x \<noteq> 61"
  by (auto simp: b64_char_def)

lemma rstrip_groups:
  "x \<noteq> 61 \<Longrightarrow> rstrip_char 61 [w, x, 61, 61] = [w, x]"
  "y \<noteq> 61 \<Longrightarrow> rstrip_char 61 [w, x, y, 61] = [w, x, y]"
  "z \<noteq> 61 \<Longrightarrow> rstrip_char 61 (w # x # y # z # t) = w # x # y # z # rstrip_char 61 t"
  by (simp_all add: rstrip_char_def dropWhile_append)

lemma base64url_Nil: "base64url [] = []"
  by (simp add: base64url_def rstrip_char_def)

lemma base64url_one:
  assumes "is_byte a"
  shows "base64url [a] = [b64_char (a div 4), b64_char (a mod 4 * 16)]"
  unfolding base64url_def b64encode.simps
  using assms by (intro rstrip_groups(1) b64_no_pad b64_sextets)

lemma base64url_two:
  assumes "is_byte a" "is_byte b"
  shows "base64url [a, b] = [b64_char (a div 4), b64_char (a mod 4 * 16 + b div 16), b64_char (b mod 16 * 4)]"
  unfolding base64url_def b64encode.simps
  using assms by (intro rstrip_groups(2) b64_no_pad b64_sextets)

lemma base64url_three:
  assumes "is_byte a" "is_byte b" "is_byte c"
  shows "base64url (a # b # c # r) = [b64_char (a div 4), b64_char (a mod 4 * 16 + b div 16),
    b64_char (b mod 16 * 4 + c div 64), b64_char (c mod 64)] @ base64url r"
  unfolding base64url_def b64encode.simps append.simps
  using assms by (intro rstrip_groups(3) b64_no_pad b64_sextets)

lemma sextet_join:
  fixes a b c :: int
  shows "a div 4 * 4 + a mod 4 = a" "b div 16 * 16 + b mod 16 = b"
  by simp_all

lemma sextet_parts:
  fixes a b c :: int
  assumes "0 \<le> b" "b < 256" "0 \<le> c" "c < 256"
  shows "a mod 4 * 16 div 16 = a mod 4" "(a mod 4 * 16 + b div 16) div 16 = a mod 4"
    "(a mod 4 * 16 + b div 16) mod 16 = b div 16" "b mod 16 * 4 div 4 = b mod 16"
    "(b mod 16 * 4 + c div 64) div 4 = b mod 16" "(b mod 16 * 4 + c div 64) mod 4 = c div 64"
proof -
  have b: "0 \<le> b div 16" "b div 16 < 16" and c: "0 \<le> c div 64" "c div 64 < 4" using assms by simp_all
  show "a mod 4 * 16 div 16 = a mod 4" "b mod 16 * 4 div 4 = b mod 16" by simp_all
  show "(a mod 4 * 16 + b div 16) div 16 = a mod 4" "(a mod 4 * 16 + b div 16) mod 16 = b div 16"
    using b by simp_all
  show "(b mod 16 * 4 + c div 64) div 4 = b mod 16" "(b mod 16 * 4 + c div 64) mod 4 = c div 64"
    using c by simp_all
qed

lemma base64url_decode_groups:
  assumes "is_byte a" "is_byte b" "is_byte c"
  shows "b64decode (base64url [a]) = [a]" "b64decode (base64url [a, b]) = [a, b]"
    "b64decode (base64url (a # b # c # r)) = [a, b, c] @ b64decode (base64url r)"
proof -
  note s = b64_sextets [OF assms] and v = b64_val_char
  have r: "0 \<le> b" "b < 256" "0 \<le> c" "c < 256" using assms by (simp_all add: is_byte_def)
  note p = sextet_parts [OF r] sextet_parts(1) [OF r(1,2) r(1,2)] sextet_parts(4) [OF r(1,2) r(1,2)]
    and j = sextet_join div_mult_mod_eq [of c 64]
  show "b64decode (base64url [a]) = [a]"
    by (simp only: base64url_one [OF assms(1)] b64decode.simps v [OF s(1,2)] v [OF s(9,10)] p j)
  show "b64decode (base64url [a, b]) = [a, b]"
    by (simp only: base64url_two [OF assms(1,2)] b64decode.simps v [OF s(1,2)] v [OF s(3,4)] v [OF s(11,12)] p j)
  show "b64decode (base64url (a # b # c # r)) = [a, b, c] @ b64decode (base64url r)"
    by (simp only: base64url_three [OF assms] append.simps b64decode.simps v [OF s(1,2)] v [OF s(3,4)]
        v [OF s(5,6)] v [OF s(7,8)] p j)
qed

lemma base64url_chars_groups:
  assumes "is_byte a" "is_byte b" "is_byte c"
  shows "list_all url_safe (base64url [a])" "list_all url_safe (base64url [a, b])"
    "list_all url_safe (base64url (a # b # c # r)) \<longleftrightarrow> list_all url_safe (base64url r)"
proof -
  note s = b64_sextets [OF assms] and v = b64_char_url_safe
  show "list_all url_safe (base64url [a])"
    by (simp only: base64url_one [OF assms(1)] list.pred_inject simp_thms v [OF s(1,2)] v [OF s(9,10)])
  show "list_all url_safe (base64url [a, b])"
    by (simp only: base64url_two [OF assms(1,2)] list.pred_inject simp_thms v [OF s(1,2)] v [OF s(3,4)] v [OF s(11,12)])
  show "list_all url_safe (base64url (a # b # c # r)) \<longleftrightarrow> list_all url_safe (base64url r)"
    by (simp only: base64url_three [OF assms] append.simps list.pred_inject simp_thms v [OF s(1,2)] v [OF s(3,4)]
        v [OF s(5,6)] v [OF s(7,8)])
qed

lemma base64url_round_trip:
  "list_all is_byte bs \<Longrightarrow> b64decode (base64url bs) = bs \<and> list_all url_safe (base64url bs)"
proof (induction bs rule: b64encode.induct)
  case 1
  then show ?case by (simp add: base64url_Nil)
next
  case (2 a)
  then show ?case using base64url_decode_groups base64url_chars_groups by simp
next
  case (3 a b)
  then have "is_byte a" "is_byte b" by simp_all
  then show ?case using base64url_decode_groups base64url_chars_groups by simp
next
  case (4 a b c r)
  then show ?case using base64url_decode_groups base64url_chars_groups by simp
qed

lemma base64url_inj:
  "list_all is_byte a \<Longrightarrow> list_all is_byte b \<Longrightarrow> base64url a = base64url b \<Longrightarrow> a = b"
  by (metis base64url_round_trip)

lemma int_to_base64url_inj:
  assumes "0 \<le> m" "0 \<le> n" "int_to_base64url m = int_to_base64url n"
  shows "m = n"
proof -
  have dec: "0 < bytes_val (b64decode (int_to_base64url k)) \<and> bytes_val (b64decode (int_to_base64url k)) = k" if "0 < k" for k
    using that int_bytes_round_trip [of k] base64url_round_trip [of "int_bytes k"] by (simp add: int_to_base64url_def)
  moreover have "bytes_val (b64decode (int_to_base64url 0)) = 0"
    by (simp add: int_to_base64url_def str_def b64_val_def bytes_val_def)
  ultimately show ?thesis using assms by (metis less_le)
qed

section \<open>What is relied on\<close>

text \<open>SHA-256 returns 32 bytes; RSA numbers are positive.\<close>

definition sha_laws :: "crypto_lib \<Rightarrow> bool" where
  "sha_laws lib \<longleftrightarrow> (\<forall>bs. length (sha256 lib bs) = 32 \<and> list_all is_byte (sha256 lib bs))"

definition rsa_laws :: "crypto_lib \<Rightarrow> bool" where
  "rsa_laws lib \<longleftrightarrow> (\<forall>pem e n. rsa_numbers lib pem = Inr (Some (e, n)) \<longrightarrow> 0 < e \<and> 0 < n)"

text \<open>
  The registered claims that \<open>jwt.decode\<close> checks: issuer, times (whatever \<open>int()\<close> accepts), audience (one
  or a list) and presence.
\<close>

definition time_claim :: "pydict \<Rightarrow> string \<Rightarrow> (int \<Rightarrow> bool) \<Rightarrow> bool" where
  "time_claim c k P =
     (case map_of c (str k) of None \<Rightarrow> True | Some v \<Rightarrow> (case py_int v of Inr n \<Rightarrow> P n | Inl _ \<Rightarrow> False))"

definition aud_claim :: "pydict \<Rightarrow> pystr \<Rightarrow> bool" where
  "aud_claim c a = (case dget c ''aud'' of VStr s \<Rightarrow> s = a | VList xs \<Rightarrow> VStr a \<in> set xs | _ \<Rightarrow> False)"

definition claims_current :: "decode_options \<Rightarrow> int \<Rightarrow> pydict \<Rightarrow> bool" where
  "claims_current opts now c \<longleftrightarrow> dget c ''iss'' = VStr (do_issuer opts)
     \<and> time_claim c ''exp'' (\<lambda>n. now - do_leeway opts < n) \<and> time_claim c ''nbf'' (\<lambda>n. n \<le> now + do_leeway opts)
     \<and> time_claim c ''iat'' (\<lambda>n. n \<le> now + do_leeway opts)
     \<and> (case do_audience opts of None \<Rightarrow> True | Some a \<Rightarrow> aud_claim c a)
     \<and> list_all (\<lambda>k. map_of c k \<noteq> None \<and> map_of c k \<noteq> Some VNone) (do_require opts)"

text \<open>
  PyJWT's documented behaviour: a token carries the headers it was encoded with, and the default
  \<open>typ\<close>; decoding with the matching public key returns the encoded claims while they are current;
  decoding never returns claims that are not current.
\<close>

definition encode_law :: "crypto_lib \<Rightarrow> bool" where
  "encode_law lib \<longleftrightarrow> (\<forall>c k h t. jwt_encode lib c k h = Inr t \<longrightarrow>
     (\<exists>hd. jwt_header lib t = Inr hd \<and> (\<forall>x v. map_of h x = Some v \<longrightarrow> map_of hd x = Some v)
        \<and> (map_of h (str ''typ'') = None \<longrightarrow> map_of hd (str ''typ'') = Some (VStr (str ''JWT'')))))"

definition round_trip_law :: "crypto_lib \<Rightarrow> bool" where
  "round_trip_law lib \<longleftrightarrow> (\<forall>c k h t pub opts now. jwt_encode lib c k h = Inr t \<and> derive_public lib k = Inr pub
     \<and> str ''RS256'' \<in> set (do_algorithms opts) \<and> claims_current opts now c \<longrightarrow> jwt_decode lib opts now t pub = Inr c)"

lemma decode_signed:
  assumes "round_trip_law lib" "jwt_encode lib c k h = Inr t" "derive_public lib k = Inr pub"
    and "str ''RS256'' \<in> set (do_algorithms opts)" "claims_current opts now c"
  shows "jwt_decode lib opts now t pub = Inr c"
  using assms unfolding round_trip_law_def by blast

definition current_law :: "crypto_lib \<Rightarrow> bool" where
  "current_law lib \<longleftrightarrow> (\<forall>opts now t pem c. jwt_decode lib opts now t pem = Inr c \<longrightarrow> claims_current opts now c)"

section \<open>Keys: lemmas\<close>

lemma hex_bytes_inj:
  assumes "list_all is_byte a" "list_all is_byte b" "hex_bytes a = hex_bytes b"
  shows "a = b"
  using assms
proof (induction a arbitrary: b)
  case Nil
  then show ?case by (cases b) (simp_all add: hex_bytes_def)
next
  case (Cons x a)
  then obtain y b' where b: "b = y # b'" by (cases b) (auto simp: hex_bytes_def)
  have h: "hex_digit (x div 16 mod 16) = hex_digit (y div 16 mod 16)" "hex_digit (x mod 16) = hex_digit (y mod 16)"
    "hex_bytes a = hex_bytes b'"
    using Cons.prems(3) by (simp_all add: b hex_bytes_def)
  have "x div 16 mod 16 = y div 16 mod 16" "x mod 16 = y mod 16"
    by (rule hex_digit_eq [THEN iffD1, OF _ _ _ _ h(1)]; simp)
      (rule hex_digit_eq [THEN iffD1, OF _ _ _ _ h(2)]; simp)
  moreover have "z div 16 mod 16 = z div 16" if "is_byte z" for z
  proof -
    have "0 \<le> z div 16" "z div 16 < 16" using that by (auto simp: is_byte_def)
    then show ?thesis by (rule mod_pos_pos_trivial)
  qed
  then have "x div 16 mod 16 = x div 16" "y div 16 mod 16 = y div 16" using Cons.prems b by simp_all
  ultimately have "x = y" by (metis mult_div_mod_eq)
  with Cons h(3) b show ?case by simp
qed

text \<open>The text whose hash is a key's id.\<close>

definition jwk_thumbprint :: "jwk \<Rightarrow> pystr" where
  "jwk_thumbprint j = thumbprint_input (jwk_e j) (jwk_n j)"

lemma sha_hex_ok: "sha_laws lib \<Longrightarrow> is_sha256_hex (sha_hex lib bs)"
proof -
  have "length (hex_bytes xs) = 2 * length xs" "list_all is_hex_char (hex_bytes xs)" for xs
    by (induction xs) (auto simp: hex_bytes_def hex_digit_def is_hex_char_def)
  then show "sha_laws lib \<Longrightarrow> is_sha256_hex (sha_hex lib bs)"
    by (simp add: is_sha256_hex_def sha_hex_def sha_laws_def)
qed

lemma thumbprint_text:
  assumes "list_all url_safe e" "list_all url_safe n"
  shows "thumbprint_input e n = [123, 34, 101, 34, 58, 34] @ e
    @ [34, 44, 34, 107, 116, 121, 34, 58, 34, 82, 83, 65, 34, 44, 34, 110, 34, 58, 34] @ n @ [34, 125]"
proof -
  have "concat (map ascii_escape s) = s" if "list_all url_safe s" for s
    using that by (induction s) (auto simp: ascii_escape_def url_safe_def)
  with assms show ?thesis
    by (simp add: thumbprint_input_def sort_items_def dumps_string_def str_def ascii_escape_def)
qed

lemma quote_split: "34 \<notin> set a \<Longrightarrow> 34 \<notin> set b \<Longrightarrow> a @ 34 # x = b @ 34 # y \<Longrightarrow> a = b \<and> x = y" for a b :: pystr
  by (induction a arbitrary: b; case_tac b; auto)

lemma thumbprint_inj:
  assumes "list_all url_safe e" "list_all url_safe n" "list_all url_safe e'" "list_all url_safe n'"
    and "thumbprint_input e n = thumbprint_input e' n'"
  shows "e = e' \<and> n = n'"
proof -
  have safe: "34 \<notin> set s" if "list_all url_safe s" for s
    using that by (auto simp: list_all_iff url_safe_def)
  have "e @ 34 # ([44, 34, 107, 116, 121, 34, 58, 34, 82, 83, 65, 34, 44, 34, 110, 34, 58, 34] @ n @ [34, 125])
      = e' @ 34 # ([44, 34, 107, 116, 121, 34, 58, 34, 82, 83, 65, 34, 44, 34, 110, 34, 58, 34] @ n' @ [34, 125])"
    using assms(5) by (simp add: thumbprint_text assms(1-4))
  from quote_split [OF safe safe this] assms have "e = e'" "n @ 34 # [125] = n' @ 34 # [125]" by simp_all
  with quote_split [OF safe safe, of n n'] assms show ?thesis by blast
qed

lemma rsa_jwk_kid_inj:
  assumes laws: "sha_laws lib" "rsa_laws lib"
    and jwks: "rsa_jwk lib p = Inr i" "rsa_jwk lib q = Inr j" "jwk_kid i = jwk_kid j"
  shows "rsa_numbers lib p = rsa_numbers lib q \<or> collides (sha256 lib) (jwk_thumbprint i) (jwk_thumbprint j)"
proof -
  from jwks obtain e n e' n' where nums: "rsa_numbers lib p = Inr (Some (e, n))" "rsa_numbers lib q = Inr (Some (e', n'))"
    and ij: "i = \<lparr>jwk_kid = jwk_kid i, jwk_n = int_to_base64url n, jwk_e = int_to_base64url e\<rparr>"
      "j = \<lparr>jwk_kid = jwk_kid j, jwk_n = int_to_base64url n', jwk_e = int_to_base64url e'\<rparr>"
    and kids: "base64url (sha256 lib (thumbprint_input (int_to_base64url e) (int_to_base64url n)))
      = base64url (sha256 lib (thumbprint_input (int_to_base64url e') (int_to_base64url n')))"
    by (auto simp: rsa_jwk_def Let_def res_simps split: option.splits)
  have pos: "0 < e" "0 < n" "0 < e'" "0 < n'" using laws(2) nums by (auto simp: rsa_laws_def)
  have url: "list_all url_safe (int_to_base64url k)" if "0 < k" for k
    using that int_bytes_round_trip [of k] base64url_round_trip [of "int_bytes k"] by (simp add: int_to_base64url_def)
  have same: "sha256 lib (thumbprint_input (int_to_base64url e) (int_to_base64url n))
      = sha256 lib (thumbprint_input (int_to_base64url e') (int_to_base64url n'))"
    using laws(1) kids base64url_inj by (simp add: sha_laws_def)
  show ?thesis
  proof (cases "thumbprint_input (int_to_base64url e) (int_to_base64url n)
      = thumbprint_input (int_to_base64url e') (int_to_base64url n')")
    case True
    with thumbprint_inj url pos have "int_to_base64url e = int_to_base64url e'" "int_to_base64url n = int_to_base64url n'"
      by blast+
    with int_to_base64url_inj pos have "e = e'" "n = n'" by simp_all
    with nums show ?thesis by simp
  next
    case False
    moreover have "jwk_thumbprint i = thumbprint_input (int_to_base64url e) (int_to_base64url n)"
      "jwk_thumbprint j = thumbprint_input (int_to_base64url e') (int_to_base64url n')"
      by (subst ij(1), simp add: jwk_thumbprint_def) (subst ij(2), simp add: jwk_thumbprint_def)
    ultimately show ?thesis using same by (simp add: collides_def)
  qed
qed

lemma find_key_SomeD:
  "find_key lib k pems = Inr (Some pem) \<Longrightarrow> pem \<in> set pems \<and> (\<exists>j. rsa_jwk lib pem = Inr j \<and> k = VStr (jwk_kid j))"
  by (induction pems) (auto simp: res_simps split: if_splits)

lemma find_key_known:
  assumes "list_all2 (\<lambda>pem j. rsa_jwk lib pem = Inr j) pems js" "j \<in> set js"
  shows "\<exists>pem. find_key lib (VStr (jwk_kid j)) pems = Inr (Some pem)"
  using assms by (induction rule: list_all2_induct) auto

lemma verification_key_current:
  assumes "kid lib km = Inr k" "previous_public_keys env = Inr ps"
  shows "verification_key lib env km (VStr k) = Inr (Some (km_public km))"
  using assms by (auto simp: verification_key_def kid_def res_simps)

section \<open>A library instance\<close>

text \<open>
  A concrete library for the witnesses: tokens are the keys of a finite table of what was signed, and
  the ticket claims it validates are those of a finite list.
\<close>

type_synonym token_table = "(pystr \<times> pystr \<times> pydict \<times> pydict) list"

definition table_encode :: "token_table \<Rightarrow> pydict \<Rightarrow> pystr \<Rightarrow> pydict \<Rightarrow> pystr res" where
  "table_encode table c k h = (case find (\<lambda>e. snd e = (k, c, h)) table of
     None \<Rightarrow> Inl (JwtError (str ''not in table'')) | Some e \<Rightarrow> Inr (fst e))"

definition table_header :: "token_table \<Rightarrow> pystr \<Rightarrow> pydict res" where
  "table_header table t = (case map_of table t of
     None \<Rightarrow> Inl (JwtError (str ''DecodeError''))
   | Some (k, c, h) \<Rightarrow> Inr (h @ [(str ''typ'', VStr (str ''JWT'')), (str ''alg'', VStr (str ''RS256''))]))"

definition table_decode :: "token_table \<Rightarrow> decode_options \<Rightarrow> int \<Rightarrow> pystr \<Rightarrow> pystr \<Rightarrow> pydict res" where
  "table_decode table opts now t pem = (case map_of table t of
     None \<Rightarrow> Inl (JwtError (str ''DecodeError''))
   | Some (k, c, h) \<Rightarrow>
       if pem \<noteq> 112 # k then Inl (JwtError (str ''InvalidSignatureError''))
       else if claims_current opts now c then Inr c
       else if \<not> time_claim c ''exp'' (\<lambda>n. now - do_leeway opts < n) then Inl JwtExpired
       else Inl (JwtError (str ''InvalidTokenError'')))"

definition example_lib :: "token_table \<Rightarrow> ticket_claims list \<Rightarrow> crypto_lib" where
  "example_lib table tickets =
     \<lparr>jwt_encode = table_encode table, jwt_header = table_header table,
      jwt_claims = (\<lambda>t. case map_of table t of None \<Rightarrow> Inl (JwtError (str ''DecodeError'')) | Some (k, c, h) \<Rightarrow> Inr c),
      jwt_decode = table_decode table, sha256 = (\<lambda>bs. replicate 32 (int (length bs) mod 256)),
      rsa_numbers = (\<lambda>pem. Inr (Some (65537, 1 + int (length pem)))), derive_public = (\<lambda>k. Inr (112 # k)),
      validate_ticket = (\<lambda>d. find (\<lambda>c. ticket_dump c = d) tickets)\<rparr>"

lemma example_lib_sel [simp]:
  "jwt_encode (example_lib table tickets) = table_encode table"
  "jwt_header (example_lib table tickets) = table_header table"
  "jwt_decode (example_lib table tickets) = table_decode table"
  "sha256 (example_lib table tickets) = (\<lambda>bs. replicate 32 (int (length bs) mod 256))"
  "rsa_numbers (example_lib table tickets) = (\<lambda>pem. Inr (Some (65537, 1 + int (length pem))))"
  "derive_public (example_lib table tickets) = (\<lambda>k. Inr (112 # k))"
  "validate_ticket (example_lib table tickets) = (\<lambda>d. find (\<lambda>c. ticket_dump c = d) tickets)"
  by (simp_all add: example_lib_def)

lemma table_encode_lookup:
  assumes "table_encode table c k h = Inr t" "distinct (map fst table)"
  shows "map_of table t = Some (k, c, h)"
proof -
  from assms(1) obtain e where "find (\<lambda>e. snd e = (k, c, h)) table = Some e" "t = fst e"
    by (auto simp: table_encode_def split: option.splits)
  then have "e \<in> set table" "snd e = (k, c, h)" by (auto simp: find_Some_iff)
  with \<open>t = fst e\<close> assms(2) show ?thesis by (metis map_of_is_SomeI prod.collapse)
qed

lemma example_lib_laws:
  assumes "distinct (map fst table)"
  shows "sha_laws (example_lib table tickets)" "rsa_laws (example_lib table tickets)"
    "encode_law (example_lib table tickets)" "round_trip_law (example_lib table tickets)"
    "current_law (example_lib table tickets)"
proof -
  show "sha_laws (example_lib table tickets)" by (simp add: sha_laws_def is_byte_def list_all_iff)
  show "rsa_laws (example_lib table tickets)" by (simp add: rsa_laws_def)
  show "encode_law (example_lib table tickets)"
    using table_encode_lookup [OF _ assms] by (auto simp: encode_law_def table_header_def map_add_def)
  show "round_trip_law (example_lib table tickets)"
    using table_encode_lookup [OF _ assms] by (auto simp: round_trip_law_def table_decode_def)
  show "current_law (example_lib table tickets)"
    by (auto simp: current_law_def table_decode_def split: option.splits if_splits)
qed

section \<open>Passports: lemmas\<close>

lemma sign_decisionD:
  assumes "sign_decision lib km now uuid a = Inr (token, jti)"
  obtains hash k where "hash_payload lib (da_payload a) = Inr hash" "kid lib km = Inr k" "is_sha256_hex hash"
    "da_decision a = str ''ALLOW''" "jti = or_else (da_jti a) uuid"
    "jwt_encode lib (passport_dump (passport_of a hash now jti)) (km_private km) [(str ''kid'', VStr k)] = Inr token"
  using assms by (auto simp: sign_decision_def Let_def res_simps split: if_splits sum.splits)

lemma sign_decision_errors: "sign_decision lib km now uuid a = Inl e \<Longrightarrow>
    is_value_error e \<or> hash_payload lib (da_payload a) = Inl e"
  by (auto simp: sign_decision_def Let_def res_simps split: if_splits sum.splits)

lemma sign_approval_ticketD:
  assumes "sign_approval_ticket lib km now uuid a = Inr ch"
  obtains hash k where "hash_payload lib (ta_payload a) = Inr hash" "kid lib km = Inr k" "is_sha256_hex hash"
    "ta_decision a \<in> {str ''CONFIRM'', str ''SUGGEST''}" "ch_ticket_id ch = uuid"
    "ch_required_role ch = ta_required_role a" "ch_expires_at ch = now + ta_ttl_seconds a"
    "jwt_encode lib (ticket_dump (ticket_of a hash now uuid)) (km_private km)
       [(str ''kid'', VStr k), (str ''typ'', VStr APPROVAL_TICKET_TYP)] = Inr (ch_ticket ch)"
  using assms by (auto simp: sign_approval_ticket_def Let_def res_simps ticket_of_def split: if_splits)

text \<open>The claims of a passport, read back from the object that is signed.\<close>

lemma dget_Cons: "dget ((k, v) # d) x = (if k = str x then v else dget d x)"
  by (simp add: dget_def)

lemma passport_dump_get:
  "dget (passport_dump c) ''iss'' = VStr ISSUER" "dget (passport_dump c) ''sub'' = VStr (pc_sub c)"
  "dget (passport_dump c) ''aud'' = VStr (pc_aud c)" "dget (passport_dump c) ''azp'' = VStr (pc_azp c)"
  "dget (passport_dump c) ''iat'' = VInt (pc_iat c)" "dget (passport_dump c) ''nbf'' = VInt (pc_nbf c)"
  "dget (passport_dump c) ''exp'' = VInt (pc_exp c)" "dget (passport_dump c) ''jti'' = VStr (pc_jti c)"
  "dget (passport_dump c) ''tenant_id'' = VStr (pc_tenant_id c)" "dget (passport_dump c) ''ver'' = VInt 2"
  "dget (passport_dump c) ''decision'' = VStr (str ''ALLOW'')"
  "dget (passport_dump c) ''action_type'' = VStr (pc_action_type c)"
  "dget (passport_dump c) ''policy'' = VStr (pc_policy c)"
  "dget (passport_dump c) ''payload_hash'' = VStr (pc_payload_hash c)"
  by (simp_all add: passport_dump_def dget_Cons ISSUER_def)

lemma map_of_passport_dump:
  "map_of (passport_dump c) (str ''exp'') = Some (VInt (pc_exp c))"
  "map_of (passport_dump c) (str ''iat'') = Some (VInt (pc_iat c))"
  "map_of (passport_dump c) (str ''nbf'') = Some (VInt (pc_nbf c))"
  "map_of (passport_dump c) (str ''jti'') = Some (VStr (pc_jti c))"
  "map_of (passport_dump c) (str ''payload_hash'') = Some (VStr (pc_payload_hash c))"
  by (simp_all add: passport_dump_def)

lemma passport_current:
  assumes "pc_iat c \<le> now" "pc_nbf c \<le> now" "now < pc_exp c"
    and "do_issuer opts = ISSUER" "do_leeway opts = 0" "do_audience opts = None \<or> do_audience opts = Some (pc_aud c)"
    and "set (do_require opts) \<subseteq> {str ''exp'', str ''nbf'', str ''jti''}"
  shows "claims_current opts now (passport_dump c)"
  using assms by (auto simp: claims_current_def time_claim_def aud_claim_def passport_dump_get map_of_passport_dump list_all_iff
      split: option.splits)

lemma encode_header:
  assumes "encode_law lib" "jwt_encode lib c k h = Inr t"
  obtains hd where "jwt_header lib t = Inr hd" "\<And>x v. map_of h (str x) = Some v \<Longrightarrow> dget hd x = v"
    "map_of h (str ''typ'') = None \<Longrightarrow> dget hd ''typ'' = VStr (str ''JWT'')"
proof -
  from assms obtain hd where "jwt_header lib t = Inr hd" "\<forall>x v. map_of h x = Some v \<longrightarrow> map_of hd x = Some v"
    "map_of h (str ''typ'') = None \<longrightarrow> map_of hd (str ''typ'') = Some (VStr (str ''JWT''))"
    unfolding encode_law_def by blast
  then show thesis by (intro that) (auto simp: dget_def)
qed

lemma passport_header:
  assumes "encode_law lib" "jwt_encode lib c key [(str ''kid'', VStr k)] = Inr t"
  shows "\<exists>hd. jwt_header lib t = Inr hd \<and> dget hd ''kid'' = VStr k \<and> dget hd ''typ'' = VStr (str ''JWT'')"
proof (rule encode_header [OF assms])
  fix hd
  assume "jwt_header lib t = Inr hd" and k: "\<And>x v. map_of [(str ''kid'', VStr k)] (str x) = Some v \<Longrightarrow> dget hd x = v"
    and "map_of [(str ''kid'', VStr k)] (str ''typ'') = None \<Longrightarrow> dget hd ''typ'' = VStr (str ''JWT'')"
  moreover have "dget hd ''kid'' = VStr k" by (rule k) simp
  ultimately show ?thesis by simp
qed

lemma ticket_header:
  assumes "encode_law lib" "jwt_encode lib c key [(str ''kid'', VStr k), (str ''typ'', VStr APPROVAL_TICKET_TYP)] = Inr t"
  shows "\<exists>hd. jwt_header lib t = Inr hd \<and> dget hd ''kid'' = VStr k \<and> dget hd ''typ'' = VStr APPROVAL_TICKET_TYP"
proof (rule encode_header [OF assms])
  fix hd
  let ?h = "[(str ''kid'', VStr k), (str ''typ'', VStr APPROVAL_TICKET_TYP)]"
  assume "jwt_header lib t = Inr hd" and k: "\<And>x v. map_of ?h (str x) = Some v \<Longrightarrow> dget hd x = v"
  moreover have "dget hd ''kid'' = VStr k" by (rule k) simp
  moreover have "dget hd ''typ'' = VStr APPROVAL_TICKET_TYP" by (rule k) simp
  ultimately show ?thesis by blast
qed

lemma introspect_ActiveD:
  assumes "introspect_passport lib env km now token act payload = Inr (Active claims)"
  obtains hd pem where "jwt_header lib token = Inr hd" "dget hd ''typ'' \<noteq> VStr APPROVAL_TICKET_TYP"
    "verification_key lib env km (dget hd ''kid'') = Inr (Some pem)"
    "jwt_decode lib axg_decode_options now token pem = Inr claims"
    "dget claims ''decision'' = VStr (str ''ALLOW'')" "act \<noteq> None \<Longrightarrow> dget claims ''action_type'' = opt_str act"
    "\<And>p. payload = Some p \<Longrightarrow> \<exists>h. hash_payload lib p = Inr h \<and> dget claims ''payload_hash'' = VStr h"
proof -
  from assms have c: "introspect_claims lib env km now token = Inr (Active claims)"
    and d: "dget claims ''decision'' = VStr (str ''ALLOW'')" "act \<noteq> None \<longrightarrow> dget claims ''action_type'' = opt_str act"
      "\<And>p. payload = Some p \<Longrightarrow> \<exists>h. hash_payload lib p = Inr h \<and> dget claims ''payload_hash'' = VStr h"
    by (auto simp: introspect_passport_def res_simps
        split: sum.splits introspection.splits if_splits option.splits)
  from c obtain hd pem where "jwt_header lib token = Inr hd" "dget hd ''typ'' \<noteq> VStr APPROVAL_TICKET_TYP"
    "verification_key lib env km (dget hd ''kid'') = Inr (Some pem)"
    "jwt_decode lib axg_decode_options now token pem = Inr claims"
    by (auto simp: introspect_claims_def res_simps split: if_splits option.splits)
  with d that show thesis by blast
qed

lemma sign_introspect:
  assumes laws: "encode_law lib" "round_trip_law lib"
    and keys: "derive_public lib (km_private km) = Inr (km_public km)" "previous_public_keys env = Inr ps"
    and sign: "sign_decision lib km issued uuid a = Inr (token, jti)"
    and time: "issued \<le> now" "now < issued + 60 * da_expires_in_minutes a"
  obtains hash where "hash_payload lib (da_payload a) = Inr hash"
    "introspect_passport lib env km now token (Some (da_action_type a)) (Some (da_payload a))
       = Inr (Active (passport_dump (passport_of a hash issued jti)))"
proof -
  from sign obtain hash k where s: "hash_payload lib (da_payload a) = Inr hash" "kid lib km = Inr k"
    "jwt_encode lib (passport_dump (passport_of a hash issued jti)) (km_private km) [(str ''kid'', VStr k)] = Inr token"
    by (rule sign_decisionD)
  let ?c = "passport_dump (passport_of a hash issued jti)"
  from passport_header [OF laws(1) s(3)] obtain hd where
    hd: "jwt_header lib token = Inr hd" "dget hd ''kid'' = VStr k" "dget hd ''typ'' = VStr (str ''JWT'')" by blast
  have cur: "claims_current axg_decode_options now ?c"
    using time by (intro passport_current) (simp_all add: passport_of_def axg_decode_options_def)
  have dec: "jwt_decode lib axg_decode_options now token (km_public km) = Inr ?c"
    using laws(2) s(3) keys(1) _ cur by (rule decode_signed) (simp add: axg_decode_options_def)
  have "introspect_claims lib env km now token = Inr (Active ?c)"
    using hd dec verification_key_current [OF s(2) keys(2)]
    by (simp add: introspect_claims_def APPROVAL_TICKET_TYP_def)
  then have "introspect_passport lib env km now token (Some (da_action_type a)) (Some (da_payload a)) = Inr (Active ?c)"
    using s(1) by (simp add: introspect_passport_def passport_dump_get opt_str_def passport_of_def)
  with s(1) that show thesis by blast
qed

section \<open>Properties\<close>

text \<open>
  A Passport that was just signed is honoured: for the whole of its validity, introspection for
  the same action and payload returns its claims, bound to the hash of that payload.
\<close>

theorem signed_passport_is_active:
  assumes "encode_law lib" "round_trip_law lib"
    and "derive_public lib (km_private km) = Inr (km_public km)" "previous_public_keys env = Inr ps"
    and "sign_decision lib km issued uuid a = Inr (token, jti)"
    and "issued \<le> now" "now < issued + 60 * da_expires_in_minutes a"
  shows "\<exists>hash. hash_payload lib (da_payload a) = Inr hash \<and>
    introspect_passport lib env km now token (Some (da_action_type a)) (Some (da_payload a))
      = Inr (Active (passport_dump (passport_of a hash issued jti)))"
  using sign_introspect [OF assms] by blast

definition example_keys :: key_manager where
  "example_keys = \<lparr>km_private = str ''k'', km_public = str ''pk''\<rparr>"

definition example_args :: decision_args where
  "example_args = \<lparr>da_execution_id = str ''e1'', da_app_id = str ''app'', da_tenant_id = str ''t1'',
     da_decision = str ''ALLOW'', da_action_type = str ''pay'', da_payload = [(str ''amount'', VInt 5)],
     da_client_id = str ''orchestrator'', da_policy = str ''demo@1'', da_expires_in_minutes = 5,
     da_jti = None, da_approval = None\<rparr>"

definition example_hash :: pystr where
  "example_hash = hex_bytes (replicate 32 12)"

definition example_kid :: pystr where
  "example_kid = base64url (replicate 32 33)"

definition example_token :: "decision_args \<Rightarrow> int \<Rightarrow> pystr \<Rightarrow> pystr \<Rightarrow> pystr \<times> pystr \<times> pydict \<times> pydict" where
  "example_token a now jti token =
     (token, str ''k'', passport_dump (passport_of a example_hash now jti), [(str ''kid'', VStr example_kid)])"

lemma example_sign:
  "sign_decision (example_lib [example_token example_args 1000 (str ''u1'') (str ''tok'')] []) example_keys 1000
     (str ''u1'') example_args = Inr (str ''tok'', str ''u1'')"
  by code_simp

lemma signed_passport_is_active_witness:
  "\<exists>hash. introspect_passport (example_lib [example_token example_args 1000 (str ''u1'') (str ''tok'')] [])
     (\<lambda>_. None) example_keys 1299 (str ''tok'') (Some (str ''pay'')) (Some [(str ''amount'', VInt 5)])
     = Inr (Active (passport_dump (passport_of example_args hash 1000 (str ''u1''))))"
proof -
  let ?lib = "example_lib [example_token example_args 1000 (str ''u1'') (str ''tok'')] []"
  have "\<exists>hash. hash_payload ?lib (da_payload example_args) = Inr hash \<and>
      introspect_passport ?lib (\<lambda>_. None) example_keys 1299 (str ''tok'') (Some (da_action_type example_args))
        (Some (da_payload example_args)) = Inr (Active (passport_dump (passport_of example_args hash 1000 (str ''u1''))))"
    using signed_passport_is_active [OF example_lib_laws(3) example_lib_laws(4) _ _ example_sign,
        of "\<lambda>_. None" "[]" 1299]
    by (simp add: example_keys_def previous_public_keys_def env_get_def py_strip_def str_def example_args_def)
  then show ?thesis by (auto simp: example_args_def)
qed

text \<open>
  C32. Introspection is sound: claims are returned only for a token that is not an approval ticket,
  verifies under a current or retired key named by its header, is an unexpired ALLOW Passport, and
  matches the action and the payload that were asked about.
\<close>

theorem introspection_sound:
  assumes "current_law lib"
    and "introspect_passport lib env km now token act payload = Inr (Active claims)"
  shows "\<exists>hd pem previous j. jwt_header lib token = Inr hd \<and> dget hd ''typ'' \<noteq> VStr APPROVAL_TICKET_TYP
    \<and> previous_public_keys env = Inr previous \<and> pem \<in> set (km_public km # previous)
    \<and> rsa_jwk lib pem = Inr j \<and> dget hd ''kid'' = VStr (jwk_kid j)
    \<and> jwt_decode lib axg_decode_options now token pem = Inr claims
    \<and> dget claims ''decision'' = VStr (str ''ALLOW'') \<and> claims_current axg_decode_options now claims
    \<and> (case act of None \<Rightarrow> True | Some a \<Rightarrow> dget claims ''action_type'' = VStr a)
    \<and> (case payload of None \<Rightarrow> True
       | Some p \<Rightarrow> \<exists>h. hash_payload lib p = Inr h \<and> dget claims ''payload_hash'' = VStr h)"
proof -
  from introspect_ActiveD [OF assms(2)] obtain hd pem where h: "jwt_header lib token = Inr hd"
    "dget hd ''typ'' \<noteq> VStr APPROVAL_TICKET_TYP" "verification_key lib env km (dget hd ''kid'') = Inr (Some pem)"
    "jwt_decode lib axg_decode_options now token pem = Inr claims" "dget claims ''decision'' = VStr (str ''ALLOW'')"
    "act \<noteq> None \<Longrightarrow> dget claims ''action_type'' = opt_str act"
    "\<And>p. payload = Some p \<Longrightarrow> \<exists>h. hash_payload lib p = Inr h \<and> dget claims ''payload_hash'' = VStr h" by blast
  from h(3) obtain previous where p: "previous_public_keys env = Inr previous"
    "find_key lib (dget hd ''kid'') (km_public km # previous) = Inr (Some pem)"
    by (auto simp: verification_key_def rbind_eq_Inr simp del: find_key.simps)
  from find_key_SomeD [OF p(2)] obtain j where j: "pem \<in> set (km_public km # previous)" "rsa_jwk lib pem = Inr j"
    "dget hd ''kid'' = VStr (jwk_kid j)" by blast
  have cur: "claims_current axg_decode_options now claims"
    using assms(1) h(4) unfolding current_law_def by blast
  have act: "case act of None \<Rightarrow> True | Some a \<Rightarrow> dget claims ''action_type'' = VStr a"
    using h(6) by (simp add: opt_str_def split: option.splits)
  have payload: "case payload of None \<Rightarrow> True
      | Some p \<Rightarrow> \<exists>h. hash_payload lib p = Inr h \<and> dget claims ''payload_hash'' = VStr h"
    using h(7) by (simp split: option.splits)
  show ?thesis
    by (intro exI conjI) (rule h(1) h(2) p(1) j h(4) h(5) cur act payload)+
qed

lemma introspection_sound_witness:
  "\<exists>hash. hash_payload (example_lib [example_token example_args 1000 (str ''u1'') (str ''tok'')] [])
     [(str ''amount'', VInt 5)] = Inr hash \<and> hash = example_hash"
proof -
  let ?lib = "example_lib [example_token example_args 1000 (str ''u1'') (str ''tok'')] []"
  let ?claims = "passport_dump (passport_of example_args example_hash 1000 (str ''u1''))"
  have "introspect_passport ?lib (\<lambda>_. None) example_keys 1000 (str ''tok'') None (Some [(str ''amount'', VInt 5)])
      = Inr (Active ?claims)"
    by code_simp
  from introspection_sound [OF example_lib_laws(5) this]
  have "\<exists>h. hash_payload ?lib [(str ''amount'', VInt 5)] = Inr h \<and> dget ?claims ''payload_hash'' = VStr h"
    by auto
  then show ?thesis by (simp add: passport_dump_get passport_of_def)
qed

text \<open>
  C33. The two kinds of tokens are never confused: an approval ticket introspects as inactive, and a
  Passport is refused as an approval ticket.
\<close>

theorem token_kinds_are_separate:
  assumes "encode_law lib" "sign_approval_ticket lib km issued uuid ta = Inr challenge"
    and "sign_decision lib km issued' uuid' da = Inr (passport, jti)"
  shows "introspect_passport lib env km now (ch_ticket challenge) act payload
      = Inr (Inactive (str ''This is an approval ticket, not a Passport''))
    \<and> verify_approval_ticket lib env km now passport = Inl (TicketError (str ''Not an approval ticket''))"
proof -
  from sign_approval_ticketD [OF assms(2)] obtain hash k where t: "jwt_encode lib (ticket_dump (ticket_of ta hash issued uuid))
      (km_private km) [(str ''kid'', VStr k), (str ''typ'', VStr APPROVAL_TICKET_TYP)] = Inr (ch_ticket challenge)" by blast
  from ticket_header [OF assms(1) t] obtain hd where "jwt_header lib (ch_ticket challenge) = Inr hd"
    "dget hd ''typ'' = VStr APPROVAL_TICKET_TYP" by blast
  moreover from sign_decisionD [OF assms(3)] obtain hash' k' where
    p: "jwt_encode lib (passport_dump (passport_of da hash' issued' jti)) (km_private km) [(str ''kid'', VStr k')] = Inr passport"
    by blast
  from passport_header [OF assms(1) p] obtain hd' where "jwt_header lib passport = Inr hd'"
    "dget hd' ''typ'' = VStr (str ''JWT'')" by blast
  ultimately show ?thesis
    by (simp add: introspect_passport_def introspect_claims_def verify_approval_ticket_def ticket_claims_of_def
        APPROVAL_TICKET_TYP_def)
qed

definition example_ticket_args :: ticket_args where
  "example_ticket_args = \<lparr>ta_execution_id = str ''e1'', ta_app_id = str ''app'', ta_tenant_id = str ''t1'',
     ta_plugin_id = str ''demo'', ta_policy = str ''demo@1'', ta_decision = str ''CONFIRM'',
     ta_action_type = str ''pay'', ta_payload = [(str ''amount'', VInt 5)], ta_client_id = str ''orchestrator'',
     ta_required_role = str ''treasury'', ta_user_id = None, ta_agent_id = Some (str ''bot''), ta_ttl_seconds = 3600\<rparr>"

definition example_ticket :: ticket_claims where
  "example_ticket = ticket_of example_ticket_args example_hash 1000 (str ''t1'')"

definition example_table :: token_table where
  "example_table = [example_token example_args 1000 (str ''u1'') (str ''tok''),
     (str ''ticket'', str ''k'', ticket_dump example_ticket,
      [(str ''kid'', VStr example_kid), (str ''typ'', VStr APPROVAL_TICKET_TYP)])]"

lemma example_table_distinct: "distinct (map fst example_table)"
  by (simp add: example_table_def example_token_def)

lemma example_sign_ticket:
  "sign_approval_ticket (example_lib example_table [example_ticket]) example_keys 1000 (str ''t1'') example_ticket_args
     = Inr \<lparr>ch_ticket = str ''ticket'', ch_ticket_id = str ''t1'', ch_required_role = str ''treasury'', ch_expires_at = 4600\<rparr>"
  by code_simp

lemma token_kinds_are_separate_witness:
  "introspect_passport (example_lib example_table [example_ticket]) (\<lambda>_. None) example_keys 1000 (str ''ticket'') None None
     = Inr (Inactive (str ''This is an approval ticket, not a Passport''))"
proof -
  let ?lib = "example_lib example_table [example_ticket]"
  have "sign_decision ?lib example_keys 1000 (str ''u1'') example_args = Inr (str ''tok'', str ''u1'')" by code_simp
  from token_kinds_are_separate [OF example_lib_laws(3) [OF example_table_distinct] example_sign_ticket this]
  show ?thesis by simp
qed

text \<open>
  A key id identifies the key: two keys whose JWKs carry the same RFC 7638 thumbprint have the same
  RSA numbers, unless the two hashed thumbprint texts are a collision of SHA-256.
\<close>

theorem kid_identifies_key:
  assumes "sha_laws lib" "rsa_laws lib"
    and "rsa_jwk lib p = Inr i" "rsa_jwk lib q = Inr j" "jwk_kid i = jwk_kid j"
  shows "rsa_numbers lib p = rsa_numbers lib q \<or> collides (sha256 lib) (jwk_thumbprint i) (jwk_thumbprint j)"
  using assms by (rule rsa_jwk_kid_inj)

text \<open>
  The published key set and the verifier agree: every key id in the JWKS selects a verification
  key, and every key a Passport verifies under is published.
\<close>

theorem jwks_matches_verification:
  assumes "get_jwks lib env km = Inr keys"
  shows "(\<exists>pem. verification_key lib env km (VStr k) = Inr (Some pem)) \<longleftrightarrow> k \<in> jwk_kid ` set keys"
proof -
  from assms obtain previous js where p: "previous_public_keys env = Inr previous"
    "mapM (rsa_jwk lib) (km_public km # previous) = Inr keys"
    by (auto simp: get_jwks_def res_simps split: sum.splits if_splits)
  then have all: "list_all2 (\<lambda>pem j. rsa_jwk lib pem = Inr j) (km_public km # previous) keys"
    by (simp only: mapM_eq_Inr)
  show ?thesis
  proof
    assume "\<exists>pem. verification_key lib env km (VStr k) = Inr (Some pem)"
    then obtain pem where "find_key lib (VStr k) (km_public km # previous) = Inr (Some pem)"
      using p(1) by (auto simp: verification_key_def)
    from find_key_SomeD [OF this] obtain j where "pem \<in> set (km_public km # previous)" "rsa_jwk lib pem = Inr j"
      "k = jwk_kid j" by auto
    with all show "k \<in> jwk_kid ` set keys"
      unfolding list_all2_conv_all_nth in_set_conv_nth by (metis Inr_inject image_eqI nth_mem)
  next
    assume "k \<in> jwk_kid ` set keys"
    with find_key_known [OF all] p(1) show "\<exists>pem. verification_key lib env km (VStr k) = Inr (Some pem)"
      by (auto simp: verification_key_def simp del: find_key.simps)
  qed
qed

lemma jwks_matches_verification_witness:
  "\<exists>pem. verification_key (example_lib [] []) (\<lambda>_. None) example_keys (VStr example_kid) = Inr (Some pem)"
proof -
  have "get_jwks (example_lib [] []) (\<lambda>_. None) example_keys
      = Inr [\<lparr>jwk_kid = example_kid, jwk_n = str ''Aw'', jwk_e = str ''AQAB''\<rparr>]" by code_simp
  moreover have "example_kid \<in> jwk_kid ` set [\<lparr>jwk_kid = example_kid, jwk_n = str ''Aw'', jwk_e = str ''AQAB''\<rparr>]" by simp
  ultimately show ?thesis using jwks_matches_verification by blast
qed

end
