(* ===== verification/Rules.thy ===== *)
theory Rules
  imports Models
begin

text \<open>
  \<open>axg/rules.py\<close>, the rule engine: a condition reads one dotted path of the request data and compares
  it with the value of the policy. Only \<open>TypeError\<close> and \<open>ValueError\<close> are caught where a comparison
  converts with \<open>float()\<close>, so a result is either a truth value or the exception that escapes.
\<close>

section \<open>Definitions\<close>

text \<open>\<open>MISSING\<close> is \<open>None\<close> of the option type.\<close>

fun walk_path :: "pyval \<Rightarrow> pystr list \<Rightarrow> pyval option" where
  "walk_path current [] = Some current"
| "walk_path (VDict d) (part # path) =
     (case map_of d part of None \<Rightarrow> None | Some v \<Rightarrow> walk_path v path)"
| "walk_path _ (part # path) = None"

definition field_value :: "pydict \<Rightarrow> pystr \<Rightarrow> pyval option" where
  "field_value data path = walk_path (VDict data) (split_on 46 path)"

text \<open>\<open>try: comparator(float(actual), float(expected)) except (TypeError, ValueError): False\<close>.\<close>

definition caught_numeric :: "pyexc \<Rightarrow> bool" where
  "caught_numeric e \<longleftrightarrow> e = TypeError \<or> is_value_error e"

definition numeric_compare :: "pyval \<Rightarrow> pyval \<Rightarrow> (pyfloat \<Rightarrow> pyfloat \<Rightarrow> bool) \<Rightarrow> bool res" where
  "numeric_compare actual expected comparator =
     (case rbind (py_float actual) (\<lambda>a. rmap (comparator a) (py_float expected)) of
        Inl e \<Rightarrow> if caught_numeric e then Inr False else Inl e
      | Inr b \<Rightarrow> Inr b)"

definition contains :: "pyval \<Rightarrow> pyval \<Rightarrow> bool" where
  "contains actual expected =
     (case actual of
        VStr s \<Rightarrow> is_substring (py_lower (py_str expected)) (py_lower s)
      | VList xs \<Rightarrow> py_in expected xs
      | _ \<Rightarrow> False)"

fun is_list :: "pyval \<Rightarrow> bool" where
  "is_list (VList _) \<longleftrightarrow> True"
| "is_list _ \<longleftrightarrow> False"

definition in_list :: "pyval \<Rightarrow> pyval \<Rightarrow> bool" where
  "in_list actual expected = (case expected of VList xs \<Rightarrow> py_in actual xs | _ \<Rightarrow> False)"

fun apply_operator :: "rule_operator \<Rightarrow> pyval \<Rightarrow> pyval \<Rightarrow> bool res" where
  "apply_operator Op_exists actual expected = Inr True"
| "apply_operator Op_eq actual expected = Inr (py_eq actual expected)"
| "apply_operator Op_neq actual expected = Inr (\<not> py_eq actual expected)"
| "apply_operator Op_gt actual expected = numeric_compare actual expected (\<lambda>a b. flt b a)"
| "apply_operator Op_gte actual expected = numeric_compare actual expected (\<lambda>a b. fle b a)"
| "apply_operator Op_lt actual expected = numeric_compare actual expected flt"
| "apply_operator Op_lte actual expected = numeric_compare actual expected fle"
| "apply_operator Op_in actual expected = Inr (is_list expected \<and> in_list actual expected)"
| "apply_operator Op_not_in actual expected = Inr (is_list expected \<and> \<not> in_list actual expected)"
| "apply_operator Op_contains actual expected = Inr (contains actual expected)"

definition evaluate_condition :: "rule_condition \<Rightarrow> pydict \<Rightarrow> bool res" where
  "evaluate_condition c data =
     (case field_value data (cond_field c) of
        None \<Rightarrow> Inr False
      | Some actual \<Rightarrow> apply_operator (cond_operator c) actual (cond_value c))"

text \<open>Both generator expressions are evaluated before the conjunction: \<open>any\<close> runs even if \<open>all\<close> failed.\<close>

definition evaluate_group :: "condition_group \<Rightarrow> pydict \<Rightarrow> bool res" where
  "evaluate_group g data =
     (let all_conditions = or_empty (group_all g); any_conditions = or_empty (group_any g)
      in rbind (if all_conditions \<noteq> [] then allM (\<lambda>c. evaluate_condition c data) all_conditions else Inr True)
           (\<lambda>all_matches.
              rmap (\<lambda>any_matches. all_matches \<and> any_matches)
                (if any_conditions \<noteq> [] then anyM (\<lambda>c. evaluate_condition c data) any_conditions else Inr True)))"

definition evaluate_rules :: "policy_rule list \<Rightarrow> pydict \<Rightarrow> policy_rule list res" where
  "evaluate_rules rules data = filterM (\<lambda>r. evaluate_group (rule_condition r) data) rules"

section \<open>Paths\<close>

lemma walk_path_append:
  "walk_path v (p @ q) = (case walk_path v p of None \<Rightarrow> None | Some w \<Rightarrow> walk_path w q)"
  by (induction v p rule: walk_path.induct) (auto split: option.splits)

text \<open>A dotted path whose parts are keys without dots is read part by part.\<close>

lemma field_value_join:
  assumes "ps \<noteq> []" "\<And>p. p \<in> set ps \<Longrightarrow> 46 \<notin> set p"
  shows "field_value data (join [46] ps) = walk_path (VDict data) ps"
  using assms by (simp add: field_value_def split_on_join)

lemma field_value_top:
  "46 \<notin> set k \<Longrightarrow> field_value data k = map_of data k"
  by (auto simp: field_value_def split_on_no_sep split: option.splits)

lemma field_value_under:
  assumes "46 \<notin> set k"
  shows "field_value data (k @ 46 # path) =
    (case map_of data k of Some (VDict d) \<Rightarrow> field_value d path | _ \<Rightarrow> None)"
proof -
  obtain p ps where "split_on 46 path = p # ps" by (cases "split_on 46 path") simp_all
  with assms show ?thesis
    by (auto simp: field_value_def split_on_append_sep split: option.splits pyval.splits)
qed

text \<open>A key that holds a dot can never be read: no part of a split path contains one.\<close>

lemma walk_path_map_of_cong:
  assumes "\<And>p. 46 \<notin> set p \<Longrightarrow> map_of d p = map_of e p"
  shows "field_value d path = field_value e path"
proof -
  obtain p ps where p: "split_on 46 path = p # ps" by (cases "split_on 46 path") simp_all
  with split_on_parts [of p 46 path] have "46 \<notin> set p" by simp
  with p assms show ?thesis by (simp add: field_value_def)
qed

text \<open>The value read depends only on the top-level entry the path names.\<close>

lemma field_value_first:
  assumes "map_of d (hd (split_on 46 path)) = map_of e (hd (split_on 46 path))"
  shows "field_value d path = field_value e path"
proof -
  obtain p ps where "split_on 46 path = p # ps" by (cases "split_on 46 path") simp_all
  with assms show ?thesis by (simp add: field_value_def)
qed

section \<open>Operators\<close>

lemma numeric_compare_error:
  assumes "numeric_compare v w f = Inl e"
  shows "e = OverflowError"
proof -
  have "rbind (py_float v) (\<lambda>a. rmap (f a) (py_float w)) = Inl e" "\<not> caught_numeric e"
    using assms by (auto simp: numeric_compare_def split: sum.splits if_splits)
  then show ?thesis using py_float_error [of v e] py_float_error [of w e]
    by (auto simp: res_simps caught_numeric_def)
qed

text \<open>An integer that has a float: below the overflow threshold of doubles.\<close>

fun has_float :: "pyval \<Rightarrow> bool" where
  "has_float (VInt n) \<longleftrightarrow> (\<exists>q. fl (of_int n) = Fin q)"
| "has_float _ \<longleftrightarrow> True"

lemma has_float_no_overflow: "has_float v \<Longrightarrow> py_float v \<noteq> Inl OverflowError"
  by (cases v) (auto simp: float_of_int_def float_of_str_def split: prod.splits if_splits option.splits)

lemma apply_operator_error: "apply_operator op v w = Inl e \<Longrightarrow> e = OverflowError"
  by (cases op) (auto dest: numeric_compare_error)

lemma numeric_compare_total:
  assumes "has_float v" "has_float w"
  shows "\<exists>b. numeric_compare v w f = Inr b"
proof (cases "numeric_compare v w f")
  case (Inl e)
  then have "rbind (py_float v) (\<lambda>a. rmap (f a) (py_float w)) = Inl OverflowError"
    using numeric_compare_error [OF Inl]
    by (auto simp: numeric_compare_def split: sum.splits if_splits)
  with assms show ?thesis using has_float_no_overflow by (auto simp: res_simps)
qed simp

lemma apply_operator_total: "has_float v \<Longrightarrow> has_float w \<Longrightarrow> \<exists>b. apply_operator op v w = Inr b"
  using numeric_compare_total by (cases op) auto

lemma evaluate_condition_error: "evaluate_condition c data = Inl e \<Longrightarrow> e = OverflowError"
  by (auto simp: evaluate_condition_def dest: apply_operator_error split: option.splits)

text \<open>The four comparisons on numbers are those of the rationals, with \<open>not\<close> exchanging them.\<close>

lemma numeric_compare_numbers:
  assumes "py_float v = Inr (Fin a)" "py_float w = Inr (Fin b)"
  shows "numeric_compare v w flt = Inr (a < b)" "numeric_compare v w fle = Inr (a \<le> b)"
  using assms by (simp_all add: numeric_compare_def)

section \<open>Rules\<close>

lemma evaluate_group_error: "evaluate_group g data = Inl e \<Longrightarrow> e = OverflowError"
proof -
  have "allM (\<lambda>c. evaluate_condition c data) cs = Inl e \<Longrightarrow> e = OverflowError"
    "anyM (\<lambda>c. evaluate_condition c data) cs = Inl e \<Longrightarrow> e = OverflowError" for cs
    by (induction cs) (auto simp: res_simps dest: evaluate_condition_error split: if_splits)
  then show "evaluate_group g data = Inl e \<Longrightarrow> e = OverflowError"
    by (auto simp: evaluate_group_def Let_def res_simps split: if_splits)
qed

lemma evaluate_rules_error: "evaluate_rules rs data = Inl e \<Longrightarrow> e = OverflowError"
  unfolding evaluate_rules_def by (induction rs) (auto simp: res_simps dest: evaluate_group_error)

lemma evaluate_rules_filter:
  assumes "evaluate_rules rs data = Inr ts"
  shows "ts = filter (\<lambda>r. evaluate_group (rule_condition r) data = Inr True) rs"
  using filterM_eq_Inr assms by (auto simp: evaluate_rules_def)

lemma evaluate_rules_subset: "evaluate_rules rs data = Inr ts \<Longrightarrow> set ts \<subseteq> set rs"
  by (auto dest: evaluate_rules_filter)

text \<open>What a matching group means: every \<open>all\<close> condition holds, and some \<open>any\<close> condition if there are any.\<close>

lemma evaluate_group_True:
  assumes "evaluate_group g data = Inr True"
  shows "(\<forall>c \<in> set (or_empty (group_all g)). evaluate_condition c data = Inr True) \<and>
    (or_empty (group_any g) \<noteq> [] \<longrightarrow> (\<exists>c \<in> set (or_empty (group_any g)). evaluate_condition c data = Inr True))"
  using assms anyM_eq_True_imp [of "\<lambda>c. evaluate_condition c data" "or_empty (group_any g)"]
  by (auto simp: evaluate_group_def Let_def res_simps allM_eq_True split: if_splits)

lemma evaluate_condition_True:
  "evaluate_condition c data = Inr True \<longleftrightarrow>
     (\<exists>v. field_value data (cond_field c) = Some v \<and> apply_operator (cond_operator c) v (cond_value c) = Inr True)"
  by (auto simp: evaluate_condition_def split: option.splits)

lemma evaluate_group_fields_True:
  assumes "evaluate_group g data = Inr True" "require_condition g"
  shows "\<exists>c \<in> set (or_empty (group_all g)) \<union> set (or_empty (group_any g)).
    \<exists>v. field_value data (cond_field c) = Some v \<and> apply_operator (cond_operator c) v (cond_value c) = Inr True"
proof (cases "or_empty (group_all g)")
  case Nil
  with assms(2) have "or_empty (group_any g) \<noteq> []" by (simp add: require_condition_def)
  with evaluate_group_True [OF assms(1)] show ?thesis by (auto simp: evaluate_condition_True)
next
  case (Cons c cs)
  with evaluate_group_True [OF assms(1)] show ?thesis by (auto simp: evaluate_condition_True)
qed

section \<open>Evaluation without exceptions\<close>

text \<open>
  The truth value of a condition when no integer overflows a double: a comparison holds when \<open>float()\<close>
  accepts both sides and they are in that order.
\<close>

definition numbers_match :: "(pyfloat \<Rightarrow> pyfloat \<Rightarrow> bool) \<Rightarrow> pyval \<Rightarrow> pyval \<Rightarrow> bool" where
  "numbers_match cmp v w \<longleftrightarrow> (case (py_float v, py_float w) of (Inr a, Inr b) \<Rightarrow> cmp a b | _ \<Rightarrow> False)"

fun operator_match :: "rule_operator \<Rightarrow> pyval \<Rightarrow> pyval \<Rightarrow> bool" where
  "operator_match Op_exists v w \<longleftrightarrow> True"
| "operator_match Op_eq v w \<longleftrightarrow> py_eq v w"
| "operator_match Op_neq v w \<longleftrightarrow> \<not> py_eq v w"
| "operator_match Op_gt v w \<longleftrightarrow> numbers_match (\<lambda>a b. flt b a) v w"
| "operator_match Op_gte v w \<longleftrightarrow> numbers_match (\<lambda>a b. fle b a) v w"
| "operator_match Op_lt v w \<longleftrightarrow> numbers_match flt v w"
| "operator_match Op_lte v w \<longleftrightarrow> numbers_match fle v w"
| "operator_match Op_in v w \<longleftrightarrow> (\<exists>xs. w = VList xs \<and> py_in v xs)"
| "operator_match Op_not_in v w \<longleftrightarrow> (\<exists>xs. w = VList xs \<and> \<not> py_in v xs)"
| "operator_match Op_contains v w \<longleftrightarrow>
     (\<exists>s. v = VStr s \<and> is_substring (py_lower (py_str w)) (py_lower s)) \<or> (\<exists>xs. v = VList xs \<and> py_in w xs)"

definition condition_match :: "pydict \<Rightarrow> rule_condition \<Rightarrow> bool" where
  "condition_match data c \<longleftrightarrow>
     (\<exists>v. field_value data (cond_field c) = Some v \<and> operator_match (cond_operator c) v (cond_value c))"

definition group_match :: "pydict \<Rightarrow> condition_group \<Rightarrow> bool" where
  "group_match data g \<longleftrightarrow> list_all (condition_match data) (or_empty (group_all g))
     \<and> (or_empty (group_any g) = [] \<or> list_ex (condition_match data) (or_empty (group_any g)))"

text \<open>The conditions whose two sides have a float when they are integers.\<close>

definition condition_floats :: "pydict \<Rightarrow> rule_condition \<Rightarrow> bool" where
  "condition_floats data c \<longleftrightarrow>
     (case field_value data (cond_field c) of None \<Rightarrow> True | Some v \<Rightarrow> has_float v \<and> has_float (cond_value c))"

definition group_floats :: "pydict \<Rightarrow> condition_group \<Rightarrow> bool" where
  "group_floats data g \<longleftrightarrow>
     list_all (condition_floats data) (or_empty (group_all g)) \<and> list_all (condition_floats data) (or_empty (group_any g))"

lemma numeric_compare_match:
  assumes "has_float v" "has_float w"
  shows "numeric_compare v w f = Inr (numbers_match f v w)"
  using numeric_compare_total [OF assms, of f]
  by (auto simp: numeric_compare_def numbers_match_def split: sum.splits if_splits)

lemma apply_operator_match:
  "has_float v \<Longrightarrow> has_float w \<Longrightarrow> apply_operator op v w = Inr (operator_match op v w)"
  by (cases op) (auto simp: numeric_compare_match in_list_def contains_def split: pyval.splits)

lemma evaluate_condition_match:
  "condition_floats data c \<Longrightarrow> evaluate_condition c data = Inr (condition_match data c)"
  by (auto simp: evaluate_condition_def condition_match_def condition_floats_def apply_operator_match
      split: option.splits)

lemma evaluate_group_match:
  assumes "group_floats data g"
  shows "evaluate_group g data = Inr (group_match data g)"
proof -
  have "allM (\<lambda>c. evaluate_condition c data) cs = Inr (list_all (condition_match data) cs)"
    "anyM (\<lambda>c. evaluate_condition c data) cs = Inr (list_ex (condition_match data) cs)"
    if "list_all (condition_floats data) cs" for cs
    using that by (intro allM_total anyM_total evaluate_condition_match; simp add: list_all_iff)+
  with assms show ?thesis by (auto simp: evaluate_group_def group_match_def group_floats_def Let_def)
qed

lemma evaluate_rules_match:
  assumes "\<And>r. r \<in> set rs \<Longrightarrow> group_floats data (rule_condition r)"
  shows "evaluate_rules rs data = Inr (filter (\<lambda>r. group_match data (rule_condition r)) rs)"
  using assms unfolding evaluate_rules_def by (intro filterM_total evaluate_group_match)

section \<open>The documented meaning\<close>

text \<open>
  What \<open>docs/policies.md\<close> tells a policy author, as predicates that share no code with the evaluator:
  a field is a path from the request data through dictionaries, a comparison relates two numbers, \<open>in\<close>
  asks for an equal member, \<open>contains\<close> for the position of a substring or an equal member. Which values
  count as numbers is the parameter \<open>number\<close>; numbers are compared as doubles.
\<close>

inductive at_path :: "pyval \<Rightarrow> pystr list \<Rightarrow> pyval \<Rightarrow> bool" where
  at_path_here: "at_path v [] v"
| at_path_down: "map_of d k = Some w \<Longrightarrow> at_path w ks v \<Longrightarrow> at_path (VDict d) (k # ks) v"

definition at_field :: "pydict \<Rightarrow> pystr \<Rightarrow> pyval \<Rightarrow> bool" where
  "at_field data path v \<longleftrightarrow>
     (\<exists>ks. ks \<noteq> [] \<and> (\<forall>k \<in> set ks. 46 \<notin> set k) \<and> path = join [46] ks \<and> at_path (VDict data) ks v)"

fun the_number :: "pyval \<Rightarrow> pyfloat option" where
  "the_number (VInt n) = (case float_of_int n of Inr x \<Rightarrow> Some x | Inl _ \<Rightarrow> None)"
| "the_number (VFloat x) = Some x"
| "the_number _ = None"

text \<open>The values that are no numbers and that \<open>float()\<close> accepts all the same.\<close>

fun coerced_number :: "pyval \<Rightarrow> pyfloat option" where
  "coerced_number (VBool b) = Some (Fin (if b then 1 else 0))"
| "coerced_number (VStr s) = (case float_of_str s of Inr x \<Rightarrow> Some x | Inl _ \<Rightarrow> None)"
| "coerced_number v = the_number v"

definition ordering_of :: "rule_operator \<Rightarrow> (pyfloat \<Rightarrow> pyfloat \<Rightarrow> bool) option" where
  "ordering_of op = map_of
     [(Op_gt, \<lambda>a b. flt b a), (Op_gte, \<lambda>a b. fle b a), (Op_lt, flt), (Op_lte, fle)] op"

definition operator_means :: "(pyval \<Rightarrow> pyfloat option) \<Rightarrow> rule_operator \<Rightarrow> pyval \<Rightarrow> pyval \<Rightarrow> bool" where
  "operator_means number op v w \<longleftrightarrow>
     op = Op_exists \<or> (op = Op_eq \<and> py_eq v w) \<or> (op = Op_neq \<and> \<not> py_eq v w)
     \<or> (\<exists>cmp a b. ordering_of op = Some cmp \<and> number v = Some a \<and> number w = Some b \<and> cmp a b)
     \<or> (\<exists>xs. w = VList xs \<and> (op = Op_in \<and> (\<exists>x \<in> set xs. py_eq v x) \<or> op = Op_not_in \<and> (\<forall>x \<in> set xs. \<not> py_eq v x)))
     \<or> (op = Op_contains \<and> ((\<exists>s p q. v = VStr s \<and> py_lower s = p @ py_lower (py_str w) @ q)
                           \<or> (\<exists>xs. v = VList xs \<and> (\<exists>x \<in> set xs. py_eq w x))))"

definition condition_means :: "(pyval \<Rightarrow> pyfloat option) \<Rightarrow> pydict \<Rightarrow> rule_condition \<Rightarrow> bool" where
  "condition_means number data c \<longleftrightarrow>
     (\<exists>v. at_field data (cond_field c) v \<and> operator_means number (cond_operator c) v (cond_value c))"

definition rule_means :: "(pyval \<Rightarrow> pyfloat option) \<Rightarrow> pydict \<Rightarrow> policy_rule \<Rightarrow> bool" where
  "rule_means number data r \<longleftrightarrow>
     (\<forall>cs. group_all (rule_condition r) = Some cs \<longrightarrow> (\<forall>c \<in> set cs. condition_means number data c))
     \<and> (\<forall>cs. group_any (rule_condition r) = Some cs \<and> cs \<noteq> [] \<longrightarrow> (\<exists>c \<in> set cs. condition_means number data c))"

text \<open>No ordering of the rule meets a boolean or a numeric string.\<close>

definition condition_numeric :: "pydict \<Rightarrow> rule_condition \<Rightarrow> bool" where
  "condition_numeric data c \<longleftrightarrow> (ordering_of (cond_operator c) \<noteq> None \<longrightarrow>
     (\<forall>v. at_field data (cond_field c) v \<longrightarrow> coerced_number v = the_number v)
     \<and> coerced_number (cond_value c) = the_number (cond_value c))"

definition rule_numeric :: "pydict \<Rightarrow> policy_rule \<Rightarrow> bool" where
  "rule_numeric data r \<longleftrightarrow> (\<forall>c \<in> set (or_empty (group_all (rule_condition r)))
     \<union> set (or_empty (group_any (rule_condition r))). condition_numeric data c)"

lemma at_path_iff: "at_path v ks w \<longleftrightarrow> walk_path v ks = Some w"
proof
  show "at_path v ks w \<Longrightarrow> walk_path v ks = Some w" by (induction rule: at_path.induct) simp_all
  show "walk_path v ks = Some w \<Longrightarrow> at_path v ks w"
    by (induction v ks rule: walk_path.induct) (auto intro: at_path.intros split: option.splits)
qed

lemma at_field_iff: "at_field data path v \<longleftrightarrow> field_value data path = Some v"
proof
  show "at_field data path v \<Longrightarrow> field_value data path = Some v"
    by (auto simp: at_field_def at_path_iff field_value_join)
  show "field_value data path = Some v \<Longrightarrow> at_field data path v"
    unfolding at_field_def at_path_iff field_value_def
    by (rule exI [of _ "split_on 46 path"]) (auto simp: join_split_on dest: split_on_parts)
qed

lemma numbers_match_coerced:
  "numbers_match cmp v w \<longleftrightarrow> (\<exists>a b. coerced_number v = Some a \<and> coerced_number w = Some b \<and> cmp a b)"
  by (cases v; cases w) (auto simp: numbers_match_def split: sum.splits)

lemma operator_means_match: "operator_means coerced_number op v w \<longleftrightarrow> operator_match op v w"
  by (cases op) (auto simp: operator_means_def ordering_of_def numbers_match_coerced py_in_def list_ex_iff
      is_substring_iff)

lemma condition_means_match: "condition_means coerced_number data c \<longleftrightarrow> condition_match data c"
  by (simp add: condition_means_def condition_match_def at_field_iff operator_means_match)

lemma rule_means_match: "rule_means coerced_number data r \<longleftrightarrow> group_match data (rule_condition r)"
  unfolding rule_means_def group_match_def or_empty_def
  by (cases "group_all (rule_condition r)"; cases "group_any (rule_condition r)")
    (auto simp: condition_means_match list_all_iff list_ex_iff)

lemma condition_means_numeric:
  "condition_numeric data c \<Longrightarrow> condition_means the_number data c \<longleftrightarrow> condition_means coerced_number data c"
  unfolding condition_means_def condition_numeric_def operator_means_def by (rule ex_cong) auto

lemma rule_means_numeric:
  "rule_numeric data r \<Longrightarrow> rule_means the_number data r \<longleftrightarrow> rule_means coerced_number data r"
  unfolding rule_means_def rule_numeric_def or_empty_def
  by (cases "group_all (rule_condition r)"; cases "group_any (rule_condition r)")
    (auto simp: condition_means_numeric)

section \<open>Properties\<close>

text \<open>
  C31. Rule evaluation returns, in the policy's order, exactly the rules that match by the documented meaning
  of their conditions, when the integers they compare are within the range of doubles and no ordering meets a
  boolean or a numeric string. Those the evaluator reads as numbers too, against the documentation's
  "non-numbers never match": every rule it returns matches by that wider reading, and a field holding a
  string such as \<open>"2000"\<close> is over a limit of 1000.
\<close>

theorem evaluate_rules_semantics:
  assumes "list_all (\<lambda>r. group_floats data (rule_condition r)) rules"
  shows "evaluate_rules rules data = Inr (filter (rule_means coerced_number data) rules) \<and>
    (list_all (rule_numeric data) rules \<longrightarrow>
      evaluate_rules rules data = Inr (filter (rule_means the_number data) rules)) \<and>
    (\<forall>field s a limit. at_field data field (VStr s) \<and> float_of_str s = Inr a \<and> flt limit a \<longrightarrow>
      (let c = \<lparr>cond_field = field, cond_operator = Op_gt, cond_value = VFloat limit\<rparr>
       in evaluate_condition c data = Inr True \<and> \<not> condition_means the_number data c))"
proof (intro conjI allI impI)
  show wide: "evaluate_rules rules data = Inr (filter (rule_means coerced_number data) rules)"
    unfolding rule_means_match using assms by (intro evaluate_rules_match) (simp add: list_all_iff)
  show "evaluate_rules rules data = Inr (filter (rule_means the_number data) rules)"
    if "list_all (rule_numeric data) rules"
    unfolding wide using that by (auto simp: list_all_iff rule_means_numeric intro!: filter_cong)
  show "let c = \<lparr>cond_field = field, cond_operator = Op_gt, cond_value = VFloat limit\<rparr>
       in evaluate_condition c data = Inr True \<and> \<not> condition_means the_number data c"
    if "at_field data field (VStr s) \<and> float_of_str s = Inr a \<and> flt limit a" for field s a limit
    using that by (auto simp: evaluate_condition_def condition_means_def at_field_iff numeric_compare_def
        operator_means_def ordering_of_def)
qed

definition example_rule :: policy_rule where
  "example_rule = \<lparr>rule_id = str ''large_amount'', rule_description = str ''large'',
     rule_condition = \<lparr>group_all = Some [\<lparr>cond_field = str ''payload.amount'', cond_operator = Op_gt,
       cond_value = VInt 1000\<rparr>], group_any = None\<rparr>,
     rule_decision = BLOCK, rule_reason = str ''too large'', rule_confidence_penalty = Fin 0,
     rule_risk_delta = Fin (1 / 2), rule_actionable_payload = [], rule_audit_flags = [],
     rule_approver_role = Some (str ''treasury'')\<rparr>"

definition example_data :: "pyval \<Rightarrow> pydict" where
  "example_data v = [(str ''payload'', VDict [(str ''amount'', v)])]"

lemma example_field: "field_value (example_data v) (str ''payload.amount'') = Some v"
  by (simp add: example_data_def field_value_def str_def)

lemma example_floats: "group_floats (example_data v) (rule_condition example_rule) \<longleftrightarrow> has_float v"
  using fl_int [of 1000] by (simp add: example_rule_def group_floats_def or_empty_def condition_floats_def example_field)

lemma evaluate_rules_semantics_witness:
  "evaluate_rules [example_rule] (example_data (VInt 5000)) = Inr [example_rule]
   \<and> evaluate_rules [example_rule] (example_data (VInt 500)) = Inr []
   \<and> evaluate_condition \<lparr>cond_field = str ''payload.amount'', cond_operator = Op_gt, cond_value = VFloat (Fin 1000)\<rparr>
       (example_data (VStr (str ''2000''))) = Inr True"
proof -
  have "rule_numeric (example_data v) example_rule \<longleftrightarrow> coerced_number v = the_number v"
    "rule_means the_number (example_data v) example_rule \<longleftrightarrow> (\<exists>a. the_number v = Some a \<and> flt (Fin 1000) a)" for v
    using float_of_int_small [of 1000]
    by (simp_all add: example_rule_def rule_numeric_def rule_means_def condition_numeric_def condition_means_def
        at_field_iff example_field operator_means_def ordering_of_def or_empty_def)
  note facts = this example_floats
  have floats: "fl 5000 = Fin 5000" "fl 500 = Fin 500" "float_of_int 5000 = Inr (Fin 5000)" "float_of_int 500 = Inr (Fin 500)"
    using fl_int [of 5000] fl_int [of 500] float_of_int_small [of 5000] float_of_int_small [of 500] by simp_all
  have "float_of_str (str ''2000'') = Inr (Fin 2000)" by code_simp
  then have "evaluate_condition \<lparr>cond_field = str ''payload.amount'', cond_operator = Op_gt, cond_value = VFloat (Fin 1000)\<rparr>
      (example_data (VStr (str ''2000''))) = Inr True"
    using evaluate_rules_semantics [of "example_data (VStr (str ''2000''))" "[example_rule]", THEN conjunct2,
        THEN conjunct2, rule_format, of "str ''payload.amount''" "str ''2000''" "Fin 2000" "Fin 1000"]
    by (simp add: example_floats at_field_iff example_field Let_def)
  with evaluate_rules_semantics [of "example_data (VInt 5000)" "[example_rule]", THEN conjunct2, THEN conjunct1]
    evaluate_rules_semantics [of "example_data (VInt 500)" "[example_rule]", THEN conjunct2, THEN conjunct1]
  show ?thesis by (simp add: facts floats)
qed

end
