(* ===== verification/PluginLoader.thy ===== *)
theory PluginLoader
  imports Models Json
begin

text \<open>
  \<open>axg/plugin_loader.py\<close>: where policies come from. Local plugins are folders named by an id; remote
  ones need an operator's switch, an allowlisted URL, HTTPS and a host whose addresses are all public.
  The file system, DNS, the HTTP client and pydantic's validation are the functions of a record
  \<open>loader_env\<close>; \<open>urllib.parse\<close> and \<open>ipaddress\<close> are modelled as far as they are used, with ASCII
  authorities and the check of a bracketed host left to \<open>le_bracket_ok\<close>.
\<close>

section \<open>URLs\<close>

record parsed_url =
  pu_scheme :: pystr
  pu_netloc :: pystr
  pu_path :: pystr
  pu_params :: pystr
  pu_query :: pystr
  pu_fragment :: pystr

definition is_alpha :: "int \<Rightarrow> bool" where
  "is_alpha c \<longleftrightarrow> 65 \<le> c \<and> c \<le> 90 \<or> 97 \<le> c \<and> c \<le> 122"

definition scheme_char :: "int \<Rightarrow> bool" where
  "scheme_char c \<longleftrightarrow> is_alpha c \<or> is_digit c \<or> c = 43 \<or> c = 45 \<or> c = 46"

definition split_scheme :: "pystr \<Rightarrow> pystr \<times> pystr" where
  "split_scheme url =
     (case partition_at 58 url of (scheme, found, rest) \<Rightarrow>
        if found \<and> scheme \<noteq> [] \<and> is_alpha (hd scheme) \<and> list_all scheme_char scheme
        then (py_lower scheme, rest) else ([], url))"

definition split_netloc :: "pystr \<Rightarrow> pystr \<times> pystr" where
  "split_netloc url =
     (if take 2 url = [47, 47]
      then (let r = drop 2 url; delim = (\<lambda>c. c = 47 \<or> c = 63 \<or> c = 35)
            in (takeWhile (\<lambda>c. \<not> delim c) r, dropWhile (\<lambda>c. \<not> delim c) r))
      else ([], url))"

text \<open>\<open>_splitparams\<close>: the parameters of the last segment.\<close>

definition split_params :: "pystr \<Rightarrow> pystr \<times> pystr" where
  "split_params url =
     (case rpartition_at 47 url of (dirs, found, last_part) \<Rightarrow>
        (case partition_at 59 last_part of (p, has, params) \<Rightarrow>
           if has then ((if found then dirs @ [47] @ p else p), params) else (url, [])))"

definition uses_params :: "pystr list" where
  "uses_params = [[], str ''ftp'', str ''hdl'', str ''prospero'', str ''http'', str ''imap'', str ''https'',
     str ''shttp'', str ''rtsp'', str ''rtsps'', str ''rtspu'', str ''sip'', str ''sips'', str ''mms'',
     str ''sftp'', str ''tel'']"

definition urlparse :: "(pystr \<Rightarrow> bool) \<Rightarrow> pystr \<Rightarrow> parsed_url res" where
  "urlparse bracket_ok url0 =
     (let url1 = filter (\<lambda>c. c \<noteq> 9 \<and> c \<noteq> 10 \<and> c \<noteq> 13) (dropWhile (\<lambda>c. c \<le> 32) url0)
      in case split_scheme url1 of (scheme, r1) \<Rightarrow> case split_netloc r1 of (netloc, r2) \<Rightarrow>
         if (91 \<in> set netloc) \<noteq> (93 \<in> set netloc) \<or> 91 \<in> set netloc \<and> \<not> bracket_ok netloc
         then Inl (ValueError (str ''Invalid IPv6 URL''))
         else (case partition_at 35 r2 of (r3, _, fragment) \<Rightarrow> case partition_at 63 r3 of (path, _, query) \<Rightarrow>
                case (if scheme \<in> set uses_params then split_params path else (path, [])) of (path', params) \<Rightarrow>
                Inr \<lparr>pu_scheme = scheme, pu_netloc = netloc, pu_path = path', pu_params = params, pu_query = query,
                     pu_fragment = fragment\<rparr>))"

definition hostinfo :: "parsed_url \<Rightarrow> pystr \<times> pystr" where
  "hostinfo u =
     (case rpartition_at 64 (pu_netloc u) of (_, _, info) \<Rightarrow> case partition_at 91 info of (_, bracket, bracketed) \<Rightarrow>
        if bracket
        then (case partition_at 93 bracketed of (host, _, r) \<Rightarrow> (host, snd (snd (partition_at 58 r))))
        else (case partition_at 58 info of (host, _, port) \<Rightarrow> (host, port)))"

definition hostname :: "parsed_url \<Rightarrow> pystr option" where
  "hostname u =
     (let host = fst (hostinfo u)
      in if host = [] then None
         else (case partition_at 37 host of (h, percent, zone) \<Rightarrow>
                 Some (py_lower h @ (if percent then 37 # zone else []))))"

definition port :: "parsed_url \<Rightarrow> int option res" where
  "port u =
     (let p = snd (hostinfo u)
      in if p = [] then Inr None
         else if list_all is_digit p \<and> digits_val 0 p \<le> 65535 then Inr (Some (digits_val 0 p))
         else Inl (ValueError (str ''Port out of range'')))"

text \<open>\<open>parsed._replace(netloc=...).geturl()\<close> for a nonempty authority.\<close>

definition geturl :: "parsed_url \<Rightarrow> pystr" where
  "geturl u =
     (let url = (if pu_params u \<noteq> [] then pu_path u @ [59] @ pu_params u else pu_path u);
          url2 = str ''//'' @ pu_netloc u @ (if url \<noteq> [] \<and> hd url \<noteq> 47 then 47 # url else url);
          url3 = (if pu_scheme u \<noteq> [] then pu_scheme u @ [58] @ url2 else url2);
          url4 = (if pu_query u \<noteq> [] then url3 @ [63] @ pu_query u else url3)
      in if pu_fragment u \<noteq> [] then url4 @ [35] @ pu_fragment u else url4)"

text \<open>
  \<open>unquote\<close>, with each decoded byte as one code point: the UTF-8 decoding that follows in Python only
  regroups bytes above 127, which no comparison of the source looks at.
\<close>

function unquote :: "pystr \<Rightarrow> pystr" where
  "unquote s = (case s of
       [] \<Rightarrow> []
     | c # r \<Rightarrow>
         (case r of
            a # b # r' \<Rightarrow>
              (case (if c = 37 then (hex_val a, hex_val b) else (None, None)) of
                 (Some x, Some y) \<Rightarrow> (16 * x + y) # unquote r'
               | _ \<Rightarrow> c # unquote r)
          | _ \<Rightarrow> c # unquote r))"
  by pat_completeness auto
termination
  by (relation "measure length") auto

declare unquote.simps [simp del]

section \<open>The allowlist\<close>

record url_parts =
  up_scheme :: pystr
  up_host :: pystr
  up_port :: "int option"
  up_path :: pystr

definition default_port :: "pystr \<Rightarrow> int option" where
  "default_port scheme = (if scheme = str ''https'' then Some 443 else if scheme = str ''http'' then Some 80 else None)"

definition url_parts :: "(pystr \<Rightarrow> bool) \<Rightarrow> pystr \<Rightarrow> url_parts option" where
  "url_parts bracket_ok url =
     (case urlparse bracket_ok (py_strip url) of
        Inl _ \<Rightarrow> None
      | Inr parsed \<Rightarrow>
          (let scheme = py_lower (pu_scheme parsed)
           in case port parsed of
                Inl _ \<Rightarrow> None
              | Inr p \<Rightarrow>
                  (let p' = (case p of Some n \<Rightarrow> if n = 0 then default_port scheme else Some n
                             | None \<Rightarrow> default_port scheme)
                   in case hostname parsed of
                        None \<Rightarrow> None
                      | Some host \<Rightarrow> Some \<lparr>up_scheme = scheme, up_host = py_lower host, up_port = p',
                          up_path = (if pu_path parsed = [] then [47] else pu_path parsed)\<rparr>)))"

definition same_origin :: "url_parts \<Rightarrow> url_parts \<Rightarrow> bool" where
  "same_origin a b \<longleftrightarrow> up_scheme a = up_scheme b \<and> up_host a = up_host b \<and> up_port a = up_port b"

definition rstrip_slash :: "pystr \<Rightarrow> pystr" where
  "rstrip_slash s = rev (dropWhile (\<lambda>c. c = 47) (rev s))"

definition dot_segments :: "pystr \<Rightarrow> bool" where
  "dot_segments path \<longleftrightarrow> list_ex (\<lambda>seg. seg = [46] \<or> seg = [46, 46]) (split_on 47 (unquote path))"

definition path_below :: "pystr \<Rightarrow> pystr \<Rightarrow> bool" where
  "path_below base path \<longleftrightarrow> base = [] \<or> path = base \<or> startswith path (base @ [47])"

definition entry_admits :: "(pystr \<Rightarrow> bool) \<Rightarrow> url_parts \<Rightarrow> pystr \<Rightarrow> bool" where
  "entry_admits bracket_ok target entry =
     (if py_strip entry = [] then False
      else (case url_parts bracket_ok entry of
              None \<Rightarrow> False
            | Some allowed \<Rightarrow> same_origin allowed target \<and> path_below (rstrip_slash (up_path allowed)) (up_path target)))"

definition is_allowlisted :: "(pystr \<Rightarrow> bool) \<Rightarrow> environ \<Rightarrow> pystr \<Rightarrow> bool" where
  "is_allowlisted bracket_ok env plugin_url =
     (case url_parts bracket_ok plugin_url of
        None \<Rightarrow> False
      | Some target \<Rightarrow>
          \<not> dot_segments (up_path target)
          \<and> list_ex (entry_admits bracket_ok target) (split_on 44 (env_get env ''AXG_REMOTE_PLUGIN_ALLOWLIST'' [])))"

section \<open>Addresses\<close>

text \<open>An IPv4 address as its 32-bit number; \<open>in_net a b n\<close> is membership in the network \<open>b/n\<close>.\<close>

definition parse_octet :: "pystr \<Rightarrow> int option" where
  "parse_octet s = (if s \<noteq> [] \<and> list_all is_digit s \<and> length s \<le> 3 \<and> (s = [48] \<or> hd s \<noteq> 48)
       \<and> digits_val 0 s \<le> 255 then Some (digits_val 0 s) else None)"

definition ipv4 :: "int \<Rightarrow> int \<Rightarrow> int \<Rightarrow> int \<Rightarrow> int" where
  "ipv4 a b c d = ((a * 256 + b) * 256 + c) * 256 + d"

definition parse_ipv4 :: "pystr \<Rightarrow> int option" where
  "parse_ipv4 s = (case map parse_octet (split_on 46 s) of
     [Some a, Some b, Some c, Some d] \<Rightarrow> Some (ipv4 a b c d) | _ \<Rightarrow> None)"

definition in_net :: "int \<Rightarrow> int \<Rightarrow> nat \<Rightarrow> bool" where
  "in_net a base bits \<longleftrightarrow> a div 2 ^ (32 - bits) = base div 2 ^ (32 - bits)"

definition private_networks :: "(int \<times> nat) list" where
  "private_networks = [(ipv4 0 0 0 0, 8), (ipv4 10 0 0 0, 8), (ipv4 127 0 0 0, 8), (ipv4 169 254 0 0, 16),
     (ipv4 172 16 0 0, 12), (ipv4 192 0 0 0, 24), (ipv4 192 0 0 170, 31), (ipv4 192 0 2 0, 24),
     (ipv4 192 168 0 0, 16), (ipv4 198 18 0 0, 15), (ipv4 198 51 100 0, 24), (ipv4 203 0 113 0, 24),
     (ipv4 240 0 0 0, 4), (ipv4 255 255 255 255, 32)]"

definition is_private :: "int \<Rightarrow> bool" where
  "is_private a \<longleftrightarrow> list_ex (\<lambda>(b, n). in_net a b n) private_networks
     \<and> \<not> in_net a (ipv4 192 0 0 9) 32 \<and> \<not> in_net a (ipv4 192 0 0 10) 32"

definition is_cgnat :: "int \<Rightarrow> bool" where
  "is_cgnat a \<longleftrightarrow> in_net a (ipv4 100 64 0 0) 10"

definition is_global :: "int \<Rightarrow> bool" where
  "is_global a \<longleftrightarrow> \<not> is_cgnat a \<and> \<not> is_private a"

definition is_unsafe :: "int \<Rightarrow> bool" where
  "is_unsafe a \<longleftrightarrow> is_private a \<or> in_net a (ipv4 240 0 0 0) 4 \<or> in_net a (ipv4 127 0 0 0) 8
     \<or> in_net a (ipv4 169 254 0 0) 16 \<or> in_net a (ipv4 224 0 0 0) 4 \<or> a = 0"

definition address_ok :: "pystr \<Rightarrow> bool" where
  "address_ok ip = (case parse_ipv4 ip of
     None \<Rightarrow> False
   | Some a \<Rightarrow> if \<not> is_global a then False else if is_unsafe a then False else \<not> is_cgnat a)"

text \<open>Any exception of the resolution ends in \<open>None\<close>, and so does any unsafe address.\<close>

definition get_safe_ips :: "(pystr \<Rightarrow> pystr list res) \<Rightarrow> pystr \<Rightarrow> pystr list option" where
  "get_safe_ips getaddrinfo host =
     (case getaddrinfo host of
        Inl _ \<Rightarrow> None
      | Inr addrs \<Rightarrow>
          if addrs = [] then None
          else (let ips = sort (remdups addrs) in if list_all address_ok ips then Some ips else None))"

section \<open>Loading\<close>

text \<open>
  What \<open>client.get\<close> may do: fail to connect (the only failure that tries the next address), fail with
  another \<open>httpx.HTTPError\<close>, raise an exception of another kind (\<open>httpx.InvalidURL\<close> is one), or answer with a
  status and a body that \<open>response.json()\<close> reads.
\<close>

datatype fetch_result = ConnectFailed | HttpError | FetchRaised pyexc | Response int "pyval res"

record loader_env =
  le_environ :: environ
  le_plugins_dir :: pystr
  le_read_file :: "pystr \<Rightarrow> pystr res option"
  le_validate :: "pyval \<Rightarrow> plugin option"
  le_getaddrinfo :: "pystr \<Rightarrow> pystr list res"
  le_http_get :: "pystr \<Rightarrow> pystr \<Rightarrow> pystr \<Rightarrow> fetch_result"
  le_bracket_ok :: "pystr \<Rightarrow> bool"
  le_describe :: "pyexc \<Rightarrow> pystr"

text \<open>\<open>PluginLoadError\<close>, which the engine catches, and every other exception.\<close>

datatype load_error = PluginLoadError pystr | Escaped pyexc

definition plugin_id_char :: "int \<Rightarrow> bool" where
  "plugin_id_char c \<longleftrightarrow> 97 \<le> c \<and> c \<le> 122 \<or> 48 \<le> c \<and> c \<le> 57"

definition PLUGIN_ID :: "pystr \<Rightarrow> bool" where
  "PLUGIN_ID s \<longleftrightarrow> s \<noteq> [] \<and> plugin_id_char (hd s) \<and> list_all (\<lambda>c. plugin_id_char c \<or> c = 95 \<or> c = 45) (tl s)
     \<and> length s \<le> 64"

text \<open>\<open>except (json.JSONDecodeError, ValidationError, OSError)\<close>; an \<open>OSError\<close> is \<open>OtherError ''OSError''\<close>.\<close>

definition caught_local :: "pyexc \<Rightarrow> bool" where
  "caught_local e \<longleftrightarrow> e = JSONDecodeError \<or> e = ValueError (str ''ValidationError'') \<or> e = OtherError (str ''OSError'')"

definition validated :: "loader_env \<Rightarrow> pyval \<Rightarrow> plugin res" where
  "validated le data = (case le_validate le data of None \<Rightarrow> Inl (ValueError (str ''ValidationError'')) | Some p \<Rightarrow> Inr p)"

definition plugin_path :: "loader_env \<Rightarrow> pystr \<Rightarrow> pystr" where
  "plugin_path le plugin_id = le_plugins_dir le @ [47] @ plugin_id @ str ''/rules.json''"

definition load_local :: "loader_env \<Rightarrow> pystr \<Rightarrow> load_error + plugin" where
  "load_local le plugin_id =
     (if \<not> PLUGIN_ID plugin_id then Inl (PluginLoadError (str ''Invalid plugin id: '' @ str_repr plugin_id))
      else (case le_read_file le (plugin_path le plugin_id) of
          None \<Rightarrow> Inl (PluginLoadError (str ''Local plugin '' @ quoted plugin_id @ str '' not found at ''
                    @ plugin_path le plugin_id))
        | Some content \<Rightarrow>
            (case rbind content (\<lambda>text. rbind (json_loads text) (validated le)) of
               Inr p \<Rightarrow> Inr p
             | Inl e \<Rightarrow> if caught_local e
                 then Inl (PluginLoadError (str ''Local plugin '' @ quoted plugin_id @ str '' is invalid: '' @ le_describe le e))
                 else Inl (Escaped e))))"

text \<open>The addresses in order; a connection failure moves on, and the last one fails the fetch.\<close>

fun fetch_first :: "(pystr \<Rightarrow> fetch_result) \<Rightarrow> pystr list \<Rightarrow> fetch_result" where
  "fetch_first get [] = HttpError"
| "fetch_first get [ip] = get ip"
| "fetch_first get (ip # jp # ips) = (case get ip of ConnectFailed \<Rightarrow> fetch_first get (jp # ips) | r \<Rightarrow> r)"

definition ip_url :: "parsed_url \<Rightarrow> pystr \<Rightarrow> pystr \<Rightarrow> pystr" where
  "ip_url parsed port_str ip = geturl (parsed\<lparr>pu_netloc := ip @ port_str\<rparr>)"

definition remote_failed :: "loader_env \<Rightarrow> pystr \<Rightarrow> load_error" where
  "remote_failed le host = PluginLoadError (str ''Failed to fetch remote plugin from '' @ host @ str '': ''
     @ le_describe le (OtherError (str ''HTTPError'')))"

definition port_suffix :: "int option \<Rightarrow> pystr" where
  "port_suffix p = (case p of Some n \<Rightarrow> if n = 0 then [] else 58 # int_str n | None \<Rightarrow> [])"

definition host_header :: "pystr \<Rightarrow> int option \<Rightarrow> pystr" where
  "host_header host p = (case p of Some n \<Rightarrow> if n \<noteq> 0 \<and> n \<noteq> 443 then host @ [58] @ int_str n else host | None \<Rightarrow> host)"

definition fetch_ip :: "loader_env \<Rightarrow> parsed_url \<Rightarrow> pystr \<Rightarrow> int option \<Rightarrow> pystr \<Rightarrow> fetch_result" where
  "fetch_ip le parsed host p ip = le_http_get le (ip_url parsed (port_suffix p) ip) (host_header host p) host"

text \<open>The last \<open>except\<close> clause of the fetch: any exception but these two escapes the loader.\<close>

definition remote_invalid :: "loader_env \<Rightarrow> pystr \<Rightarrow> pyexc \<Rightarrow> load_error" where
  "remote_invalid le host e =
     (if e = JSONDecodeError \<or> e = ValueError (str ''ValidationError'')
      then PluginLoadError (str ''Remote plugin from '' @ host @ str '' is invalid: '' @ le_describe le e)
      else Escaped e)"

definition remote_plugin :: "loader_env \<Rightarrow> pystr \<Rightarrow> fetch_result \<Rightarrow> load_error + plugin" where
  "remote_plugin le host response =
     (case response of
        Response status body \<Rightarrow>
          if \<not> (200 \<le> status \<and> status \<le> 299) then Inl (remote_failed le host)
          else (case rbind body (validated le) of
              Inr pl \<Rightarrow> Inr pl
            | Inl e \<Rightarrow> Inl (remote_invalid le host e))
      | FetchRaised e \<Rightarrow> Inl (remote_invalid le host e)
      | _ \<Rightarrow> Inl (remote_failed le host))"

definition load_remote :: "loader_env \<Rightarrow> pystr \<Rightarrow> load_error + plugin" where
  "load_remote le plugin_url =
     (case urlparse (le_bracket_ok le) plugin_url of
        Inl e \<Rightarrow> Inl (Escaped e)
      | Inr parsed \<Rightarrow>
          (case hostname parsed of
             None \<Rightarrow> Inl (PluginLoadError (str ''Invalid remote plugin URL: '' @ plugin_url))
           | Some host \<Rightarrow>
               if pu_scheme parsed \<noteq> str ''https''
               then Inl (PluginLoadError (str ''Remote plugins MUST use HTTPS: '' @ plugin_url))
               else (case get_safe_ips (le_getaddrinfo le) host of
                  None \<Rightarrow> Inl (PluginLoadError (str ''Remote plugin host '' @ quoted host
                            @ str '' is unsafe or resolves to private IP.''))
                | Some safe_ips \<Rightarrow>
                    (case port parsed of
                       Inl e \<Rightarrow> Inl (Escaped e)
                     | Inr p \<Rightarrow> remote_plugin le host (fetch_first (fetch_ip le parsed host p) safe_ips)))))"

definition remote_enabled :: "environ \<Rightarrow> bool" where
  "remote_enabled env \<longleftrightarrow> py_lower (env_get env ''ENABLE_REMOTE_PLUGINS'' (str ''false'')) = str ''true''"

definition is_remote_id :: "pystr \<Rightarrow> bool" where
  "is_remote_id s \<longleftrightarrow> startswith s (str ''http://'') \<or> startswith s (str ''https://'')"

definition load_uncached :: "loader_env \<Rightarrow> pystr \<Rightarrow> load_error + plugin" where
  "load_uncached le plugin_id =
     (if is_remote_id plugin_id
      then (if \<not> remote_enabled (le_environ le)
            then Inl (PluginLoadError (str (''Remote plugin loading is disabled for security. ''
                   @ ''Set ENABLE_REMOTE_PLUGINS=true to enable.'')))
            else if \<not> is_allowlisted (le_bracket_ok le) (le_environ le) plugin_id
            then Inl (PluginLoadError (str ''Remote plugin URL is not in AXG_REMOTE_PLUGIN_ALLOWLIST''))
            else load_remote le plugin_id)
      else load_local le plugin_id)"

text \<open>\<open>PluginLoader.load\<close> and \<open>clear_cache\<close>: the state is the cache.\<close>

type_synonym plugin_cache = "(pystr \<times> plugin) list"

definition load :: "loader_env \<Rightarrow> plugin_cache \<Rightarrow> pystr \<Rightarrow> (load_error + plugin) \<times> plugin_cache" where
  "load le cache plugin_id =
     (case map_of cache plugin_id of
        Some p \<Rightarrow> (Inr p, cache)
      | None \<Rightarrow>
          (case load_uncached le plugin_id of
             Inl e \<Rightarrow> (Inl e, cache)
           | Inr p \<Rightarrow> (Inr p, AList.update plugin_id p cache)))"

definition clear_cache :: "plugin_cache \<Rightarrow> plugin_cache" where
  "clear_cache cache = []"

section \<open>The interface of a policy source\<close>

text \<open>
  What the engine and the approval service rely on: a cached policy is returned unchanged, a failure
  changes nothing, and what enters the cache is what a fresh load returned. \<open>fresh\<close> says which policies
  a load without the cache can return for an id.
\<close>

locale policy_source =
  fixes load_policy :: "'cache \<Rightarrow> 'id \<Rightarrow> ('e + 'p) \<times> 'cache"
    and cached :: "'cache \<Rightarrow> 'id \<Rightarrow> 'p option"
    and fresh :: "'id \<Rightarrow> 'p \<Rightarrow> bool"
  assumes hit: "cached c i = Some p \<Longrightarrow> load_policy c i = (Inr p, c)"
    and miss: "cached c i = None \<Longrightarrow> load_policy c i = (Inr p, c') \<Longrightarrow>
      fresh i p \<and> cached c' i = Some p \<and> (\<forall>j. j \<noteq> i \<longrightarrow> cached c' j = cached c j)"
    and failure: "load_policy c i = (Inl e, c') \<Longrightarrow> c' = c"
begin

definition cache_fresh :: "'cache \<Rightarrow> bool" where
  "cache_fresh c \<longleftrightarrow> (\<forall>i p. cached c i = Some p \<longrightarrow> fresh i p)"

lemma load_result:
  assumes "cache_fresh c" "load_policy c i = (Inr p, c')"
  shows "fresh i p \<and> cached c' i = Some p \<and> cache_fresh c'"
proof (cases "cached c i")
  case None
  with miss [OF None assms(2)] assms(1) show ?thesis by (metis cache_fresh_def option.inject)
next
  case (Some q)
  with hit [OF Some] assms show ?thesis by (auto simp: cache_fresh_def)
qed

lemma load_cases:
  obtains (error) e where "load_policy c i = (Inl e, c)"
  | (loaded) p c' where "load_policy c i = (Inr p, c')"
proof -
  obtain r c' where l: "load_policy c i = (r, c')" by (cases "load_policy c i")
  show thesis
  proof (cases r)
    case (Inl e)
    with l failure have "load_policy c i = (Inl e, c)" by blast
    then show ?thesis by (rule error)
  next
    case (Inr p)
    with l loaded show ?thesis by blast
  qed
qed

lemma load_keeps_fresh: "cache_fresh c \<Longrightarrow> cache_fresh (snd (load_policy c i))"
proof (cases rule: load_cases [of c i])
  case (loaded p c')
  assume "cache_fresh c"
  from load_result [OF this loaded] loaded show ?thesis by simp
qed simp

lemma load_caches:
  assumes "load_policy c i = (Inr p, c')"
  shows "cached c' i = Some p"
proof (cases "cached c i")
  case None
  from miss [OF this assms] show ?thesis by blast
next
  case (Some q)
  from hit [OF this] assms Some show ?thesis by simp
qed

lemma load_again: "load_policy c i = (Inr p, c') \<Longrightarrow> load_policy c' i = (Inr p, c')"
  by (intro hit load_caches)

lemma load_stable:
  assumes "cached c i = Some p"
  shows "cached (snd (load_policy c j)) i = Some p"
proof (cases "cached c j")
  case (Some q)
  with assms show ?thesis by (simp add: hit)
next
  case None
  show ?thesis
  proof (cases rule: load_cases [of c j])
    case (loaded p' c')
    with miss [OF None loaded] assms None show ?thesis by (cases "j = i") auto
  qed (use assms in simp)
qed

text \<open>A policy that was loaded once answers every later load, whatever is loaded in between.\<close>

lemma load_after_loads:
  assumes "load_policy c i = (Inr p, c')"
  shows "load_policy (foldl (\<lambda>d j. snd (load_policy d j)) c' js) i
    = (Inr p, foldl (\<lambda>d j. snd (load_policy d j)) c' js)"
proof -
  have "cached c' i = Some p" using assms by (rule load_caches)
  then have "cached (foldl (\<lambda>d j. snd (load_policy d j)) c' js) i = Some p"
    by (induction js arbitrary: c') (simp_all add: load_stable)
  then show ?thesis by (rule hit)
qed

end

lemma load_hit: "map_of cache i = Some p \<Longrightarrow> load le cache i = (Inr p, cache)"
  by (simp add: load_def)

lemma load_miss:
  assumes "map_of cache i = None" "load le cache i = (Inr p, cache')"
  shows "load_uncached le i = Inr p \<and> cache' = AList.update i p cache"
  using assms by (cases "load_uncached le i") (simp_all add: load_def)

lemma load_failure:
  assumes "load le cache i = (Inl e, cache')"
  shows "cache' = cache \<and> map_of cache i = None \<and> load_uncached le i = Inl e"
  using assms by (cases "map_of cache i"; cases "load_uncached le i") (simp_all add: load_def)

interpretation plugin_source: policy_source "load le" "map_of" "\<lambda>i p. load_uncached le i = Inr p" for le
proof
  fix c i p c'
  assume "map_of c i = None" "load le c i = (Inr p, c')"
  from load_miss [OF this] show "load_uncached le i = Inr p \<and> map_of c' i = Some p \<and>
      (\<forall>j. j \<noteq> i \<longrightarrow> map_of c' j = map_of c j)"
    by (simp add: map_of_update)
qed (simp_all add: load_hit load_failure)

section \<open>Addresses: lemmas\<close>

lemma div_eqI_int: "0 \<le> a - q * k \<Longrightarrow> a - q * k < k \<Longrightarrow> a div k = q" for a q k :: int
proof -
  assume r: "0 \<le> a - q * k" "a - q * k < k"
  then have "(q * k + (a - q * k)) div k = q + (a - q * k) div k" by (subst div_mult_self3) simp_all
  with r show "a div k = q" by (simp add: div_pos_pos_trivial)
qed

lemma in_net_iff:
  fixes a :: int
  assumes "n \<le> 32" "base = q * 2 ^ (32 - n)"
  shows "in_net a base n \<longleftrightarrow> base \<le> a \<and> a < base + 2 ^ (32 - n)"
proof -
  let ?k = "(2 :: int) ^ (32 - n)"
  have "base div ?k = q" using assms(2) by simp
  moreover have "a div ?k = q \<longleftrightarrow> q * ?k \<le> a \<and> a < q * ?k + ?k"
  proof
    assume "a div ?k = q"
    then have "a = q * ?k + a mod ?k" by (metis div_mult_mod_eq)
    moreover have "0 \<le> a mod ?k" "a mod ?k < ?k" by simp_all
    ultimately show "q * ?k \<le> a \<and> a < q * ?k + ?k" by linarith
  next
    assume "q * ?k \<le> a \<and> a < q * ?k + ?k"
    then have "0 \<le> a - q * ?k" "a - q * ?k < ?k" by simp_all
    then show "a div ?k = q" by (intro div_eqI_int) (simp_all add: mult.commute)
  qed
  ultimately show ?thesis using assms(2) by (simp add: in_net_def)
qed

lemma in_net_range:
  fixes a :: int
  assumes "n \<le> 32" "base = q * 2 ^ (32 - n)" "hi = base + 2 ^ (32 - n) - 1"
  shows "in_net a base n \<longleftrightarrow> base \<le> a \<and> a \<le> hi"
  using in_net_iff [OF assms(1,2)] assms(3) by auto

lemma parse_ipv4_range:
  assumes "parse_ipv4 s = Some a"
  shows "0 \<le> a \<and> a < 2 ^ 32"
proof -
  have octet: "0 \<le> x \<and> x < 256" if "parse_octet t = Some x" for t x
  proof -
    have "list_all is_digit u \<Longrightarrow> 0 \<le> acc \<Longrightarrow> 0 \<le> digits_val acc u" for acc u
      by (induction u arbitrary: acc) (auto simp: is_digit_def)
    with that show ?thesis by (auto simp: parse_octet_def split: if_splits)
  qed
  from assms obtain ts b c d e where "map parse_octet ts = [Some b, Some c, Some d, Some e]" "a = ipv4 b c d e"
    by (auto simp: parse_ipv4_def split: list.splits option.splits)
  then obtain t u v w where "parse_octet t = Some b" "parse_octet u = Some c" "parse_octet v = Some d" "parse_octet w = Some e"
    by (auto simp: map_eq_Cons_conv)
  with octet have "0 \<le> b \<and> b < 256" "0 \<le> c \<and> c < 256" "0 \<le> d \<and> d < 256" "0 \<le> e \<and> e < 256" by blast+
  with \<open>a = ipv4 b c d e\<close> show ?thesis by (auto simp: ipv4_def)
qed

text \<open>
  The ranges no fetch may reach, as address intervals: this network, private use, CGNAT, loopback, link-local,
  the protocol assignments (but for the two anycast addresses), the three documentation networks, benchmarking,
  and multicast with everything above.
\<close>

definition special_ranges :: "(int \<times> int) list" where
  "special_ranges = [(ipv4 0 0 0 0, ipv4 0 255 255 255), (ipv4 10 0 0 0, ipv4 10 255 255 255),
     (ipv4 100 64 0 0, ipv4 100 127 255 255), (ipv4 127 0 0 0, ipv4 127 255 255 255),
     (ipv4 169 254 0 0, ipv4 169 254 255 255), (ipv4 172 16 0 0, ipv4 172 31 255 255),
     (ipv4 192 0 0 0, ipv4 192 0 0 8), (ipv4 192 0 0 11, ipv4 192 0 0 255), (ipv4 192 0 2 0, ipv4 192 0 2 255),
     (ipv4 192 168 0 0, ipv4 192 168 255 255), (ipv4 198 18 0 0, ipv4 198 19 255 255),
     (ipv4 198 51 100 0, ipv4 198 51 100 255), (ipv4 203 0 113 0, ipv4 203 0 113 255),
     (ipv4 224 0 0 0, ipv4 255 255 255 255)]"

lemma net_ranges:
  "in_net a (ipv4 0 0 0 0) 8 \<longleftrightarrow> ipv4 0 0 0 0 \<le> a \<and> a \<le> ipv4 0 255 255 255"
  "in_net a (ipv4 10 0 0 0) 8 \<longleftrightarrow> ipv4 10 0 0 0 \<le> a \<and> a \<le> ipv4 10 255 255 255"
  "in_net a (ipv4 100 64 0 0) 10 \<longleftrightarrow> ipv4 100 64 0 0 \<le> a \<and> a \<le> ipv4 100 127 255 255"
  "in_net a (ipv4 127 0 0 0) 8 \<longleftrightarrow> ipv4 127 0 0 0 \<le> a \<and> a \<le> ipv4 127 255 255 255"
  "in_net a (ipv4 169 254 0 0) 16 \<longleftrightarrow> ipv4 169 254 0 0 \<le> a \<and> a \<le> ipv4 169 254 255 255"
  "in_net a (ipv4 172 16 0 0) 12 \<longleftrightarrow> ipv4 172 16 0 0 \<le> a \<and> a \<le> ipv4 172 31 255 255"
  "in_net a (ipv4 192 168 0 0) 16 \<longleftrightarrow> ipv4 192 168 0 0 \<le> a \<and> a \<le> ipv4 192 168 255 255"
  "in_net a (ipv4 198 18 0 0) 15 \<longleftrightarrow> ipv4 198 18 0 0 \<le> a \<and> a \<le> ipv4 198 19 255 255"
  "in_net a (ipv4 224 0 0 0) 4 \<longleftrightarrow> ipv4 224 0 0 0 \<le> a \<and> a \<le> ipv4 239 255 255 255"
  "in_net a (ipv4 240 0 0 0) 4 \<longleftrightarrow> ipv4 240 0 0 0 \<le> a \<and> a \<le> ipv4 255 255 255 255"
  "in_net a (ipv4 192 0 0 0) 24 \<longleftrightarrow> ipv4 192 0 0 0 \<le> a \<and> a \<le> ipv4 192 0 0 255"
  "in_net a (ipv4 192 0 2 0) 24 \<longleftrightarrow> ipv4 192 0 2 0 \<le> a \<and> a \<le> ipv4 192 0 2 255"
  "in_net a (ipv4 198 51 100 0) 24 \<longleftrightarrow> ipv4 198 51 100 0 \<le> a \<and> a \<le> ipv4 198 51 100 255"
  "in_net a (ipv4 203 0 113 0) 24 \<longleftrightarrow> ipv4 203 0 113 0 \<le> a \<and> a \<le> ipv4 203 0 113 255"
  by (rule in_net_range [of _ _ 0] in_net_range [of _ _ 10] in_net_range [of _ _ 401] in_net_range [of _ _ 127]
      in_net_range [of _ _ 43518] in_net_range [of _ _ 2753] in_net_range [of _ _ 49320] in_net_range [of _ _ 25353]
      in_net_range [of _ _ 14] in_net_range [of _ _ 15]
      in_net_range [of _ _ 12582912] in_net_range [of _ _ 12582914] in_net_range [of _ _ 12989284]
      in_net_range [of _ _ 13303921]; simp add: ipv4_def; fail)+

lemma private_net:
  assumes "(b, n) \<in> set private_networks" "in_net a b n" "a \<noteq> ipv4 192 0 0 9" "a \<noteq> ipv4 192 0 0 10"
  shows "is_private a"
proof -
  have "list_ex (\<lambda>(b, n). in_net a b n) private_networks" using assms by (auto simp: list_ex_iff)
  moreover have "\<not> in_net a (ipv4 192 0 0 9) 32" "\<not> in_net a (ipv4 192 0 0 10) 32"
    using assms(3,4) by (simp_all add: in_net_def)
  ultimately show ?thesis by (simp add: is_private_def)
qed

lemma special_not_ok:
  assumes "\<not> is_unsafe a" "\<not> is_cgnat a"
  shows "list_all (\<lambda>(lo, hi). \<not> (lo \<le> a \<and> a \<le> hi)) special_ranges"
proof -
  have p: "\<not> is_private a" using assms(1) by (simp add: is_unsafe_def)
  have no: "\<not> (b \<le> a \<and> a \<le> hi)"
    if "(b, n) \<in> set private_networks" "in_net a b n \<longleftrightarrow> b \<le> a \<and> a \<le> hi" "hi < ipv4 192 0 0 9 \<or> ipv4 192 0 0 10 < b"
    for b n hi
    using private_net [OF that(1), of a] that(2,3) p by (auto simp: ipv4_def)
  have "\<not> (ipv4 0 0 0 0 \<le> a \<and> a \<le> ipv4 0 255 255 255)" "\<not> (ipv4 10 0 0 0 \<le> a \<and> a \<le> ipv4 10 255 255 255)"
    "\<not> (ipv4 127 0 0 0 \<le> a \<and> a \<le> ipv4 127 255 255 255)" "\<not> (ipv4 169 254 0 0 \<le> a \<and> a \<le> ipv4 169 254 255 255)"
    "\<not> (ipv4 172 16 0 0 \<le> a \<and> a \<le> ipv4 172 31 255 255)" "\<not> (ipv4 192 168 0 0 \<le> a \<and> a \<le> ipv4 192 168 255 255)"
    "\<not> (ipv4 198 18 0 0 \<le> a \<and> a \<le> ipv4 198 19 255 255)" "\<not> (ipv4 192 0 2 0 \<le> a \<and> a \<le> ipv4 192 0 2 255)"
    "\<not> (ipv4 198 51 100 0 \<le> a \<and> a \<le> ipv4 198 51 100 255)" "\<not> (ipv4 203 0 113 0 \<le> a \<and> a \<le> ipv4 203 0 113 255)"
    by (rule no [OF _ net_ranges(1)] no [OF _ net_ranges(2)] no [OF _ net_ranges(4)] no [OF _ net_ranges(5)]
        no [OF _ net_ranges(6)] no [OF _ net_ranges(7)] no [OF _ net_ranges(8)]
        no [OF _ net_ranges(12)] no [OF _ net_ranges(13)] no [OF _ net_ranges(14)];
        simp add: private_networks_def ipv4_def; fail)+
  moreover have "\<not> (ipv4 100 64 0 0 \<le> a \<and> a \<le> ipv4 100 127 255 255)"
    using assms(2) by (simp add: is_cgnat_def net_ranges)
  moreover have "\<not> (ipv4 192 0 0 0 \<le> a \<and> a \<le> ipv4 192 0 0 8)" "\<not> (ipv4 192 0 0 11 \<le> a \<and> a \<le> ipv4 192 0 0 255)"
    using private_net [of "ipv4 192 0 0 0" 24 a] p unfolding net_ranges
    by (auto simp: private_networks_def ipv4_def)
  moreover have "\<not> (ipv4 224 0 0 0 \<le> a \<and> a \<le> ipv4 255 255 255 255)"
  proof -
    have "\<not> in_net a (ipv4 240 0 0 0) 4" "\<not> in_net a (ipv4 224 0 0 0) 4"
      using assms(1) by (simp_all add: is_unsafe_def)
    then show ?thesis unfolding net_ranges by (auto simp: ipv4_def)
  qed
  ultimately show ?thesis by (simp add: special_ranges_def)
qed

lemma address_ok_public:
  assumes "address_ok ip"
  shows "\<exists>a. parse_ipv4 ip = Some a \<and> list_all (\<lambda>(lo, hi). \<not> (lo \<le> a \<and> a \<le> hi)) special_ranges"
proof -
  from assms obtain a where "parse_ipv4 ip = Some a" "\<not> is_unsafe a" "\<not> is_cgnat a"
    by (auto simp: address_ok_def split: option.splits if_splits)
  with special_not_ok show ?thesis by blast
qed

lemma get_safe_ips_ok:
  assumes "get_safe_ips getaddrinfo host = Some ips"
  obtains addrs where "getaddrinfo host = Inr addrs" "addrs \<noteq> []" "set ips = set addrs" "list_all address_ok ips" "ips \<noteq> []"
proof -
  from assms obtain addrs where a: "getaddrinfo host = Inr addrs" "addrs \<noteq> []" "list_all address_ok ips"
    "ips = sort (remdups addrs)"
    by (auto simp: get_safe_ips_def Let_def split: sum.splits if_splits)
  moreover from a(4) have "set ips = set addrs" by simp
  moreover from this a(2) have "ips \<noteq> []" by auto
  ultimately show thesis using that by blast
qed

section \<open>Loading: lemmas\<close>

lemma is_allowlistedD:
  assumes "is_allowlisted bracket_ok env url"
  obtains target allowed entry where "url_parts bracket_ok url = Some target"
    "entry \<in> set (split_on 44 (env_get env ''AXG_REMOTE_PLUGIN_ALLOWLIST'' []))"
    "url_parts bracket_ok entry = Some allowed" "same_origin allowed target"
    "path_below (rstrip_slash (up_path allowed)) (up_path target)" "\<not> dot_segments (up_path target)"
proof -
  from assms obtain target entry where "url_parts bracket_ok url = Some target" "\<not> dot_segments (up_path target)"
    "entry \<in> set (split_on 44 (env_get env ''AXG_REMOTE_PLUGIN_ALLOWLIST'' []))" "entry_admits bracket_ok target entry"
    by (auto simp: is_allowlisted_def list_ex_iff split: option.splits)
  moreover from this(4) obtain allowed where "url_parts bracket_ok entry = Some allowed" "same_origin allowed target"
    "path_below (rstrip_slash (up_path allowed)) (up_path target)"
    by (auto simp: entry_admits_def split: if_splits option.splits)
  ultimately show thesis using that by blast
qed

lemma fetch_first_from: "ips \<noteq> [] \<Longrightarrow> \<exists>ip \<in> set ips. fetch_first get ips = get ip"
  by (induction get ips rule: fetch_first.induct) (auto split: fetch_result.split)

lemma fetch_first_cong: "(\<And>ip. ip \<in> set ips \<Longrightarrow> g ip = h ip) \<Longrightarrow> fetch_first g ips = fetch_first h ips"
  by (induction g ips rule: fetch_first.induct) (auto split: fetch_result.split)

lemma remote_pluginD:
  assumes "remote_plugin le host response = Inr p"
  obtains status body where "response = Response status body" "200 \<le> status" "status \<le> 299"
    "rbind body (validated le) = Inr p"
  using assms by (cases response) (auto simp: remote_plugin_def split: if_splits sum.splits)

lemma load_remoteD:
  assumes "load_remote le url = Inr p"
  obtains parsed host ips q where
    "urlparse (le_bracket_ok le) url = Inr parsed" "hostname parsed = Some host" "pu_scheme parsed = str ''https''"
    "get_safe_ips (le_getaddrinfo le) host = Some ips" "port parsed = Inr q"
    "remote_plugin le host (fetch_first (fetch_ip le parsed host q) ips) = Inr p"
proof -
  from assms obtain parsed where u: "urlparse (le_bracket_ok le) url = Inr parsed"
    by (cases "urlparse (le_bracket_ok le) url") (simp_all add: load_remote_def)
  with assms obtain host where h: "hostname parsed = Some host"
    by (cases "hostname parsed") (simp_all add: load_remote_def)
  with assms u have s: "pu_scheme parsed = str ''https''"
    by (simp add: load_remote_def split: if_splits)
  with assms u h obtain ips where i: "get_safe_ips (le_getaddrinfo le) host = Some ips"
    by (cases "get_safe_ips (le_getaddrinfo le) host") (simp_all add: load_remote_def)
  with assms u h s obtain q where "port parsed = Inr q"
    by (cases "port parsed") (simp_all add: load_remote_def)
  with assms u h s i that show thesis by (simp add: load_remote_def)
qed

text \<open>
  What a remote policy owes its trust to: an allowlist entry that admits its URL, and an answer over
  HTTPS from one of the host's addresses, all of them public.
\<close>

definition approved_origin :: "loader_env \<Rightarrow> pystr \<Rightarrow> bool" where
  "approved_origin le url \<longleftrightarrow> (\<exists>target allowed entry.
     url_parts (le_bracket_ok le) url = Some target
     \<and> entry \<in> set (split_on 44 (env_get (le_environ le) ''AXG_REMOTE_PLUGIN_ALLOWLIST'' []))
     \<and> url_parts (le_bracket_ok le) entry = Some allowed \<and> same_origin allowed target
     \<and> path_below (rstrip_slash (up_path allowed)) (up_path target) \<and> \<not> dot_segments (up_path target))"

definition public_address :: "pystr \<Rightarrow> bool" where
  "public_address ip \<longleftrightarrow>
     (\<exists>n. parse_ipv4 ip = Some n \<and> list_all (\<lambda>(lo, hi). \<not> (lo \<le> n \<and> n \<le> hi)) special_ranges)"

definition public_answer :: "loader_env \<Rightarrow> pystr \<Rightarrow> plugin \<Rightarrow> bool" where
  "public_answer le url p \<longleftrightarrow> (\<exists>parsed host addrs ip q status body.
     urlparse (le_bracket_ok le) url = Inr parsed \<and> pu_scheme parsed = str ''https'' \<and> hostname parsed = Some host
     \<and> port parsed = Inr q
     \<and> le_getaddrinfo le host = Inr addrs \<and> list_all public_address addrs \<and> ip \<in> set addrs
     \<and> fetch_ip le parsed host q ip = Response status body \<and> 200 \<le> status \<and> status \<le> 299
     \<and> rbind body (validated le) = Inr p)"

lemma load_remote_public:
  assumes "load_remote le url = Inr p"
  shows "public_answer le url p"
proof -
  obtain parsed host ips q where r:
    "urlparse (le_bracket_ok le) url = Inr parsed" "hostname parsed = Some host" "pu_scheme parsed = str ''https''"
    "get_safe_ips (le_getaddrinfo le) host = Some ips" "port parsed = Inr q"
    "remote_plugin le host (fetch_first (fetch_ip le parsed host q) ips) = Inr p"
    by (rule load_remoteD [OF assms])
  obtain addrs where a: "le_getaddrinfo le host = Inr addrs" "addrs \<noteq> []" "set ips = set addrs"
    "list_all address_ok ips" "ips \<noteq> []" by (rule get_safe_ips_ok [OF r(4)])
  from fetch_first_from [OF a(5)] obtain ip where ip: "ip \<in> set ips"
    "fetch_first (fetch_ip le parsed host q) ips = fetch_ip le parsed host q ip" by blast
  obtain status body where f: "fetch_ip le parsed host q ip = Response status body"
    "200 \<le> status" "status \<le> 299" "rbind body (validated le) = Inr p"
    by (rule remote_pluginD [OF r(6) [unfolded ip(2)]])
  have "list_all public_address addrs"
    using a(3,4) address_ok_public unfolding list_all_iff public_address_def by blast
  with r(1-3,5) a(1,3) ip(1) f show ?thesis unfolding public_answer_def by blast
qed

lemma load_localD:
  assumes "load_local le plugin_id = Inr p"
  obtains content data where "PLUGIN_ID plugin_id" "le_read_file le (plugin_path le plugin_id) = Some (Inr content)"
    "json_loads content = Inr data" "le_validate le data = Some p"
  using assms by (auto simp: load_local_def validated_def res_simps split: if_splits option.splits sum.splits)

lemma PLUGIN_ID_chars: "PLUGIN_ID s \<Longrightarrow> c \<in> set s \<Longrightarrow> plugin_id_char c \<or> c = 95 \<or> c = 45"
  by (cases s) (auto simp: PLUGIN_ID_def list_all_iff)

section \<open>Properties\<close>

text \<open>
  C34. A policy read from disk comes from its own folder: the id has only lower-case letters, digits,
  \<open>_\<close> and \<open>-\<close> (so no separator and no dot segment), and the policy is what validation made of the JSON
  in that folder's \<open>rules.json\<close>.
\<close>

theorem local_policy_from_own_folder:
  assumes "\<not> is_remote_id plugin_id" "map_of cache plugin_id = None" "load le cache plugin_id = (Inr p, cache')"
  shows "47 \<notin> set plugin_id \<and> 46 \<notin> set plugin_id \<and> 92 \<notin> set plugin_id \<and> plugin_id \<noteq> [] \<and>
    (\<exists>text data. le_read_file le (le_plugins_dir le @ [47] @ plugin_id @ str ''/rules.json'') = Some (Inr text)
       \<and> json_loads text = Inr data \<and> le_validate le data = Some p) \<and> map_of cache' plugin_id = Some p"
proof -
  from load_miss [OF assms(2,3)] assms(1) have l: "load_local le plugin_id = Inr p" "cache' = AList.update plugin_id p cache"
    by (simp_all add: load_uncached_def)
  from load_localD [OF l(1)] obtain content data where d: "PLUGIN_ID plugin_id"
    "le_read_file le (plugin_path le plugin_id) = Some (Inr content)" "json_loads content = Inr data"
    "le_validate le data = Some p" by blast
  have "47 \<notin> set plugin_id" "46 \<notin> set plugin_id" "92 \<notin> set plugin_id"
    using PLUGIN_ID_chars [OF d(1)] by (fastforce simp: plugin_id_char_def)+
  moreover have "plugin_id \<noteq> []" using d(1) by (simp add: PLUGIN_ID_def)
  ultimately show ?thesis using d l(2) by (auto simp: plugin_path_def map_of_update)
qed

definition example_plugin :: plugin where
  "example_plugin = \<lparr>pl_schema_version = str ''axg.plugin_manifest.v1'', pl_plugin = str ''demo'', pl_version = str ''1'',
     pl_domain = str ''demo'', pl_thresholds = \<lparr>allow_min_confidence = Fin (3 / 4), suggest_min_confidence = Fin (1 / 2),
       high_risk_threshold = Fin (3 / 4)\<rparr>,
     pl_actions = [(str ''pay'', \<lparr>required_permissions = [str ''pay:send''], base_risk = Fin (1 / 4),
       action_approver_role = Some (str ''treasury''), required_context = []\<rparr>)],
     pl_rules = [], pl_uncertainty_gate = \<lparr>gate_actions = [], uncertain_sources = [], uncertain_source_suffixes = [],
       gate_threshold = Fin (3 / 4), gate_audit_flag = str ''gated'', gate_reason = str ''gated''\<rparr>,
     pl_approval = default_approval\<rparr>"

definition example_env :: loader_env where
  "example_env = \<lparr>le_environ = (\<lambda>n. if n = ''ENABLE_REMOTE_PLUGINS'' then Some (str ''TRUE'')
       else if n = ''AXG_REMOTE_PLUGIN_ALLOWLIST'' then Some (str ''https://policies.example.com/axg/'') else None),
     le_plugins_dir = str ''/plugins'',
     le_read_file = (\<lambda>path. if path = str ''/plugins/demo/rules.json'' then Some (Inr [123, 125]) else None),
     le_validate = (\<lambda>v. case v of VDict [] \<Rightarrow> Some example_plugin | _ \<Rightarrow> None),
     le_getaddrinfo = (\<lambda>h. Inr [str ''93.184.216.34'']),
     le_http_get = (\<lambda>url header sni. if url = str ''https://93.184.216.34/axg/demo.json'' then Response 200 (Inr (VDict []))
       else HttpError),
     le_bracket_ok = (\<lambda>_. False), le_describe = (\<lambda>_. [])\<rparr>"

lemma example_load_local: "load example_env [] (str ''demo'') = (Inr example_plugin, [(str ''demo'', example_plugin)])"
  by code_simp

lemma local_policy_from_own_folder_witness:
  "\<exists>text data. le_read_file example_env (str ''/plugins/demo/rules.json'') = Some (Inr text) \<and> json_loads text = Inr data
     \<and> le_validate example_env data = Some example_plugin"
proof -
  have "\<not> is_remote_id (str ''demo'')" by code_simp
  from local_policy_from_own_folder [OF this _ example_load_local]
  have "\<exists>text data. le_read_file example_env (le_plugins_dir example_env @ [47] @ str ''demo'' @ str ''/rules.json'') = Some (Inr text)
     \<and> json_loads text = Inr data \<and> le_validate example_env data = Some example_plugin" by simp
  moreover have "le_plugins_dir example_env @ [47] @ str ''demo'' @ str ''/rules.json'' = str ''/plugins/demo/rules.json''"
    by code_simp
  ultimately show ?thesis by simp
qed

text \<open>
  C35. A policy fetched over the network has an approved origin: remote loading is switched on, the URL
  has the scheme, host and port of an allowlist entry and a path at or below the entry's on a segment
  boundary with no dot segment, and the answer came over HTTPS from an address of the host, all of whose
  addresses are outside every private, loopback, link-local, CGNAT, documentation, multicast and reserved range.
\<close>

theorem remote_policy_provenance:
  assumes "is_remote_id url" "map_of cache url = None" "load le cache url = (Inr p, cache')"
  shows "remote_enabled (le_environ le) \<and> approved_origin le url \<and> public_answer le url p"
proof -
  from load_miss [OF assms(2,3)] assms(1) have l: "remote_enabled (le_environ le)"
    "is_allowlisted (le_bracket_ok le) (le_environ le) url" "load_remote le url = Inr p"
    by (auto simp: load_uncached_def split: if_splits)
  moreover have "approved_origin le url"
    using is_allowlistedD [OF l(2)] unfolding approved_origin_def by blast
  ultimately show ?thesis using load_remote_public by blast
qed

lemma example_load_remote:
  "load example_env [] (str ''https://policies.example.com/axg/demo.json'')
     = (Inr example_plugin, [(str ''https://policies.example.com/axg/demo.json'', example_plugin)])"
  by code_simp

lemma remote_policy_provenance_witness:
  "public_answer example_env (str ''https://policies.example.com/axg/demo.json'') example_plugin"
proof -
  have "is_remote_id (str ''https://policies.example.com/axg/demo.json'')" by code_simp
  from remote_policy_provenance [OF this _ example_load_remote] show ?thesis by simp
qed

text \<open>
  No request leaves for an unsafe address: how the network answers at addresses outside the public
  range makes no difference to a remote load, whatever the URL.
\<close>

theorem remote_fetch_only_public:
  assumes "\<And>parsed q ip header host. address_ok ip \<Longrightarrow>
    get (ip_url parsed (port_suffix q) ip) header host = get' (ip_url parsed (port_suffix q) ip) header host"
  shows "load_remote (le\<lparr>le_http_get := get\<rparr>) url = load_remote (le\<lparr>le_http_get := get'\<rparr>) url"
proof -
  have fetch: "fetch_first (fetch_ip (le\<lparr>le_http_get := get\<rparr>) parsed host q) ips
      = fetch_first (fetch_ip (le\<lparr>le_http_get := get'\<rparr>) parsed host q) ips"
    if "get_safe_ips (le_getaddrinfo le) name = Some ips" for parsed host q name ips
  proof (rule fetch_first_cong)
    fix ip
    assume "ip \<in> set ips"
    with get_safe_ips_ok [OF that] have "address_ok ip" by (metis list_all_iff)
    with assms show "fetch_ip (le\<lparr>le_http_get := get\<rparr>) parsed host q ip
        = fetch_ip (le\<lparr>le_http_get := get'\<rparr>) parsed host q ip" by (simp add: fetch_ip_def)
  qed
  have valid: "validated (le\<lparr>le_http_get := g\<rparr>) = validated le" for g
    by (rule ext) (simp add: validated_def)
  have plugin: "remote_plugin (le\<lparr>le_http_get := g\<rparr>) = remote_plugin le" for g
    by (intro ext) (simp add: remote_plugin_def remote_failed_def remote_invalid_def valid split: fetch_result.split sum.split)
  show ?thesis
    by (simp add: load_remote_def plugin fetch split: sum.split option.split)
qed

lemma remote_fetch_only_public_witness:
  "load_remote (example_env\<lparr>le_http_get := (\<lambda>_ _ _. HttpError)\<rparr>) (str ''https://10.0.0.1/'')
     = load_remote (example_env\<lparr>le_http_get := (\<lambda>_ _ _. HttpError)\<rparr>) (str ''https://10.0.0.1/'')"
  by (rule remote_fetch_only_public) simp

text \<open>
  A policy stays what it was: after a load succeeded, every later load of the same id returns the
  same policy and leaves the cache alone, whatever else is loaded or fails in between.
\<close>

theorem loaded_policy_is_stable:
  assumes "load le cache plugin_id = (Inr p, cache')"
  shows "load le (foldl (\<lambda>c i. snd (load le c i)) cache' ids) plugin_id
    = (Inr p, foldl (\<lambda>c i. snd (load le c i)) cache' ids)"
  using assms by (rule plugin_source.load_after_loads)

lemma loaded_policy_is_stable_witness:
  "fst (load example_env (foldl (\<lambda>c i. snd (load example_env c i)) [(str ''demo'', example_plugin)] [str ''other'']) (str ''demo''))
     = Inr example_plugin"
  by (simp only: loaded_policy_is_stable [OF example_load_local] fst_conv)

end
