(* ===== verification/SignedContext.thy ===== *)
theory SignedContext
  imports Crypto
begin

text \<open>
  \<open>axg/context.py\<close>: facts that trusted services sign. Providers come from \<open>AXG_CONTEXT_PROVIDERS\<close>;
  each token of a request is verified against the provider of its issuer, and the facts of valid ones
  become \<open>verified.<provider>.<fact>\<close>. The JWKS client of a provider is the parameter \<open>jwks_key\<close> (URL and
  token to key); PyJWT is the record \<open>crypto_lib\<close>; \<open>ce_time\<close> is the float clock a token's age is read from. The providers cache only saves work: it is keyed by
  the raw configuration that determines its content, so it is not part of the state.
\<close>

section \<open>Providers\<close>

record context_provider =
  cp_id :: pystr
  cp_issuer :: pystr
  cp_max_age_seconds :: int
  cp_public_key :: "pystr option"
  cp_jwks_url :: pystr

definition DEFAULT_MAX_AGE_SECONDS :: int where
  "DEFAULT_MAX_AGE_SECONDS = 300"

definition MAX_AGE_LIMIT_SECONDS :: int where
  "MAX_AGE_LIMIT_SECONDS = 86400"

definition LEEWAY_SECONDS :: int where
  "LEEWAY_SECONDS = 30"

text \<open>\<open>PROVIDER_ID.match\<close>: the final \<open>$\<close> also matches before a trailing newline.\<close>

definition provider_char :: "int \<Rightarrow> bool" where
  "provider_char c \<longleftrightarrow> 97 \<le> c \<and> c \<le> 122 \<or> 48 \<le> c \<and> c \<le> 57 \<or> c = 95 \<or> c = 45"

definition plain_provider_id :: "pystr \<Rightarrow> bool" where
  "plain_provider_id s \<longleftrightarrow> s \<noteq> [] \<and> length s \<le> 64 \<and> list_all provider_char s"

definition PROVIDER_ID :: "pystr \<Rightarrow> bool" where
  "PROVIDER_ID s \<longleftrightarrow> plain_provider_id s \<or> (s \<noteq> [] \<and> last s = 10 \<and> plain_provider_id (butlast s))"

text \<open>\<open>str(entry.get(key, ""))\<close> and \<open>str(entry.get(key) or "")\<close>.\<close>

definition get_str :: "pydict \<Rightarrow> string \<Rightarrow> pystr" where
  "get_str d k = (case map_of d (str k) of None \<Rightarrow> [] | Some v \<Rightarrow> py_str v)"

definition get_or_empty :: "pydict \<Rightarrow> string \<Rightarrow> pystr" where
  "get_or_empty d k = (case map_of d (str k) of None \<Rightarrow> [] | Some v \<Rightarrow> if truthy v then py_str v else [])"

text \<open>\<open>isinstance(max_age, int)\<close> holds for booleans too.\<close>

fun as_int :: "pyval \<Rightarrow> int option" where
  "as_int (VInt n) = Some n"
| "as_int (VBool b) = Some (if b then 1 else 0)"
| "as_int _ = None"

definition config_error :: "string \<Rightarrow> 'a res" where
  "config_error m = Inl (ConfigError (str m))"

definition provider_age :: "pydict \<Rightarrow> int option" where
  "provider_age d =
     (case as_int (case map_of d (str ''max_age_seconds'') of None \<Rightarrow> VInt DEFAULT_MAX_AGE_SECONDS | Some v \<Rightarrow> v) of
        None \<Rightarrow> None
      | Some n \<Rightarrow> if 1 \<le> n \<and> n \<le> MAX_AGE_LIMIT_SECONDS then Some n else None)"

fun provider :: "pyval \<Rightarrow> context_provider res" where
  "provider (VDict entry) =
     (let provider_id = get_str entry ''id''; issuer = py_strip (get_str entry ''issuer'')
      in if \<not> PROVIDER_ID provider_id
         then config_error ''A context provider id must be 1-64 characters of a-z, 0-9, _ or -''
         else if issuer = [] then config_error ''Context provider needs an issuer''
         else (case provider_age entry of
             None \<Rightarrow> config_error ''Context provider: max_age_seconds must be 1 to 86400''
           | Some max_age \<Rightarrow>
               (let public_key = unescape_newlines (get_or_empty entry ''public_key'');
                    jwks_url = py_strip (get_or_empty entry ''jwks_url'')
                in if public_key = [] \<and> jwks_url = []
                   then config_error ''Context provider needs jwks_url or public_key''
                   else Inr \<lparr>cp_id = provider_id, cp_issuer = issuer, cp_max_age_seconds = max_age,
                          cp_public_key = (if public_key = [] then None else Some public_key), cp_jwks_url = jwks_url\<rparr>)))"
| "provider _ = config_error ''Each context provider must be a JSON object''"

text \<open>\<open>load_providers\<close>: the providers by issuer, with unique ids and issuers.\<close>

definition load_providers :: "environ \<Rightarrow> context_provider list res" where
  "load_providers env =
     (let raw = py_strip (env_get env ''AXG_CONTEXT_PROVIDERS'' [])
      in if raw = [] then Inr []
         else (case json_loads raw of
             Inl e \<Rightarrow> if e = JSONDecodeError then config_error ''AXG_CONTEXT_PROVIDERS is not valid JSON'' else Inl e
           | Inr (VList entries) \<Rightarrow>
               rbind (mapM provider entries) (\<lambda>providers.
                 if distinct (map cp_issuer providers) \<and> distinct (map cp_id providers) then Inr providers
                 else config_error ''Context provider ids and issuers must be unique'')
           | Inr _ \<Rightarrow> config_error ''AXG_CONTEXT_PROVIDERS must be a JSON list''))"

section \<open>Tokens\<close>

definition ALGORITHMS :: "pystr list" where
  "ALGORITHMS = [str ''RS256'', str ''PS256'', str ''ES256'', str ''EdDSA'']"

definition REQUIRED_CLAIMS :: "pystr list" where
  "REQUIRED_CLAIMS = [str ''iss'', str ''aud'', str ''iat'', str ''exp'', str ''tenant_id'', str ''context'']"

definition context_options :: "pystr \<Rightarrow> pystr \<Rightarrow> decode_options" where
  "context_options issuer audience = \<lparr>do_algorithms = ALGORITHMS, do_issuer = issuer, do_audience = Some audience,
     do_leeway = LEEWAY_SECONDS, do_require = REQUIRED_CLAIMS\<rparr>"

record context_env =
  ce_lib :: crypto_lib
  ce_environ :: environ
  ce_time :: "int \<Rightarrow> pyfloat"
  ce_jwks_key :: "pystr \<Rightarrow> pystr \<Rightarrow> pystr res"
  ce_exc_name :: "pyexc \<Rightarrow> pystr"

definition signing_key :: "context_env \<Rightarrow> context_provider \<Rightarrow> pystr \<Rightarrow> pystr res" where
  "signing_key ce p token =
     (case cp_public_key p of Some k \<Rightarrow> Inr k | None \<Rightarrow> ce_jwks_key ce (cp_jwks_url p) token)"

definition find_provider :: "context_provider list \<Rightarrow> pyval \<Rightarrow> context_provider option" where
  "find_provider providers issuer =
     (case issuer of VStr s \<Rightarrow> find (\<lambda>p. cp_issuer p = s) providers | _ \<Rightarrow> None)"

text \<open>
  \<open>time.time() - claims["iat"] > max_age + LEEWAY\<close>: the clock is a float (\<open>ce_time\<close>, its reading within the
  second \<open>now\<close>), so an integer is converted
  (an \<open>OverflowError\<close> beyond the range of doubles) and anything but a number is a \<open>TypeError\<close>. The comparison
  of a float with an integer is exact.
\<close>

definition age_exceeds :: "pyfloat \<Rightarrow> int \<Rightarrow> pyfloat \<Rightarrow> bool" where
  "age_exceeds time limit iat \<longleftrightarrow> flt (Fin (of_int limit)) (fsub time iat)"

fun too_old :: "pyfloat \<Rightarrow> int \<Rightarrow> pyval \<Rightarrow> bool res" where
  "too_old time limit (VInt iat) = rmap (age_exceeds time limit) (float_of_int iat)"
| "too_old time limit (VBool b) = Inr (age_exceeds time limit (Fin (if b then 1 else 0)))"
| "too_old time limit (VFloat iat) = Inr (age_exceeds time limit iat)"
| "too_old time limit _ = Inl TypeError"

definition reject :: "pystr \<Rightarrow> string \<Rightarrow> 'a res" where
  "reject p m = Inl (ValueError (p @ str m))"

text \<open>A key that is missing in \<open>claims[...]\<close> cannot be: \<open>jwt.decode\<close> required it.\<close>

definition claim :: "pydict \<Rightarrow> string \<Rightarrow> pyval res" where
  "claim c k = (case map_of c (str k) of None \<Rightarrow> Inl (KeyError (str k)) | Some v \<Rightarrow> Inr v)"

definition check_claims :: "pyfloat \<Rightarrow> context_provider \<Rightarrow> pystr \<Rightarrow> pystr option \<Rightarrow> pydict \<Rightarrow> pydict res" where
  "check_claims time p tenant_id user_id claims =
     rbind (rbind (claim claims ''iat'') (too_old time (cp_max_age_seconds p + LEEWAY_SECONDS))) (\<lambda>old.
       if old then reject (cp_id p) '': too old''
       else rbind (claim claims ''tenant_id'') (\<lambda>tenant.
         if tenant \<noteq> VStr tenant_id then reject (cp_id p) '': another tenant''
         else if (case map_of claims (str ''sub'') of None \<Rightarrow> False | Some v \<Rightarrow> v \<noteq> opt_str user_id)
         then reject (cp_id p) '': another user''
         else rbind (claim claims ''context'') (\<lambda>c.
           (case c of VDict facts \<Rightarrow> Inr facts | _ \<Rightarrow> reject (cp_id p) '': context is not an object''))))"

definition verify_token ::
    "context_env \<Rightarrow> int \<Rightarrow> context_provider list \<Rightarrow> pystr \<Rightarrow> pystr option \<Rightarrow> pystr \<Rightarrow> pystr
      \<Rightarrow> (context_provider \<times> pydict) res" where
  "verify_token ce now providers tenant_id user_id audience token =
     (case jwt_claims (ce_lib ce) token of
        Inl e \<Rightarrow> if is_jwt_error e then reject [] ''malformed token'' else Inl e
      | Inr unverified \<Rightarrow>
          (case find_provider providers (dget unverified ''iss'') of
             None \<Rightarrow> reject [] ''unknown issuer''
           | Some p \<Rightarrow>
               (case rbind (signing_key ce p token)
                       (jwt_decode (ce_lib ce) (context_options (cp_issuer p) audience) now token) of
                  Inl e \<Rightarrow> if is_jwt_error e \<or> is_value_error e
                           then Inl (ValueError (cp_id p @ str '': '' @ ce_exc_name ce e)) else Inl e
                | Inr claims \<Rightarrow> rmap (Pair p) (check_claims (ce_time ce now) p tenant_id user_id claims))))"

section \<open>A request's tokens\<close>

record verified_context =
  vc_facts :: pydict
  vc_rejected :: "pystr list"

definition no_context :: verified_context where
  "no_context = \<lparr>vc_facts = [], vc_rejected = []\<rparr>"

fun error_text :: "pyexc \<Rightarrow> pystr" where
  "error_text (ValueError m) = m"
| "error_text (ConfigError m) = m"
| "error_text (TicketError m) = m"
| "error_text _ = []"

definition add_token :: "verified_context \<Rightarrow> (context_provider \<times> pydict) res \<Rightarrow> verified_context res" where
  "add_token vc r =
     (case r of
        Inl e \<Rightarrow> if is_value_error e then Inr (vc\<lparr>vc_rejected := vc_rejected vc @ [error_text e]\<rparr>) else Inl e
      | Inr (p, facts) \<Rightarrow>
          if map_of (vc_facts vc) (cp_id p) \<noteq> None
          then Inr (vc\<lparr>vc_rejected := vc_rejected vc @ [cp_id p @ str '': duplicate'']\<rparr>)
          else Inr (vc\<lparr>vc_facts := AList.update (cp_id p) (VDict facts) (vc_facts vc)\<rparr>))"

fun verify_tokens :: "(pystr \<Rightarrow> (context_provider \<times> pydict) res) \<Rightarrow> verified_context \<Rightarrow> pystr list \<Rightarrow> verified_context res" where
  "verify_tokens f vc [] = Inr vc"
| "verify_tokens f vc (t # ts) = rbind (add_token vc (f t)) (\<lambda>vc'. verify_tokens f vc' ts)"

definition audience :: "environ \<Rightarrow> pystr" where
  "audience env = (let a = py_strip (env_get env ''AXG_CONTEXT_AUDIENCE'' (str ''axg'')) in if a = [] then str ''axg'' else a)"

fun is_config_error :: "pyexc \<Rightarrow> bool" where
  "is_config_error (ConfigError _) \<longleftrightarrow> True"
| "is_config_error _ \<longleftrightarrow> False"

definition verify_signed_context ::
    "context_env \<Rightarrow> int \<Rightarrow> pystr list \<Rightarrow> pystr \<Rightarrow> pystr option \<Rightarrow> verified_context res" where
  "verify_signed_context ce now tokens tenant_id user_id =
     (if tokens = [] then Inr no_context
      else (case load_providers (ce_environ ce) of
          Inl e \<Rightarrow>
            if is_config_error e
            then Inr \<lparr>vc_facts = [], vc_rejected = replicate (length tokens) (str ''provider configuration invalid'')\<rparr>
            else Inl e
        | Inr providers \<Rightarrow>
            verify_tokens (verify_token ce now providers tenant_id user_id (audience (ce_environ ce))) no_context tokens))"

section \<open>What a verified fact rests on\<close>

text \<open>A token that vouches for \<open>facts\<close>: the whole list of checks, as one statement.\<close>

definition vouches ::
    "context_env \<Rightarrow> int \<Rightarrow> context_provider list \<Rightarrow> pystr \<Rightarrow> pystr option \<Rightarrow> pystr \<Rightarrow> pystr \<Rightarrow> context_provider \<Rightarrow> pydict \<Rightarrow> bool" where
  "vouches ce now providers tenant_id user_id aud token p facts \<longleftrightarrow> p \<in> set providers \<and>
     (\<exists>key claims iat. signing_key ce p token = Inr key
        \<and> jwt_decode (ce_lib ce) (context_options (cp_issuer p) aud) now token key = Inr claims
        \<and> map_of claims (str ''iat'') = Some iat \<and> too_old (ce_time ce now) (cp_max_age_seconds p + LEEWAY_SECONDS) iat = Inr False
        \<and> map_of claims (str ''tenant_id'') = Some (VStr tenant_id)
        \<and> (map_of claims (str ''sub'') = None \<or> map_of claims (str ''sub'') = Some (opt_str user_id))
        \<and> map_of claims (str ''context'') = Some (VDict facts))"

lemma check_claimsD:
  assumes "check_claims time p tenant_id user_id claims = Inr facts"
  obtains iat where "map_of claims (str ''iat'') = Some iat"
    "too_old time (cp_max_age_seconds p + LEEWAY_SECONDS) iat = Inr False"
    "map_of claims (str ''tenant_id'') = Some (VStr tenant_id)"
    "map_of claims (str ''sub'') = None \<or> map_of claims (str ''sub'') = Some (opt_str user_id)"
    "map_of claims (str ''context'') = Some (VDict facts)"
proof -
  from assms obtain iat where i: "claim claims ''iat'' = Inr iat"
    "too_old time (cp_max_age_seconds p + LEEWAY_SECONDS) iat = Inr False"
    by (auto simp: check_claims_def rbind_eq_Inr reject_def split: if_splits)
  with assms obtain tenant where t: "claim claims ''tenant_id'' = Inr tenant"
    by (cases "claim claims ''tenant_id''") (simp_all add: check_claims_def)
  from assms i t have tu: "tenant = VStr tenant_id"
    "\<not> (case map_of claims (str ''sub'') of None \<Rightarrow> False | Some v \<Rightarrow> v \<noteq> opt_str user_id)"
    by (simp_all add: check_claims_def reject_def split: if_splits)
  from assms i t tu have "rbind (claim claims ''context'') (\<lambda>c.
      (case c of VDict facts \<Rightarrow> Inr facts | _ \<Rightarrow> reject (cp_id p) '': context is not an object'')) = Inr facts"
    by (simp add: check_claims_def)
  then obtain c where c: "claim claims ''context'' = Inr c"
    "(case c of VDict facts \<Rightarrow> Inr facts | _ \<Rightarrow> reject (cp_id p) '': context is not an object'') = Inr facts"
    unfolding rbind_eq_Inr by blast
  then have "claim claims ''context'' = Inr (VDict facts)" by (cases c) (simp_all add: reject_def)
  with i t tu that show thesis by (auto simp: claim_def split: option.splits)
qed

lemma find_providerD: "find_provider providers issuer = Some p \<Longrightarrow> p \<in> set providers \<and> issuer = VStr (cp_issuer p)"
  by (auto simp: find_provider_def find_Some_iff split: pyval.splits)

lemma verify_token_vouches:
  assumes "verify_token ce now providers tenant_id user_id aud token = Inr (p, facts)"
  shows "vouches ce now providers tenant_id user_id aud token p facts"
proof -
  from assms obtain unverified where u: "jwt_claims (ce_lib ce) token = Inr unverified"
    by (auto simp: verify_token_def reject_def split: sum.splits if_splits)
  with assms obtain q where q: "find_provider providers (dget unverified ''iss'') = Some q"
    by (cases "find_provider providers (dget unverified ''iss'')") (simp_all add: verify_token_def reject_def)
  let ?decoded = "rbind (signing_key ce q token)
      (jwt_decode (ce_lib ce) (context_options (cp_issuer q) aud) now token)"
  from assms u q obtain claims where d: "?decoded = Inr claims"
    by (cases ?decoded) (simp_all add: verify_token_def split: if_splits)
  with assms u q have "rmap (Pair q) (check_claims (ce_time ce now) q tenant_id user_id claims) = Inr (p, facts)"
    by (simp add: verify_token_def)
  with d have c: "?decoded = Inr claims" "check_claims (ce_time ce now) q tenant_id user_id claims = Inr facts" "q = p"
    by (simp_all add: rmap_eq_Inr)
  from find_providerD [OF q] c(3) have "p \<in> set providers" by simp
  moreover from c obtain key where "signing_key ce p token = Inr key"
    "jwt_decode (ce_lib ce) (context_options (cp_issuer p) aud) now token key = Inr claims"
    by (auto simp: rbind_eq_Inr)
  moreover obtain iat where "map_of claims (str ''iat'') = Some iat"
    "too_old (ce_time ce now) (cp_max_age_seconds p + LEEWAY_SECONDS) iat = Inr False"
    "map_of claims (str ''tenant_id'') = Some (VStr tenant_id)"
    "map_of claims (str ''sub'') = None \<or> map_of claims (str ''sub'') = Some (opt_str user_id)"
    "map_of claims (str ''context'') = Some (VDict facts)"
    by (rule check_claimsD [OF c(2) [unfolded c(3)]])
  ultimately show ?thesis unfolding vouches_def by blast
qed

text \<open>
  One invariant for the loop: every fact comes from a token already seen, each provider counts once,
  and every token is either a fact or a rejection.
\<close>

definition tokens_inv ::
    "(pystr \<Rightarrow> context_provider \<Rightarrow> pydict \<Rightarrow> bool) \<Rightarrow> pystr list \<Rightarrow> verified_context \<Rightarrow> bool" where
  "tokens_inv V seen vc \<longleftrightarrow> dict_ok (vc_facts vc)
     \<and> length (vc_facts vc) + length (vc_rejected vc) = length seen
     \<and> (\<forall>pid v. map_of (vc_facts vc) pid = Some v \<longrightarrow>
          (\<exists>t p facts. t \<in> set seen \<and> cp_id p = pid \<and> v = VDict facts \<and> V t p facts))"

lemma length_update_new: "map_of d k = None \<Longrightarrow> length (AList.update k v d) = Suc (length d)"
  by (induction d) auto

lemma tokens_inv_reject:
  assumes "tokens_inv V seen vc"
  shows "tokens_inv V (seen @ [t]) (vc\<lparr>vc_rejected := vc_rejected vc @ [m]\<rparr>)"
  using assms unfolding tokens_inv_def by simp blast

lemma tokens_inv_accept:
  assumes "tokens_inv V seen vc" "map_of (vc_facts vc) (cp_id p) = None" "V t p facts"
  shows "tokens_inv V (seen @ [t]) (vc\<lparr>vc_facts := AList.update (cp_id p) (VDict facts) (vc_facts vc)\<rparr>)"
  using assms unfolding tokens_inv_def
  by (simp add: dict_ok_update length_update_new map_of_update) blast

lemma add_token_inv:
  assumes "tokens_inv V seen vc" "add_token vc r = Inr vc'" "\<And>p facts. r = Inr (p, facts) \<Longrightarrow> V t p facts"
  shows "tokens_inv V (seen @ [t]) vc'"
proof (cases r)
  case (Inl e)
  with assms(2) have "vc' = vc\<lparr>vc_rejected := vc_rejected vc @ [error_text e]\<rparr>"
    by (auto simp: add_token_def split: if_splits)
  with tokens_inv_reject [OF assms(1)] show ?thesis by simp
next
  case (Inr pf)
  obtain p facts where pf: "pf = (p, facts)" by (cases pf)
  show ?thesis
  proof (cases "map_of (vc_facts vc) (cp_id p)")
    case None
    with assms(2) Inr pf have "vc' = vc\<lparr>vc_facts := AList.update (cp_id p) (VDict facts) (vc_facts vc)\<rparr>"
      by (simp add: add_token_def)
    with tokens_inv_accept [OF assms(1) None assms(3)] Inr pf show ?thesis by simp
  next
    case (Some v)
    with assms(2) Inr pf have "vc' = vc\<lparr>vc_rejected := vc_rejected vc @ [cp_id p @ str '': duplicate'']\<rparr>"
      by (simp add: add_token_def)
    with tokens_inv_reject [OF assms(1)] show ?thesis by simp
  qed
qed

lemma verify_tokens_inv:
  assumes "tokens_inv V seen vc" "verify_tokens f vc ts = Inr vc'"
    and "\<And>t p facts. t \<in> set ts \<Longrightarrow> f t = Inr (p, facts) \<Longrightarrow> V t p facts"
  shows "tokens_inv V (seen @ ts) vc'"
  using assms
proof (induction ts arbitrary: seen vc)
  case (Cons t ts)
  from Cons.prems(2) obtain vc1 where v: "add_token vc (f t) = Inr vc1" "verify_tokens f vc1 ts = Inr vc'"
    by (auto simp: rbind_eq_Inr)
  have "tokens_inv V (seen @ [t]) vc1"
    by (rule add_token_inv [OF Cons.prems(1) v(1)]) (use Cons.prems(3) in simp)
  from Cons.IH [OF this v(2)] Cons.prems(3) show ?case by simp
qed simp

lemma tokens_inv_start: "tokens_inv V [] no_context"
  by (simp add: tokens_inv_def no_context_def)

lemma verified_context_inv:
  assumes "verify_signed_context ce now tokens tenant_id user_id = Inr vc" "load_providers (ce_environ ce) = Inr providers"
  shows "tokens_inv (vouches ce now providers tenant_id user_id (audience (ce_environ ce))) tokens vc"
proof (cases "tokens = []")
  case True
  with assms(1) show ?thesis by (simp add: verify_signed_context_def tokens_inv_start)
next
  case False
  with assms have "verify_tokens (verify_token ce now providers tenant_id user_id (audience (ce_environ ce)))
      no_context tokens = Inr vc" by (simp add: verify_signed_context_def)
  from verify_tokens_inv [OF tokens_inv_start this] verify_token_vouches show ?thesis by simp
qed

lemma load_providers_unique:
  "load_providers env = Inr ps \<Longrightarrow> distinct (map cp_issuer ps) \<and> distinct (map cp_id ps)"
  by (auto simp: load_providers_def Let_def rbind_eq_Inr config_error_def split: if_splits sum.splits pyval.splits)

lemma verified_context_dict: "verify_signed_context ce now tokens tenant user = Inr vc \<Longrightarrow> dict_ok (vc_facts vc)"
proof (cases "load_providers (ce_environ ce)")
  case (Inr ps)
  assume "verify_signed_context ce now tokens tenant user = Inr vc"
  from verified_context_inv [OF this Inr] show ?thesis by (simp add: tokens_inv_def)
next
  case (Inl e)
  assume "verify_signed_context ce now tokens tenant user = Inr vc"
  with Inl show ?thesis by (auto simp: verify_signed_context_def no_context_def split: if_splits)
qed

section \<open>Properties\<close>

text \<open>
  C28. A verified fact was signed for this request: every provider under \<open>verified\<close> is configured, and
  its facts are the \<open>context\<close> of one of the request's tokens that verifies under the provider's key,
  issuer and audience, is within its age, and names the request's tenant and, if any, user. Each
  provider counts once, and every token is either used or rejected.
\<close>

theorem verified_facts_are_vouched:
  assumes "verify_signed_context ce now tokens tenant_id user_id = Inr vc"
    and "load_providers (ce_environ ce) = Inr providers"
  shows "dict_ok (vc_facts vc) \<and> length (vc_facts vc) + length (vc_rejected vc) = length tokens
    \<and> (\<forall>pid v. map_of (vc_facts vc) pid = Some v \<longrightarrow>
         (\<exists>token p facts. token \<in> set tokens \<and> cp_id p = pid \<and> v = VDict facts
            \<and> vouches ce now providers tenant_id user_id (audience (ce_environ ce)) token p facts))"
  using verified_context_inv [OF assms] by (simp add: tokens_inv_def)

definition ledger_claims :: pydict where
  "ledger_claims = [(str ''iss'', VStr (str ''https://ledger'')), (str ''aud'', VStr (str ''axg'')),
     (str ''iat'', VInt 900), (str ''exp'', VInt 2000), (str ''tenant_id'', VStr (str ''t1'')),
     (str ''context'', VDict [(str ''balance'', VInt 40)])]"

definition example_context :: context_env where
  "example_context = \<lparr>ce_lib = example_lib [(str ''ctx'', str ''k'', ledger_claims, [])] [],
     ce_environ = (\<lambda>n. if n = ''AXG_CONTEXT_PROVIDERS'' then
       Some (str (''[{'' @ [CHR 0x22] @ ''id'' @ [CHR 0x22] @ '':'' @ [CHR 0x22] @ ''ledger'' @ [CHR 0x22] @ '',''
         @ [CHR 0x22] @ ''issuer'' @ [CHR 0x22] @ '':'' @ [CHR 0x22] @ ''https://ledger'' @ [CHR 0x22] @ '',''
         @ [CHR 0x22] @ ''public_key'' @ [CHR 0x22] @ '':'' @ [CHR 0x22] @ ''pk'' @ [CHR 0x22] @ ''}]'')) else None),
     ce_time = (\<lambda>now. Fin (of_int now)), ce_jwks_key = (\<lambda>_ _. Inl (JwtError [])), ce_exc_name = (\<lambda>_. [])\<rparr>"

lemma example_providers: "load_providers (ce_environ example_context)
    = Inr [\<lparr>cp_id = str ''ledger'', cp_issuer = str ''https://ledger'', cp_max_age_seconds = 300,
        cp_public_key = Some (str ''pk''), cp_jwks_url = []\<rparr>]"
  by code_simp

lemma example_verified: "verify_signed_context example_context 1000 [str ''ctx'', str ''bad''] (str ''t1'') None
    = Inr \<lparr>vc_facts = [(str ''ledger'', VDict [(str ''balance'', VInt 40)])], vc_rejected = [str ''malformed token'']\<rparr>"
  by code_simp

lemma verified_facts_are_vouched_witness:
  "\<exists>token p facts. token \<in> set [str ''ctx'', str ''bad''] \<and> cp_id p = str ''ledger''
     \<and> vouches example_context 1000 [\<lparr>cp_id = str ''ledger'', cp_issuer = str ''https://ledger'',
         cp_max_age_seconds = 300, cp_public_key = Some (str ''pk''), cp_jwks_url = []\<rparr>] (str ''t1'') None
         (audience (ce_environ example_context)) token p facts"
proof -
  have "map_of (vc_facts \<lparr>vc_facts = [(str ''ledger'', VDict [(str ''balance'', VInt 40)])],
      vc_rejected = [str ''malformed token'']\<rparr>) (str ''ledger'') = Some (VDict [(str ''balance'', VInt 40)])" by simp
  with verified_facts_are_vouched [OF example_verified example_providers] show ?thesis by blast
qed

text \<open>
  A broken provider configuration fails closed: no token is accepted and every token is reported
  as rejected.
\<close>

theorem broken_providers_reject_all:
  assumes "load_providers (ce_environ ce) = Inl (ConfigError m)"
  shows "\<exists>vc. verify_signed_context ce now tokens tenant_id user_id = Inr vc \<and> vc_facts vc = []
    \<and> length (vc_rejected vc) = length tokens"
  using assms by (simp add: verify_signed_context_def no_context_def)

lemma broken_providers_reject_all_witness:
  "\<exists>vc. verify_signed_context (example_context\<lparr>ce_environ := (\<lambda>_. Some (str ''broken''))\<rparr>) 1000 [str ''ctx''] (str ''t1'') None
     = Inr vc \<and> vc_facts vc = [] \<and> length (vc_rejected vc) = length [str ''ctx'']"
proof -
  have "load_providers (ce_environ (example_context\<lparr>ce_environ := (\<lambda>_. Some (str ''broken''))\<rparr>))
      = Inl (ConfigError (str ''AXG_CONTEXT_PROVIDERS is not valid JSON''))" by code_simp
  then show ?thesis by (rule broken_providers_reject_all)
qed

end
