(* ===== verification/Engine.thy ===== *)
theory Engine
  imports Rules SignedContext PluginLoader
begin

text \<open>
  \<open>axg/engine.py\<close>, the decision engine: load the policy, verify the signed context, evaluate the rules,
  combine their decisions with permissions and the uncertainty gate, and issue a Passport for ALLOW or
  an approval ticket for CONFIRM and SUGGEST. The definitions follow \<open>_evaluate\<close> step by step; an
  exception that escapes it is \<open>Inl\<close>. Python's \<open>in\<close> on a set hashes its left side, so an unhashable
  value raises \<open>TypeError\<close> there.
\<close>

section \<open>The strictest decision\<close>

text \<open>\<open>max(xs, key=rank)\<close> of a nonempty list: the first element of the greatest rank.\<close>

fun max_by :: "('a \<Rightarrow> int) \<Rightarrow> 'a \<Rightarrow> 'a list \<Rightarrow> 'a" where
  "max_by rank best [] = best"
| "max_by rank best (x # xs) = max_by rank (if rank best < rank x then x else best) xs"

text \<open>\<open>sorted(xs, key=rank, reverse=True)\<close> keeps the order of equal elements.\<close>

definition sort_desc :: "('a \<Rightarrow> int) \<Rightarrow> 'a list \<Rightarrow> 'a list" where
  "sort_desc rank xs = sort_key (\<lambda>x. - rank x) xs"

section \<open>Environment\<close>

record engine_env =
  en_loader :: loader_env
  en_context :: context_env
  en_lib :: crypto_lib
  en_keys :: key_manager

text \<open>What one call sees of the clock, \<open>uuid4()\<close> and the trace.\<close>

record moment =
  mo_now :: int
  mo_uuid :: pystr
  mo_iso :: pystr
  mo_trace_id :: "pystr option"

section \<open>Scores\<close>

fun DEFAULT_PENALTY :: "decision \<Rightarrow> pyfloat" where
  "DEFAULT_PENALTY ALLOW = Fin 0"
| "DEFAULT_PENALTY SUGGEST = fl (1 / 10)"
| "DEFAULT_PENALTY CONFIRM = Fin (1 / 4)"
| "DEFAULT_PENALTY BLOCK = Fin (1 / 2)"

definition clamp :: "pyfloat \<Rightarrow> pyfloat" where
  "clamp v = fmax (Fin 0) (fmin (Fin 1) (round4 v))"

definition rule_penalty :: "policy_rule \<Rightarrow> pyfloat" where
  "rule_penalty r = (if rule_confidence_penalty r = Fin 0 then DEFAULT_PENALTY (rule_decision r) else rule_confidence_penalty r)"

definition action_of :: "plugin \<Rightarrow> decision_request \<Rightarrow> action_policy option" where
  "action_of p rq = map_of (pl_actions p) (rq_action_type rq)"

definition is_uncertain_source :: "plugin \<Rightarrow> pystr \<Rightarrow> bool" where
  "is_uncertain_source p source \<longleftrightarrow> source \<in> set (uncertain_sources (pl_uncertainty_gate p))
     \<or> list_ex (endswith source) (uncertain_source_suffixes (pl_uncertainty_gate p))"

text \<open>\<open>v in gated\<close> for a set of strings.\<close>

definition in_gated :: "plugin \<Rightarrow> pyval \<Rightarrow> bool res" where
  "in_gated p v =
     (if \<not> hashable v then Inl TypeError
      else Inr (case v of VStr s \<Rightarrow> s \<in> set (gate_actions (pl_uncertainty_gate p)) | _ \<Rightarrow> False))"

definition is_gated_write :: "plugin \<Rightarrow> decision_request \<Rightarrow> bool res" where
  "is_gated_write p rq =
     (if rq_action_type rq \<in> set (gate_actions (pl_uncertainty_gate p)) then Inr True
      else rbind (in_gated p (dget (rq_payload rq) ''proposed_action'')) (\<lambda>b.
             if b then Inr True else in_gated p (dget (rq_intent rq) ''resolved'')))"

definition unknown_intent :: "decision_request \<Rightarrow> bool" where
  "unknown_intent rq \<longleftrightarrow> dget (rq_intent rq) ''original'' = VStr (str ''unknown'')"

definition fallback_used :: "decision_request \<Rightarrow> bool" where
  "fallback_used rq \<longleftrightarrow> dget (rq_intent rq) ''fallback_used'' = VBool True"

definition uncertainty_score :: "plugin \<Rightarrow> decision_request \<Rightarrow> pyfloat res" where
  "uncertainty_score p rq =
     (let s1 = (if unknown_intent rq then fadd (Fin 0) (fl (8 / 10)) else Fin 0);
          s2 = (if fallback_used rq then fadd s1 (fl (2 / 10)) else s1);
          s3 = (if is_uncertain_source p (rq_source rq) then fadd s2 (fl (1 / 10)) else s2)
      in rmap (\<lambda>gated. clamp (if gated \<and> is_uncertain_source p (rq_source rq) \<and> rq_intent rq = []
                             then fmax s3 (gate_threshold (pl_uncertainty_gate p)) else s3))
           (is_gated_write p rq))"

definition scores :: "plugin \<Rightarrow> decision_request \<Rightarrow> policy_rule list \<Rightarrow> decision_scores res" where
  "scores p rq triggered =
     (let penalty = fsum (map rule_penalty triggered);
          base = (case action_of p rq of Some a \<Rightarrow> base_risk a | None \<Rightarrow> high_risk_threshold (pl_thresholds p));
          risk_score = clamp (fadd base (fsum (map rule_risk_delta triggered)));
          level = (if fle (high_risk_threshold (pl_thresholds p)) risk_score then str ''high''
                   else if fle (fl (4 / 10)) risk_score then str ''medium'' else str ''low'')
      in rmap (\<lambda>u. \<lparr>sc_llm_confidence = llm_confidence (rq_llm rq),
               sc_final_confidence = clamp (fsub (llm_confidence (rq_llm rq)) penalty),
               sc_risk_score = risk_score, sc_risk_level = level, sc_uncertainty_score = u\<rparr>)
           (uncertainty_score p rq))"

definition requires_confirmation :: "plugin \<Rightarrow> decision_request \<Rightarrow> decision_scores \<Rightarrow> bool res" where
  "requires_confirmation p rq sc =
     rmap (\<lambda>gated. gated \<and> fle (gate_threshold (pl_uncertainty_gate p)) (sc_uncertainty_score sc)) (is_gated_write p rq)"

section \<open>The decision\<close>

definition permission_decision :: "plugin \<Rightarrow> decision_request \<Rightarrow> caller \<Rightarrow> decision option" where
  "permission_decision p rq c =
     (case action_of p rq of
        None \<Rightarrow> None
      | Some policy \<Rightarrow>
          (let granted = (case rq_agent rq of None \<Rightarrow> [] | Some a \<Rightarrow> effective_permissions c (ag_permissions a));
               missing = filter (\<lambda>perm. perm \<notin> set granted) (required_permissions policy)
           in if missing \<noteq> [] then Some BLOCK else None))"

definition confidence_decision :: "plugin \<Rightarrow> decision_request \<Rightarrow> decision" where
  "confidence_decision p rq =
     (if action_of p rq = None then CONFIRM
      else if fle (allow_min_confidence (pl_thresholds p)) (llm_confidence (rq_llm rq)) then ALLOW
      else if fle (suggest_min_confidence (pl_thresholds p)) (llm_confidence (rq_llm rq)) then SUGGEST
      else CONFIRM)"

definition final_decision ::
    "plugin \<Rightarrow> decision_request \<Rightarrow> policy_rule list \<Rightarrow> decision_scores \<Rightarrow> caller \<Rightarrow> decision res" where
  "final_decision p rq triggered sc c =
     rmap (\<lambda>gate.
         let decisions = map rule_decision triggered
               @ (case permission_decision p rq c of None \<Rightarrow> [] | Some d \<Rightarrow> [d]) @ (if gate then [CONFIRM] else [])
         in case decisions of [] \<Rightarrow> confidence_decision p rq | d # ds \<Rightarrow> max_by DECISION_PRECEDENCE d ds)
       (requires_confirmation p rq sc)"

section \<open>Payload, flags and reason\<close>

definition setdefault :: "'k \<Rightarrow> 'v \<Rightarrow> ('k \<times> 'v) list \<Rightarrow> ('k \<times> 'v) list" where
  "setdefault k v d = (if map_of d k = None then d @ [(k, v)] else d)"

definition base_payload :: "decision_request \<Rightarrow> pydict" where
  "base_payload rq =
     (let payload = setdefault (str ''proposed_action'') (VStr (rq_action_type rq)) (rq_payload rq)
      in case map_of (rq_payload rq) (str ''proposed_category'') of
           None \<Rightarrow> payload
         | Some v \<Rightarrow> AList.update (str ''suggested_category'') v payload)"

definition actionable_payload :: "decision_request \<Rightarrow> policy_rule list \<Rightarrow> pydict" where
  "actionable_payload rq triggered = foldl (\<lambda>d r. dmerge d (rule_actionable_payload r)) (base_payload rq) triggered"

definition by_strictness :: "policy_rule list \<Rightarrow> policy_rule list" where
  "by_strictness rules = sort_desc (\<lambda>r. DECISION_PRECEDENCE (rule_decision r)) rules"

definition reason ::
    "plugin \<Rightarrow> decision \<Rightarrow> policy_rule list \<Rightarrow> decision_request \<Rightarrow> decision_scores \<Rightarrow> pystr res" where
  "reason p d triggered rq sc =
     (let rule_reasons = join (str '' '') (map rule_reason (by_strictness triggered))
      in if d = BLOCK
         then Inr (if list_ex (\<lambda>r. rule_decision r = BLOCK) triggered then rule_reasons
                   else str ''The proposed action is not permitted for this agent.'')
         else rmap (\<lambda>gate.
             if gate then gate_reason (pl_uncertainty_gate p)
             else if triggered \<noteq> [] then rule_reasons
             else if d = ALLOW
             then str (''No policy rule was triggered and confidence is within the automatic ''
                    @ ''execution threshold.'')
             else if d = SUGGEST
             then str ''No policy rule was triggered, but confidence recommends assisted execution.''
             else str ''The proposal requires confirmation before execution.'')
           (requires_confirmation p rq sc))"

text \<open>\<open>list(dict.fromkeys(flags))\<close>: the first occurrence of each.\<close>

fun from_keys :: "'a list \<Rightarrow> 'a list" where
  "from_keys [] = []"
| "from_keys (x # xs) = x # filter (\<lambda>y. y \<noteq> x) (from_keys xs)"

definition audit_flags ::
    "plugin \<Rightarrow> policy_rule list \<Rightarrow> decision_request \<Rightarrow> decision_scores \<Rightarrow> pystr list res" where
  "audit_flags p triggered rq sc =
     rmap (\<lambda>gate. from_keys
         (concat (map (\<lambda>r. if rule_audit_flags r = [] then [rule_id r] else rule_audit_flags r) triggered)
          @ (if unknown_intent rq then [str ''unknown_intent''] else [])
          @ (if fallback_used rq then [str ''fallback_used''] else [])
          @ (if gate then [gate_audit_flag (pl_uncertainty_gate p)] else [])
          @ (if rq_shadow_mode rq then [str ''shadow_mode_active''] else [])))
       (requires_confirmation p rq sc)"

definition nonempty :: "pystr option \<Rightarrow> pystr option" where
  "nonempty s = (case s of Some t \<Rightarrow> if t = [] then None else Some t | None \<Rightarrow> None)"

fun first_role :: "policy_rule list \<Rightarrow> pystr option" where
  "first_role [] = None"
| "first_role (r # rs) = (case nonempty (rule_approver_role r) of Some t \<Rightarrow> Some t | None \<Rightarrow> first_role rs)"

definition approver_role :: "plugin \<Rightarrow> decision_request \<Rightarrow> policy_rule list \<Rightarrow> pystr" where
  "approver_role p rq triggered =
     (case first_role (by_strictness triggered) of
        Some role \<Rightarrow> role
      | None \<Rightarrow>
          (case (case action_of p rq of None \<Rightarrow> None | Some a \<Rightarrow> nonempty (action_approver_role a)) of
             Some role \<Rightarrow> role
           | None \<Rightarrow> default_role (pl_approval p)))"

section \<open>Evaluation\<close>

definition rule_data :: "decision_request \<Rightarrow> verified_context \<Rightarrow> pydict" where
  "rule_data rq verified = AList.update (str ''verified'') (VDict (vc_facts verified)) (request_dump rq)"

definition missing_context :: "plugin \<Rightarrow> decision_request \<Rightarrow> verified_context \<Rightarrow> pystr list" where
  "missing_context p rq verified =
     filter (\<lambda>q. map_of (vc_facts verified) q = None) (case action_of p rq of None \<Rightarrow> [] | Some a \<Rightarrow> required_context a)"

text \<open>The decision, flags and reason as \<open>_evaluate\<close> revises them.\<close>

record verdict =
  vd_decision :: decision
  vd_flags :: "pystr list"
  vd_reason :: pystr

definition after_context :: "verified_context \<Rightarrow> pystr list \<Rightarrow> verdict \<Rightarrow> verdict" where
  "after_context verified missing v =
     (let v1 = (if vc_rejected verified \<noteq> [] then v\<lparr>vd_flags := vd_flags v @ [str ''signed_context_rejected'']\<rparr> else v)
      in if missing = [] then v1
         else (let v2 = v1\<lparr>vd_flags := vd_flags v1 @ [str ''verified_context_missing'']\<rparr>
               in if DECISION_PRECEDENCE (vd_decision v2) < DECISION_PRECEDENCE CONFIRM
                  then v2\<lparr>vd_decision := CONFIRM, vd_reason := str ''This action needs verified context from ''
                         @ join (str '', '') missing @ str ('', which was missing or invalid. ''
                         @ ''Confirmation is required before execution.'')\<rparr>
                  else v2))"

definition after_authentication :: "caller \<Rightarrow> verdict \<Rightarrow> verdict" where
  "after_authentication c v =
     (if vd_decision v = ALLOW \<and> \<not> cl_authenticated c
      then v\<lparr>vd_decision := CONFIRM, vd_flags := vd_flags v @ [str ''unauthenticated_caller''],
             vd_reason := str ''The caller is not authenticated. Confirmation is required before execution.''\<rparr>
      else v)"

definition signing_args :: "plugin \<Rightarrow> decision_request \<Rightarrow> pydict \<Rightarrow> caller \<Rightarrow> decision_args" where
  "signing_args p rq payload c =
     \<lparr>da_execution_id = rq_execution_id rq, da_app_id = rq_app_id rq, da_tenant_id = rq_tenant_id rq,
      da_decision = decision_value ALLOW, da_action_type = rq_action_type rq, da_payload = payload,
      da_client_id = cl_client_id c, da_policy = version_label p, da_expires_in_minutes = 5,
      da_jti = None, da_approval = None\<rparr>"

definition after_signing ::
    "engine_env \<Rightarrow> moment \<Rightarrow> plugin \<Rightarrow> decision_request \<Rightarrow> pydict \<Rightarrow> caller \<Rightarrow> verdict \<Rightarrow> verdict \<times> (pystr \<times> pystr) option" where
  "after_signing en mo p rq payload c v =
     (if vd_decision v = ALLOW \<and> \<not> rq_shadow_mode rq
      then (case sign_decision (en_lib en) (en_keys en) (mo_now mo) (mo_uuid mo) (signing_args p rq payload c) of
              Inr token_jti \<Rightarrow> (v, Some token_jti)
            | Inl _ \<Rightarrow>
                (v\<lparr>vd_decision := CONFIRM, vd_flags := vd_flags v @ [str ''passport_signing_failed''],
                   vd_reason := str ''AXG could not issue a passport. Confirmation is required before execution.''\<rparr>, None))
      else (v, None))"

definition approval_args :: "plugin \<Rightarrow> decision_request \<Rightarrow> policy_rule list \<Rightarrow> decision \<Rightarrow> pydict \<Rightarrow> caller \<Rightarrow> ticket_args" where
  "approval_args p rq triggered d payload c =
     \<lparr>ta_execution_id = rq_execution_id rq, ta_app_id = rq_app_id rq, ta_tenant_id = rq_tenant_id rq,
      ta_plugin_id = rq_plugin_id rq, ta_policy = version_label p, ta_decision = decision_value d,
      ta_action_type = rq_action_type rq, ta_payload = payload, ta_client_id = cl_client_id c,
      ta_required_role = approver_role p rq triggered, ta_user_id = rq_user_id rq,
      ta_agent_id = map_option ag_id (rq_agent rq), ta_ttl_seconds = ticket_ttl_seconds (pl_approval p)\<rparr>"

definition approval_challenge_for ::
    "engine_env \<Rightarrow> moment \<Rightarrow> plugin \<Rightarrow> decision_request \<Rightarrow> policy_rule list \<Rightarrow> decision \<Rightarrow> pydict \<Rightarrow> caller \<Rightarrow> approval_challenge option" where
  "approval_challenge_for en mo p rq triggered d payload c =
     (case sign_approval_ticket (en_lib en) (en_keys en) (mo_now mo) (mo_uuid mo) (approval_args p rq triggered d payload c) of
        Inr ch \<Rightarrow> Some ch | Inl _ \<Rightarrow> None)"

definition wants_approval :: "decision_request \<Rightarrow> caller \<Rightarrow> verdict \<Rightarrow> bool" where
  "wants_approval rq c v \<longleftrightarrow> (vd_decision v = CONFIRM \<or> vd_decision v = SUGGEST) \<and> cl_authenticated c
     \<and> \<not> rq_shadow_mode rq \<and> str ''passport_signing_failed'' \<notin> set (vd_flags v)"

definition first_verdict ::
    "plugin \<Rightarrow> decision_request \<Rightarrow> policy_rule list \<Rightarrow> decision_scores \<Rightarrow> caller \<Rightarrow> verdict res" where
  "first_verdict p rq triggered sc c =
     rbind (final_decision p rq triggered sc c) (\<lambda>d.
       rbind (audit_flags p triggered rq sc) (\<lambda>flags.
         rmap (\<lambda>why. \<lparr>vd_decision = d, vd_flags = flags, vd_reason = why\<rparr>) (reason p d triggered rq sc)))"

definition response_of ::
    "engine_env \<Rightarrow> moment \<Rightarrow> plugin \<Rightarrow> decision_request \<Rightarrow> caller \<Rightarrow> verified_context \<Rightarrow> policy_rule list
       \<Rightarrow> decision_scores \<Rightarrow> verdict \<Rightarrow> decision_response" where
  "response_of en mo p rq c verified triggered sc v =
     (let payload = actionable_payload rq triggered
      in case after_signing en mo p rq payload c
                (after_authentication c (after_context verified (missing_context p rq verified) v)) of
           (v', passport) \<Rightarrow>
             \<lparr>rs_execution_id = rq_execution_id rq, rs_plugin_version = version_label p, rs_decision = vd_decision v',
              rs_passport = map_option fst passport, rs_passport_id = map_option snd passport, rs_scores = sc,
              rs_actionable_payload = payload, rs_reason = vd_reason v', rs_audit_flags = vd_flags v',
              rs_rules_triggered = map (\<lambda>r. \<lparr>tr_id = rule_id r, tr_decision = rule_decision r, tr_reason = rule_reason r\<rparr>) triggered,
              rs_shadow_mode = rq_shadow_mode rq, rs_metadata = rq_metadata rq,
              rs_approval = (if wants_approval rq c v'
                 then approval_challenge_for en mo p rq triggered (vd_decision v') payload c else None),
              rs_verified_context = sort (map fst (vc_facts verified))\<rparr>)"

definition evaluate_policy ::
    "engine_env \<Rightarrow> moment \<Rightarrow> plugin \<Rightarrow> decision_request \<Rightarrow> caller \<Rightarrow> decision_response res" where
  "evaluate_policy en mo p rq c =
     rbind (verify_signed_context (en_context en) (mo_now mo) (rq_signed_context rq) (rq_tenant_id rq) (rq_user_id rq)) (\<lambda>verified.
       rbind (evaluate_rules (pl_rules p) (rule_data rq verified)) (\<lambda>triggered.
         rbind (scores p rq triggered) (\<lambda>sc.
           rmap (response_of en mo p rq c verified triggered sc) (first_verdict p rq triggered sc c))))"

definition fail_safe :: "decision_request \<Rightarrow> pystr \<Rightarrow> decision_response" where
  "fail_safe rq why =
     \<lparr>rs_execution_id = rq_execution_id rq, rs_plugin_version = rq_plugin_id rq @ str ''@unavailable'',
      rs_decision = CONFIRM, rs_passport = None, rs_passport_id = None,
      rs_scores = \<lparr>sc_llm_confidence = llm_confidence (rq_llm rq), sc_final_confidence = Fin 0, sc_risk_score = Fin 1,
        sc_risk_level = str ''high'', sc_uncertainty_score = Fin 1\<rparr>,
      rs_actionable_payload = [], rs_reason = str ''AXG failed safe: '' @ why,
      rs_audit_flags = [str ''plugin_load_failed''], rs_rules_triggered = [], rs_shadow_mode = False,
      rs_metadata = rq_metadata rq, rs_approval = None, rs_verified_context = []\<rparr>"

definition evaluate ::
    "engine_env \<Rightarrow> moment \<Rightarrow> plugin_cache \<Rightarrow> decision_request \<Rightarrow> caller \<Rightarrow> decision_response res \<times> plugin_cache" where
  "evaluate en mo cache rq c =
     (case load (en_loader en) cache (rq_plugin_id rq) of
        (Inl (PluginLoadError m), cache') \<Rightarrow> (Inr (fail_safe rq m), cache')
      | (Inl (Escaped e), cache') \<Rightarrow> (Inl e, cache')
      | (Inr p, cache') \<Rightarrow> (evaluate_policy en mo p rq c, cache'))"

section \<open>Records\<close>

definition or_none :: "pystr option \<Rightarrow> pystr option \<Rightarrow> pystr option" where
  "or_none a b = (case nonempty a of Some s \<Rightarrow> Some s | None \<Rightarrow> b)"

definition get_execution_record ::
    "engine_env \<Rightarrow> moment \<Rightarrow> decision_request \<Rightarrow> decision_response \<Rightarrow> execution_record res" where
  "get_execution_record en mo rq rs =
     rmap (\<lambda>hash.
       \<lparr>er_execution_id = rq_execution_id rq, er_tenant_id = rq_tenant_id rq, er_app_id = rq_app_id rq,
        er_plugin_id = rq_plugin_id rq, er_source = rq_source rq,
        er_requested_by = or_none (rq_user_id rq) (map_option ag_id (rq_agent rq)),
        er_agent_id = map_option ag_id (rq_agent rq), er_input_hash = Some hash,
        er_action_type = rq_action_type rq, er_proposal_model = llm_model (rq_llm rq),
        er_proposal_confidence = llm_confidence (rq_llm rq), er_intent_fallback_used = fallback_used rq,
        er_decision = rs_decision rs, er_policy = rs_plugin_version rs, er_risk_score = sc_risk_score (rs_scores rs),
        er_risk_level = sc_risk_level (rs_scores rs), er_rules_triggered = map tr_id (rs_rules_triggered rs),
        er_audit_flags = rs_audit_flags rs, er_passport_id = rs_passport_id rs,
        er_human_confirmation_required = (rs_decision rs = CONFIRM), er_shadow_mode = rq_shadow_mode rq,
        er_verified_context = rs_verified_context rs, er_execution_status = PENDING, er_created_at = mo_iso mo,
        er_metadata = rs_metadata rs, er_trace_id = mo_trace_id mo\<rparr>)
     (hash_payload (en_lib en) (rq_payload rq))"

definition or_text :: "pyval \<Rightarrow> pystr \<Rightarrow> pyval" where
  "or_text v dflt = (if truthy v then v else VStr dflt)"

definition get_decision_log :: "decision_request \<Rightarrow> decision_response \<Rightarrow> pydict" where
  "get_decision_log rq rs =
    [(str ''service'', VStr (str ''axg'')), (str ''component'', VStr (str ''decision_engine'')),
     (str ''event'', VStr (str ''axg.decision.evaluated'')),
     (str ''flow'', or_text (dget (rq_metadata rq) ''flow'') (rq_source rq @ [58] @ rq_action_type rq)),
     (str ''situation'', or_text (dget (rq_metadata rq) ''situation'')
        (case rs_audit_flags rs of [] \<Rightarrow> py_lower (decision_value (rs_decision rs)) | f # _ \<Rightarrow> f)),
     (str ''execution_id'', VStr (rs_execution_id rs)), (str ''tenant_id'', VStr (rq_tenant_id rq)),
     (str ''app_id'', VStr (rq_app_id rq)), (str ''plugin_id'', VStr (rq_plugin_id rq)),
     (str ''plugin_version'', VStr (rs_plugin_version rs)), (str ''source'', VStr (rq_source rq)),
     (str ''action_type'', VStr (rq_action_type rq)), (str ''decision'', VStr (decision_value (rs_decision rs))),
     (str ''llm_confidence'', VFloat (sc_llm_confidence (rs_scores rs))),
     (str ''final_confidence'', VFloat (sc_final_confidence (rs_scores rs))),
     (str ''risk_score'', VFloat (sc_risk_score (rs_scores rs))),
     (str ''risk_level'', VStr (sc_risk_level (rs_scores rs))),
     (str ''uncertainty_score'', VFloat (sc_uncertainty_score (rs_scores rs))),
     (str ''shadow_mode'', VBool (rs_shadow_mode rs)), (str ''audit_flags'', str_list (rs_audit_flags rs)),
     (str ''rules_triggered'', str_list (map tr_id (rs_rules_triggered rs)))]"

end
