(* ===== verification/EngineFacts.thy ===== *)
theory EngineFacts
  imports Engine
begin

text \<open>
  What the decision engine guarantees: the strictest demand wins, ALLOW is earned, Passports and
  approval tickets are bound to what was decided, failures are safe, scores stay in range, and verified
  facts cannot be forged by the caller.
\<close>

section \<open>The interface of a precedence\<close>

text \<open>
  A ranking without ties: the greatest element of a collection does not depend on the order or the
  multiplicity of its elements, and more elements can only raise it.
\<close>

locale precedence =
  fixes rank :: "'a \<Rightarrow> int"
  assumes rank_inj: "rank a = rank b \<Longrightarrow> a = b"
begin

lemma max_by_mem: "max_by rank b xs \<in> set (b # xs)"
proof (induction xs arbitrary: b)
  case (Cons x xs)
  from Cons.IH [of "if rank b < rank x then x else b"] show ?case by (auto split: if_splits)
qed simp

lemma max_by_ge: "y \<in> set (b # xs) \<Longrightarrow> rank y \<le> rank (max_by rank b xs)"
proof (induction xs arbitrary: b y)
  case (Cons x xs)
  let ?m = "if rank b < rank x then x else b"
  have "rank ?m \<le> rank (max_by rank ?m xs)" using Cons.IH [of ?m ?m] by simp
  moreover have "rank y \<le> rank (max_by rank ?m xs)" if "y \<in> set xs" using Cons.IH [of y ?m] that by simp
  ultimately show ?case using Cons.prems by (auto split: if_splits)
qed simp

lemma max_by_unique:
  assumes "m \<in> set (b # xs)" "\<And>y. y \<in> set (b # xs) \<Longrightarrow> rank y \<le> rank m"
  shows "max_by rank b xs = m"
  using assms max_by_mem max_by_ge rank_inj by (metis antisym)

lemma max_by_set: "set (b # xs) = set (c # ys) \<Longrightarrow> max_by rank b xs = max_by rank c ys"
  using max_by_mem max_by_ge by (intro max_by_unique) (metis, metis)

lemma max_by_mono: "set (b # xs) \<subseteq> set (c # ys) \<Longrightarrow> rank (max_by rank b xs) \<le> rank (max_by rank c ys)"
  using max_by_mem max_by_ge by blast

end

interpretation strictest: precedence DECISION_PRECEDENCE
  by unfold_locales simp

lemma max_by_Max: "max_by DECISION_PRECEDENCE d ds = Max (set (d # ds))"
proof (rule strictest.max_by_unique)
  show "Max (set (d # ds)) \<in> set (d # ds)" by (rule Max_in) simp_all
next
  fix y
  assume "y \<in> set (d # ds)"
  then have "y \<le> Max (set (d # ds))" by (intro Max_ge) simp_all
  then show "DECISION_PRECEDENCE y \<le> DECISION_PRECEDENCE (Max (set (d # ds)))" by simp
qed

section \<open>The abstract decision\<close>

text \<open>
  The specification: everything that demands a decision, and the strictest demand. Without a demand the
  confidence thresholds decide.
\<close>

definition demands :: "plugin \<Rightarrow> decision_request \<Rightarrow> policy_rule list \<Rightarrow> bool \<Rightarrow> caller \<Rightarrow> decision set" where
  "demands p rq triggered gate c =
     rule_decision ` set triggered \<union> set_option (permission_decision p rq c) \<union> (if gate then {CONFIRM} else {})"

definition spec_decision :: "plugin \<Rightarrow> decision_request \<Rightarrow> policy_rule list \<Rightarrow> bool \<Rightarrow> caller \<Rightarrow> decision" where
  "spec_decision p rq triggered gate c =
     (if demands p rq triggered gate c = {} then confidence_decision p rq else Max (demands p rq triggered gate c))"

definition spec_verdict ::
    "plugin \<Rightarrow> decision_request \<Rightarrow> policy_rule list \<Rightarrow> bool \<Rightarrow> bool \<Rightarrow> caller \<Rightarrow> decision" where
  "spec_verdict p rq triggered gate context_missing c =
     (let d = (if context_missing then max CONFIRM (spec_decision p rq triggered gate c) else spec_decision p rq triggered gate c)
      in if \<not> cl_authenticated c then (if d = ALLOW then CONFIRM else d) else d)"

lemma strictest_of_list:
  "(case ds of [] \<Rightarrow> d0 | d # ds' \<Rightarrow> max_by DECISION_PRECEDENCE d ds') = (if set ds = {} then d0 else Max (set ds))"
proof (cases ds)
  case (Cons d ds')
  then show ?thesis using max_by_Max [of d ds'] by simp
qed simp

lemma demands_list:
  "set (map rule_decision triggered @ (case permission_decision p rq c of None \<Rightarrow> [] | Some d \<Rightarrow> [d])
      @ (if gate then [CONFIRM] else [])) = demands p rq triggered gate c"
  by (auto simp: demands_def split: option.splits)

lemma final_decision_spec:
  "final_decision p rq triggered sc c = rmap (\<lambda>gate. spec_decision p rq triggered gate c) (requires_confirmation p rq sc)"
  unfolding final_decision_def Let_def strictest_of_list demands_list spec_decision_def ..

lemma finite_demands [simp]: "finite (demands p rq triggered gate c)"
  by (simp add: demands_def)

lemma spec_decision_ge: "d \<in> demands p rq triggered gate c \<Longrightarrow> d \<le> spec_decision p rq triggered gate c"
  by (auto simp: spec_decision_def)

lemma spec_decision_mono:
  assumes "demands p rq triggered gate c \<subseteq> demands p rq triggered' gate' c'" "demands p rq triggered gate c \<noteq> {}"
  shows "spec_decision p rq triggered gate c \<le> spec_decision p rq triggered' gate' c'"
proof -
  have "demands p rq triggered' gate' c' \<noteq> {}" using assms by auto
  with assms Max_mono [OF assms finite_demands] show ?thesis by (simp add: spec_decision_def)
qed

section \<open>Verdicts\<close>

lemma after_context_decision:
  "vd_decision (after_context verified missing v) = (if missing = [] then vd_decision v else max CONFIRM (vd_decision v))"
proof (cases "missing = []")
  case False
  have "DECISION_PRECEDENCE d < DECISION_PRECEDENCE CONFIRM \<longleftrightarrow> d < CONFIRM" for d by (rule precedence_less)
  with False show ?thesis by (auto simp: after_context_def Let_def max_def not_le simp del: DECISION_PRECEDENCE.simps)
qed (simp add: after_context_def)

lemma after_authentication_decision:
  "vd_decision (after_authentication c v) = (if \<not> cl_authenticated c \<and> vd_decision v = ALLOW then CONFIRM else vd_decision v)"
  by (simp add: after_authentication_def)

lemma first_verdict_spec:
  assumes "first_verdict p rq triggered sc c = Inr v" "requires_confirmation p rq sc = Inr gate"
  shows "vd_decision v = spec_decision p rq triggered gate c"
  using assms by (auto simp: first_verdict_def final_decision_spec res_simps)

lemma revised_decision:
  assumes "first_verdict p rq triggered sc c = Inr v" "requires_confirmation p rq sc = Inr gate"
  shows "vd_decision (after_authentication c (after_context verified (missing_context p rq verified) v))
    = spec_verdict p rq triggered gate (missing_context p rq verified \<noteq> []) c"
  using first_verdict_spec [OF assms]
  by (simp add: after_context_decision after_authentication_decision spec_verdict_def Let_def)

lemma after_signing_cases:
  assumes "after_signing en mo p rq payload c v = (v', passport)"
  obtains (unsigned) "v' = v" "passport = None" "\<not> (vd_decision v = ALLOW \<and> \<not> rq_shadow_mode rq)"
  | (signed) token jti where "v' = v" "passport = Some (token, jti)" "vd_decision v = ALLOW" "\<not> rq_shadow_mode rq"
      "sign_decision (en_lib en) (en_keys en) (mo_now mo) (mo_uuid mo) (signing_args p rq payload c) = Inr (token, jti)"
  | (failed) e where "vd_decision v' = CONFIRM" "passport = None" "vd_decision v = ALLOW" "\<not> rq_shadow_mode rq"
      "str ''passport_signing_failed'' \<in> set (vd_flags v')"
      "sign_decision (en_lib en) (en_keys en) (mo_now mo) (mo_uuid mo) (signing_args p rq payload c) = Inl e"
proof (cases "vd_decision v = ALLOW \<and> \<not> rq_shadow_mode rq")
  case False
  with assms show ?thesis by (intro unsigned) (auto simp: after_signing_def)
next
  case True
  show ?thesis
  proof (cases "sign_decision (en_lib en) (en_keys en) (mo_now mo) (mo_uuid mo) (signing_args p rq payload c)")
    case (Inl e)
    with True assms show ?thesis by (intro failed) (auto simp: after_signing_def)
  next
    case (Inr tj)
    with True assms show ?thesis by (cases tj) (auto simp: after_signing_def intro: signed)
  qed
qed

lemma signing_args_sel [simp]:
  "da_action_type (signing_args p rq payload c) = rq_action_type rq" "da_payload (signing_args p rq payload c) = payload"
  "da_expires_in_minutes (signing_args p rq payload c) = 5" "da_decision (signing_args p rq payload c) = decision_value ALLOW"
  by (simp_all add: signing_args_def)

text \<open>One evaluation that returned, taken apart: the facts every property starts from.\<close>

lemma evaluate_policyD:
  assumes "evaluate_policy en mo p rq c = Inr rs"
  obtains verified triggered sc v gate where
    "verify_signed_context (en_context en) (mo_now mo) (rq_signed_context rq) (rq_tenant_id rq) (rq_user_id rq) = Inr verified"
    "evaluate_rules (pl_rules p) (rule_data rq verified) = Inr triggered"
    "scores p rq triggered = Inr sc" "requires_confirmation p rq sc = Inr gate"
    "first_verdict p rq triggered sc c = Inr v" "rs = response_of en mo p rq c verified triggered sc v"
proof -
  from assms obtain verified triggered sc v where e:
    "verify_signed_context (en_context en) (mo_now mo) (rq_signed_context rq) (rq_tenant_id rq) (rq_user_id rq) = Inr verified"
    "evaluate_rules (pl_rules p) (rule_data rq verified) = Inr triggered"
    "scores p rq triggered = Inr sc" "first_verdict p rq triggered sc c = Inr v"
    "rs = response_of en mo p rq c verified triggered sc v"
    by (auto simp: evaluate_policy_def rbind_eq_Inr rmap_eq_Inr)
  moreover from e(4) obtain gate where "requires_confirmation p rq sc = Inr gate"
    by (auto simp: first_verdict_def final_decision_def rbind_eq_Inr rmap_eq_Inr)
  ultimately show thesis using that by blast
qed

text \<open>The last steps of a response: whether it was signed, and what it then says.\<close>

lemma response_of_cases:
  fixes en mo p rq c verified triggered sc v
  defines "rs \<equiv> response_of en mo p rq c verified triggered sc v"
    and "w \<equiv> after_authentication c (after_context verified (missing_context p rq verified) v)"
    and "payload \<equiv> actionable_payload rq triggered"
  obtains (unsigned) "rs_decision rs = vd_decision w" "rs_passport rs = None" "rs_passport_id rs = None"
      "\<not> (vd_decision w = ALLOW \<and> \<not> rq_shadow_mode rq)"
  | (signed) token jti where "rs_decision rs = ALLOW" "vd_decision w = ALLOW" "\<not> rq_shadow_mode rq"
      "rs_passport rs = Some token" "rs_passport_id rs = Some jti" "rs_approval rs = None"
      "sign_decision (en_lib en) (en_keys en) (mo_now mo) (mo_uuid mo) (signing_args p rq payload c) = Inr (token, jti)"
  | (failed) e where "rs_decision rs = CONFIRM" "vd_decision w = ALLOW" "\<not> rq_shadow_mode rq"
      "rs_passport rs = None" "rs_passport_id rs = None" "rs_approval rs = None"
      "sign_decision (en_lib en) (en_keys en) (mo_now mo) (mo_uuid mo) (signing_args p rq payload c) = Inl e"
proof -
  obtain v' passport where a: "after_signing en mo p rq payload c w = (v', passport)"
    by (cases "after_signing en mo p rq payload c w")
  have rs: "rs_decision rs = vd_decision v'" "rs_passport rs = map_option fst passport"
    "rs_passport_id rs = map_option snd passport"
    "rs_approval rs = (if wants_approval rq c v'
        then approval_challenge_for en mo p rq triggered (vd_decision v') payload c else None)"
    using a by (simp_all add: rs_def w_def payload_def response_of_def Let_def)
  from a show thesis
  proof (cases rule: after_signing_cases)
    case unsigned
    with rs that(1) show ?thesis by simp
  next
    case (signed token jti)
    with rs that(2) show ?thesis by (simp add: wants_approval_def)
  next
    case (failed e)
    with rs that(3) show ?thesis by (simp add: wants_approval_def)
  qed
qed

lemma response_of_fields [simp]:
  "rs_actionable_payload (response_of en mo p rq c verified triggered sc v) = actionable_payload rq triggered"
  "rs_scores (response_of en mo p rq c verified triggered sc v) = sc"
  "rs_shadow_mode (response_of en mo p rq c verified triggered sc v) = rq_shadow_mode rq"
  "rs_plugin_version (response_of en mo p rq c verified triggered sc v) = version_label p"
  "map tr_id (rs_rules_triggered (response_of en mo p rq c verified triggered sc v)) = map rule_id triggered"
  "map tr_decision (rs_rules_triggered (response_of en mo p rq c verified triggered sc v)) = map rule_decision triggered"
  by (simp_all add: response_of_def Let_def comp_def split: prod.splits)

section \<open>What ALLOW takes\<close>

definition granted :: "decision_request \<Rightarrow> caller \<Rightarrow> pystr set" where
  "granted rq c = (case rq_agent rq of None \<Rightarrow> {} | Some a \<Rightarrow> set (effective_permissions c (ag_permissions a)))"

definition permitted :: "plugin \<Rightarrow> decision_request \<Rightarrow> caller \<Rightarrow> bool" where
  "permitted p rq c \<longleftrightarrow> (case action_of p rq of None \<Rightarrow> True | Some a \<Rightarrow> set (required_permissions a) \<subseteq> granted rq c)"

lemma permission_decision_iff: "permission_decision p rq c = (if permitted p rq c then None else Some BLOCK)"
  by (auto simp: permission_decision_def permitted_def granted_def filter_empty_conv Let_def split: option.splits)

lemma BLOCK_demanded: "\<not> permitted p rq c \<Longrightarrow> BLOCK \<in> demands p rq triggered gate c"
  by (simp add: demands_def permission_decision_iff)

lemma spec_decision_BLOCK: "\<not> permitted p rq c \<Longrightarrow> spec_decision p rq triggered gate c = BLOCK"
  using spec_decision_ge [OF BLOCK_demanded] by (simp add: order_antisym)

lemma spec_decision_ALLOW:
  assumes "spec_decision p rq triggered gate c = ALLOW"
  shows "permitted p rq c" "\<not> gate" "\<And>r. r \<in> set triggered \<Longrightarrow> rule_decision r = ALLOW"
    "triggered = [] \<Longrightarrow> confidence_decision p rq = ALLOW"
proof -
  have all: "d = ALLOW" if "d \<in> demands p rq triggered gate c" for d
    using spec_decision_ge [OF that] assms by (simp add: order_antisym)
  show p: "permitted p rq c" using all [OF BLOCK_demanded] by auto
  show g: "\<not> gate" using all [of CONFIRM] by (auto simp: demands_def)
  show "rule_decision r = ALLOW" if "r \<in> set triggered" for r using all that by (simp add: demands_def)
  show "confidence_decision p rq = ALLOW" if "triggered = []"
    using assms that p g by (simp add: spec_decision_def demands_def permission_decision_iff)
qed

lemma confidence_ALLOW: "confidence_decision p rq = ALLOW \<longleftrightarrow>
    action_of p rq \<noteq> None \<and> fle (allow_min_confidence (pl_thresholds p)) (llm_confidence (rq_llm rq))"
  by (simp add: confidence_decision_def)

lemma spec_verdict_ALLOW:
  "spec_verdict p rq triggered gate miss c = ALLOW \<longleftrightarrow>
     cl_authenticated c \<and> \<not> miss \<and> spec_decision p rq triggered gate c = ALLOW"
  by (cases "spec_decision p rq triggered gate c") (auto simp: spec_verdict_def Let_def max_def less_eq_decision_def)

text \<open>A gated write by any of its names, and what an agent may do: what it claims, within its caller's ceiling.\<close>

definition gated_write :: "plugin \<Rightarrow> decision_request \<Rightarrow> bool" where
  "gated_write p rq \<longleftrightarrow> (\<exists>name \<in> set (gate_actions (pl_uncertainty_gate p)). VStr name \<in>
     {VStr (rq_action_type rq), dget (rq_payload rq) ''proposed_action'', dget (rq_intent rq) ''resolved''})"

lemma is_gated_write_iff: "is_gated_write p rq = Inr b \<Longrightarrow> b \<longleftrightarrow> gated_write p rq"
  unfolding gated_write_def
  by (auto simp: is_gated_write_def in_gated_def rbind_eq_Inr split: if_splits pyval.splits)

definition may_use :: "decision_request \<Rightarrow> caller \<Rightarrow> pystr \<Rightarrow> bool" where
  "may_use rq c perm \<longleftrightarrow> (\<exists>agent. rq_agent rq = Some agent \<and> perm \<in> set (ag_permissions agent)
     \<and> (\<forall>ceiling. cl_permissions c = Some ceiling \<longrightarrow> perm \<in> ceiling \<or> WILDCARD \<in> ceiling))"

lemma granted_iff: "perm \<in> granted rq c \<longleftrightarrow> may_use rq c perm"
  by (auto simp: granted_def may_use_def effective_permissions_def split: option.splits)

lemma spec_decision_ALLOW_iff:
  "spec_decision p rq triggered gate c = ALLOW \<longleftrightarrow> permitted p rq c \<and> \<not> gate \<and> (\<forall>r \<in> set triggered. rule_decision r = ALLOW)
     \<and> (triggered = [] \<longrightarrow> confidence_decision p rq = ALLOW)"
proof
  assume s: "permitted p rq c \<and> \<not> gate \<and> (\<forall>r \<in> set triggered. rule_decision r = ALLOW)
     \<and> (triggered = [] \<longrightarrow> confidence_decision p rq = ALLOW)"
  show "spec_decision p rq triggered gate c = ALLOW"
  proof (cases "triggered = []")
    case False
    with s have "demands p rq triggered gate c = {ALLOW}"
      by (cases triggered) (auto simp: demands_def permission_decision_iff)
    then show ?thesis by (simp add: spec_decision_def)
  qed (use s in \<open>simp add: spec_decision_def demands_def permission_decision_iff\<close>)
next
  assume "spec_decision p rq triggered gate c = ALLOW"
  from spec_decision_ALLOW [OF this] show "permitted p rq c \<and> \<not> gate \<and> (\<forall>r \<in> set triggered. rule_decision r = ALLOW)
     \<and> (triggered = [] \<longrightarrow> confidence_decision p rq = ALLOW)" by blast
qed

lemma no_missing_context:
  "missing_context p rq verified = [] \<longleftrightarrow>
     (case action_of p rq of None \<Rightarrow> True | Some a \<Rightarrow> set (required_context a) \<subseteq> fst ` set (vc_facts verified))"
  by (auto simp: missing_context_def filter_empty_conv map_of_eq_None_iff split: option.splits)

section \<open>Whose role is asked for\<close>

text \<open>The first rule, in policy order, of the strictest among those that name a role.\<close>

definition names_role :: "policy_rule \<Rightarrow> bool" where
  "names_role r \<longleftrightarrow> (\<exists>role. rule_approver_role r = Some role \<and> role \<noteq> [])"

definition role_of_strictest :: "policy_rule list \<Rightarrow> pystr \<Rightarrow> bool" where
  "role_of_strictest triggered role \<longleftrightarrow> (\<exists>earlier r later. triggered = earlier @ r # later
     \<and> rule_approver_role r = Some role \<and> role \<noteq> []
     \<and> (\<forall>q \<in> set earlier. names_role q \<longrightarrow> rule_decision q < rule_decision r)
     \<and> (\<forall>q \<in> set later. names_role q \<longrightarrow> rule_decision q \<le> rule_decision r))"

definition role_asked :: "plugin \<Rightarrow> decision_request \<Rightarrow> policy_rule list \<Rightarrow> pystr \<Rightarrow> bool" where
  "role_asked p rq triggered role \<longleftrightarrow>
     (if \<exists>r \<in> set triggered. names_role r then role_of_strictest triggered role
      else if \<exists>a. action_of p rq = Some a \<and> action_approver_role a \<notin> {None, Some []}
      then \<exists>a. action_of p rq = Some a \<and> action_approver_role a = Some role
      else role = default_role (pl_approval p))"

lemma nonempty_eq_Some: "nonempty s = Some t \<longleftrightarrow> s = Some t \<and> t \<noteq> []"
  by (auto simp: nonempty_def split: option.splits if_splits)

lemma first_role_filter: "first_role rs = (case filter names_role rs of [] \<Rightarrow> None | r # _ \<Rightarrow> rule_approver_role r)"
  by (induction rs) (auto simp: names_role_def nonempty_def split: option.splits list.splits if_splits)

lemma hd_sort_key:
  assumes "xs \<noteq> []"
  shows "\<exists>as x bs zs. xs = as @ x # bs \<and> sort_key k xs = x # zs \<and> (\<forall>y \<in> set as. k x < k y) \<and> (\<forall>y \<in> set bs. k x \<le> k y)"
  using assms
proof (induction xs)
  case (Cons y ys)
  show ?case
  proof (cases "ys = []")
    case False
    from Cons.IH [OF this] obtain as x bs zs where s: "ys = as @ x # bs" "sort_key k ys = x # zs"
      "\<forall>y \<in> set as. k x < k y" "\<forall>y \<in> set bs. k x \<le> k y" by blast
    show ?thesis
    proof (cases "k y \<le> k x")
      case True
      with s have "sort_key k (y # ys) = y # x # zs" "\<forall>q \<in> set ys. k y \<le> k q" by (auto intro: order_trans less_imp_le)
      then show ?thesis by (intro exI [of _ "[]"] exI [of _ y] exI [of _ ys] exI [of _ "x # zs"]) simp
    next
      case False
      with s have "y # ys = (y # as) @ x # bs" "sort_key k (y # ys) = x # insort_key k y zs" by auto
      with s(3,4) False show ?thesis by (metis not_le set_ConsD)
    qed
  qed (auto intro!: exI [of _ "[]"])
qed simp

lemma filter_split:
  "filter P xs = as @ x # bs \<Longrightarrow> \<exists>us vs. xs = us @ x # vs \<and> filter P us = as \<and> filter P vs = bs"
proof (induction xs arbitrary: as)
  case (Cons y ys)
  show ?case
  proof (cases "P y \<and> as = []")
    case True
    with Cons.prems show ?thesis by (intro exI [of _ "[]"] exI [of _ ys]) auto
  next
    case False
    with Cons.prems have "filter P ys = (if P y then tl as else as) @ x # bs" by (cases as) auto
    from Cons.IH [OF this] obtain us vs where "ys = us @ x # vs" "filter P us = (if P y then tl as else as)" "filter P vs = bs"
      by blast
    with Cons.prems False show ?thesis by (intro exI [of _ "y # us"] exI [of _ vs]) (cases as; auto split: if_splits)
  qed
qed simp

lemma first_role_strictest:
  assumes "\<exists>r \<in> set triggered. names_role r"
  shows "\<exists>role. first_role (by_strictness triggered) = Some role \<and> role_of_strictest triggered role"
proof -
  let ?k = "\<lambda>r. - DECISION_PRECEDENCE (rule_decision r)"
  let ?named = "filter names_role triggered"
  have "?named \<noteq> []" using assms by (auto simp: filter_empty_conv)
  from hd_sort_key [OF this, of ?k] obtain as x bs zs where s: "?named = as @ x # bs" "sort_key ?k ?named = x # zs"
    "\<forall>y \<in> set as. ?k x < ?k y" "\<forall>y \<in> set bs. ?k x \<le> ?k y" by blast
  from filter_split [OF s(1)] obtain earlier later where split: "triggered = earlier @ x # later"
    "filter names_role earlier = as" "filter names_role later = bs" by blast
  have "x \<in> set ?named" by (simp add: s(1))
  then obtain role where role: "rule_approver_role x = Some role" "role \<noteq> []" by (auto simp: names_role_def)
  have "filter names_role (by_strictness triggered) = x # zs"
    using s(2) by (simp only: by_strictness_def sort_desc_def filter_sort)
  then have first: "first_role (by_strictness triggered) = Some role" by (simp add: first_role_filter role(1))
  have "rule_decision q < rule_decision x" if "q \<in> set earlier" "names_role q" for q
    using that s(3) split(2) by auto
  moreover have "rule_decision q \<le> rule_decision x" if "q \<in> set later" "names_role q" for q
    using that s(4) split(3) by auto
  ultimately have "role_of_strictest triggered role"
    unfolding role_of_strictest_def using role split(1)
    by (intro exI [of _ earlier] exI [of _ x] exI [of _ later]) blast
  with first show ?thesis by blast
qed

lemma approver_role_asked: "role_asked p rq triggered (approver_role p rq triggered)"
proof (cases "\<exists>r \<in> set triggered. names_role r")
  case True
  from first_role_strictest [OF True] True show ?thesis by (auto simp: role_asked_def approver_role_def)
next
  case False
  then have "filter names_role (by_strictness triggered) = []"
    by (auto simp: filter_empty_conv by_strictness_def sort_desc_def)
  then have "first_role (by_strictness triggered) = None" by (simp add: first_role_filter)
  with False show ?thesis
    by (auto simp: role_asked_def approver_role_def nonempty_def split: option.splits)
qed

section \<open>Tickets and scores\<close>

lemma response_of_approval:
  assumes "rs_approval (response_of en mo p rq c verified triggered sc v) = Some ch"
  shows "rs_decision (response_of en mo p rq c verified triggered sc v) \<in> {CONFIRM, SUGGEST}
    \<and> cl_authenticated c \<and> \<not> rq_shadow_mode rq \<and> rs_passport (response_of en mo p rq c verified triggered sc v) = None
    \<and> sign_approval_ticket (en_lib en) (en_keys en) (mo_now mo) (mo_uuid mo)
        (approval_args p rq triggered (rs_decision (response_of en mo p rq c verified triggered sc v))
          (actionable_payload rq triggered) c) = Inr ch"
proof -
  obtain v' passport where a: "after_signing en mo p rq (actionable_payload rq triggered) c
      (after_authentication c (after_context verified (missing_context p rq verified) v)) = (v', passport)"
    by (cases "after_signing en mo p rq (actionable_payload rq triggered) c
        (after_authentication c (after_context verified (missing_context p rq verified) v))")
  from assms a have w: "wants_approval rq c v'"
    "approval_challenge_for en mo p rq triggered (vd_decision v') (actionable_payload rq triggered) c = Some ch"
    by (auto simp: response_of_def Let_def split: if_splits)
  from a have "passport = None"
    by (cases rule: after_signing_cases) (use w(1) in \<open>auto simp: wants_approval_def\<close>)
  with a w show ?thesis
    by (auto simp: response_of_def Let_def wants_approval_def approval_challenge_for_def split: sum.splits)
qed

definition in_unit :: "pyfloat \<Rightarrow> bool" where
  "in_unit f \<longleftrightarrow> (\<exists>q. f = Fin q \<and> 0 \<le> q \<and> q \<le> 1)"

lemma clamp_unit [simp]: "in_unit (clamp f)"
  unfolding in_unit_def clamp_def by (rule clamp_range)

lemma scores_unit:
  assumes "scores p rq triggered = Inr sc"
  shows "in_unit (sc_final_confidence sc) \<and> in_unit (sc_risk_score sc) \<and> in_unit (sc_uncertainty_score sc)"
  using assms by (auto simp: scores_def uncertainty_score_def Let_def rmap_eq_Inr)

section \<open>What rules see under \<open>verified\<close>\<close>

lemma field_value_verified:
  "field_value (rule_data rq verified) (str ''verified'' @ 46 # path) = field_value (vc_facts verified) path"
proof -
  have "map_of (rule_data rq verified) (str ''verified'') = Some (VDict (vc_facts verified))"
    by (simp add: rule_data_def map_of_update)
  moreover have "46 \<notin> set (str ''verified'')" by (simp add: str_def)
  ultimately show ?thesis by (simp add: field_value_under)
qed

section \<open>Which evaluations return\<close>

lemma is_gated_write_cases:
  "if rq_action_type rq \<in> set (gate_actions (pl_uncertainty_gate p))
     \<or> hashable (dget (rq_payload rq) ''proposed_action'')
       \<and> (in_gated p (dget (rq_payload rq) ''proposed_action'') = Inr True \<or> hashable (dget (rq_intent rq) ''resolved''))
   then \<exists>b. is_gated_write p rq = Inr b else is_gated_write p rq = Inl TypeError"
  by (auto simp: is_gated_write_def in_gated_def)

lemma first_verdict_total:
  assumes "is_gated_write p rq = Inr b"
  shows "\<exists>v. first_verdict p rq triggered sc c = Inr v"
  using assms
  by (simp add: first_verdict_def final_decision_def audit_flags_def reason_def requires_confirmation_def Let_def)

lemma evaluate_policy_gated:
  assumes "verify_signed_context (en_context en) (mo_now mo) (rq_signed_context rq) (rq_tenant_id rq) (rq_user_id rq) = Inr verified"
    and "evaluate_rules (pl_rules p) (rule_data rq verified) = Inr triggered"
  shows "case is_gated_write p rq of Inl e \<Rightarrow> evaluate_policy en mo p rq c = Inl e
    | Inr b \<Rightarrow> \<exists>rs. evaluate_policy en mo p rq c = Inr rs"
proof (cases "is_gated_write p rq")
  case (Inl e)
  with assms show ?thesis by (simp add: evaluate_policy_def scores_def uncertainty_score_def Let_def)
next
  case (Inr b)
  then obtain sc where "scores p rq triggered = Inr sc" by (simp add: scores_def uncertainty_score_def Let_def)
  with first_verdict_total [OF Inr, of triggered sc c] assms Inr show ?thesis by (auto simp: evaluate_policy_def)
qed

section \<open>The payload\<close>

definition overrides :: "policy_rule list \<Rightarrow> pystr \<Rightarrow> pyval list" where
  "overrides triggered k = List.map_filter (\<lambda>r. map_of (rule_actionable_payload r) k) triggered"

lemma overrides_Cons: "overrides (r # rs) k =
    (case map_of (rule_actionable_payload r) k of None \<Rightarrow> overrides rs k | Some v \<Rightarrow> v # overrides rs k)"
  by (simp add: overrides_def List.map_filter_def split: option.splits)

lemma merge_rules:
  assumes "list_all (\<lambda>r. dict_ok (rule_actionable_payload r)) triggered"
  shows "map_of (foldl (\<lambda>d r. dmerge d (rule_actionable_payload r)) d triggered) k =
    (case overrides triggered k of [] \<Rightarrow> map_of d k | v # vs \<Rightarrow> Some (last (v # vs)))"
  using assms
proof (induction triggered arbitrary: d)
  case Nil
  show ?case by (simp add: overrides_def List.map_filter_def)
next
  case (Cons r rs)
  from Cons.prems have ok: "dict_ok (rule_actionable_payload r)" by simp
  show ?case using Cons
    by (simp add: overrides_Cons map_of_dmerge [OF ok] split: list.splits option.splits)
qed

lemma base_payload_get: "map_of (base_payload rq) k =
    (if k = str ''suggested_category'' \<and> map_of (rq_payload rq) (str ''proposed_category'') \<noteq> None
     then map_of (rq_payload rq) (str ''proposed_category'')
     else if k = str ''proposed_action'' \<and> map_of (rq_payload rq) k = None then Some (VStr (rq_action_type rq))
     else map_of (rq_payload rq) k)"
  by (auto simp: base_payload_def setdefault_def map_of_update map_add_def Let_def split: option.splits)

end
