(* ===== verification/EngineExample.thy ===== *)
theory EngineExample
  imports EngineFacts
begin

text \<open>
  One example engine: the policy, keys and tokens on which the witnesses of the engine's properties
  evaluate, with one request that is allowed and one that is suggested.
\<close>

section \<open>An example engine\<close>

definition example_request :: decision_request where
  "example_request = \<lparr>rq_schema_version = str ''axg.decision_request.v1'', rq_execution_id = str ''e1'',
     rq_tenant_id = str ''t1'', rq_app_id = str ''app'', rq_plugin_id = str ''demo'', rq_user_id = None,
     rq_agent = Some \<lparr>ag_id = str ''bot'', ag_type = str ''agent'', ag_permissions = [str ''pay:send'']\<rparr>,
     rq_source = str ''web'', rq_action_type = str ''pay'', rq_payload = [(str ''amount'', VInt 5)], rq_context = [],
     rq_signed_context = [], rq_llm = \<lparr>llm_model = None, llm_confidence = Fin (7 / 8), llm_raw_output = []\<rparr>,
     rq_intent = [], rq_shadow_mode = False, rq_metadata = []\<rparr>"

definition example_caller :: caller where
  "example_caller = \<lparr>cl_client_id = str ''orchestrator'', cl_authenticated = True, cl_app_ids = {WILDCARD},
     cl_permissions = Some {str ''pay:send''}\<rparr>"

definition example_moment :: moment where
  "example_moment = \<lparr>mo_now = 1000, mo_uuid = str ''u1'', mo_iso = str ''1970-01-01T00:16:40+00:00'', mo_trace_id = None\<rparr>"

definition example_payload :: pydict where
  "example_payload = [(str ''amount'', VInt 5), (str ''proposed_action'', VStr (str ''pay''))]"

definition example_signing :: decision_args where
  "example_signing = signing_args example_plugin example_request example_payload example_caller"

definition example_approving :: ticket_args where
  "example_approving = approval_args example_plugin example_request [] SUGGEST example_payload example_caller"

definition example_payload_hash :: pystr where
  "example_payload_hash = hex_bytes (replicate 32 36)"

definition example_tokens :: token_table where
  "example_tokens =
    [(str ''tok'', str ''k'', passport_dump (passport_of example_signing example_payload_hash 1000 (str ''u1'')),
      [(str ''kid'', VStr example_kid)]),
     (str ''tik'', str ''k'', ticket_dump (ticket_of example_approving example_payload_hash 1000 (str ''u1'')),
      [(str ''kid'', VStr example_kid), (str ''typ'', VStr APPROVAL_TICKET_TYP)]),
     (str ''ctx'', str ''k'', ledger_claims, [])]"

definition example_engine :: engine_env where
  "example_engine = \<lparr>en_loader = example_env, en_context = example_context,
     en_lib = example_lib example_tokens [ticket_of example_approving example_payload_hash 1000 (str ''u1'')],
     en_keys = example_keys\<rparr>"

definition example_doubt :: llm_signal where
  "example_doubt = \<lparr>llm_model = None, llm_confidence = Fin (5 / 8), llm_raw_output = []\<rparr>"

definition example_outcome :: "decision_request \<Rightarrow> caller \<Rightarrow> (decision \<times> pystr option \<times> approval_challenge option) res" where
  "example_outcome rq c = rmap (\<lambda>rs. (rs_decision rs, rs_passport rs, rs_approval rs))
     (fst (evaluate example_engine example_moment [] rq c))"


lemma example_response:
  obtains rs cache where "evaluate example_engine example_moment [] example_request example_caller = (Inr rs, cache)"
    "rs_decision rs = ALLOW" "rs_passport rs = Some (str ''tok'')" "rs_passport_id rs = Some (str ''u1'')" "rs_approval rs = None"
    "rs_actionable_payload rs = example_payload"
proof -
  have "rmap (\<lambda>rs. (rs_decision rs, rs_passport rs, rs_passport_id rs, rs_approval rs, rs_actionable_payload rs))
      (fst (evaluate example_engine example_moment [] example_request example_caller))
    = Inr (ALLOW, Some (str ''tok''), Some (str ''u1''), None, example_payload)" by code_simp
  with that show thesis
    by (cases "evaluate example_engine example_moment [] example_request example_caller") (auto simp: rmap_eq_Inr)
qed

lemma example_allowed: "example_outcome example_request example_caller = Inr (ALLOW, Some (str ''tok''), None)"
  by (rule example_response) (simp add: example_outcome_def)

lemma example_suggested:
  "example_outcome (example_request\<lparr>rq_llm := example_doubt\<rparr>)
     example_caller = Inr (SUGGEST, None, Some \<lparr>ch_ticket = str ''tik'', ch_ticket_id = str ''u1'',
       ch_required_role = str ''treasury'', ch_expires_at = 4600\<rparr>)"
  by code_simp

lemma example_outcomeD:
  assumes "example_outcome rq c = Inr (d, passport, approval)"
  obtains rs cache where "evaluate example_engine example_moment [] rq c = (Inr rs, cache)" "rs_decision rs = d"
    "rs_passport rs = passport" "rs_approval rs = approval"
  using assms by (cases "evaluate example_engine example_moment [] rq c") (auto simp: example_outcome_def rmap_eq_Inr)

end
