(* ===== verification/Decisions.thy ===== *)
theory Decisions
  imports EngineExample
begin

text \<open>
  The properties of the decision engine (\<open>axg/engine.py\<close>). \<open>EngineFacts\<close> holds the abstract
  decision and the lemmas they rest on, \<open>EngineExample\<close> the engine on which their witnesses evaluate.
\<close>

section \<open>Evaluations that returned\<close>

text \<open>An evaluation returned either the fail-safe response or the response of a loaded policy.\<close>

lemma evaluateD:
  assumes "evaluate en mo cache rq c = (Inr rs, cache')"
  obtains (unavailable) m where "load (en_loader en) cache (rq_plugin_id rq) = (Inl (PluginLoadError m), cache')"
      "rs = fail_safe rq m"
  | (loaded) p where "load (en_loader en) cache (rq_plugin_id rq) = (Inr p, cache')" "evaluate_policy en mo p rq c = Inr rs"
  using assms by (auto simp: evaluate_def split: prod.splits sum.splits load_error.splits)

lemma fail_safe_closed [simp]:
  "rs_decision (fail_safe rq m) = CONFIRM" "rs_passport (fail_safe rq m) = None"
  "rs_passport_id (fail_safe rq m) = None" "rs_approval (fail_safe rq m) = None"
  "rs_actionable_payload (fail_safe rq m) = []"
  by (simp_all add: fail_safe_def)

lemma evaluate_ALLOW_loaded:
  assumes "evaluate en mo cache rq c = (Inr rs, cache')" "rs_decision rs = ALLOW"
  obtains p where "load (en_loader en) cache (rq_plugin_id rq) = (Inr p, cache')" "evaluate_policy en mo p rq c = Inr rs"
  using assms(1) by (cases rule: evaluateD) (use assms(2) that in auto)

section \<open>Properties\<close>

text \<open>
  C1. Exactly when a decision is ALLOW: the policy loaded, the caller is authenticated, every triggered rule
  says ALLOW, the agent holds every permission the action requires within its caller's ceiling, the
  verified facts include every provider the action requires, no gated write reaches the uncertainty
  threshold, and, outside shadow mode, the Passport could be signed. Only when no rule was triggered
  must the action be declared and the proposer's confidence reach the policy's threshold: a triggered ALLOW
  rule allows an undeclared action, and at any confidence.
\<close>

theorem allow_is_earned:
  assumes "evaluate en mo cache rq c = (Inr rs, cache')"
  shows "rs_decision rs = ALLOW \<longleftrightarrow> (\<exists>p verified triggered.
      load (en_loader en) cache (rq_plugin_id rq) = (Inr p, cache')
    \<and> verify_signed_context (en_context en) (mo_now mo) (rq_signed_context rq) (rq_tenant_id rq) (rq_user_id rq) = Inr verified
    \<and> evaluate_rules (pl_rules p) (rule_data rq verified) = Inr triggered
    \<and> cl_authenticated c
    \<and> (\<forall>r \<in> set triggered. rule_decision r = ALLOW)
    \<and> (\<forall>a. action_of p rq = Some a \<longrightarrow> (\<forall>perm \<in> set (required_permissions a). may_use rq c perm)
           \<and> set (required_context a) \<subseteq> fst ` set (vc_facts verified))
    \<and> (gated_write p rq \<longrightarrow> \<not> fle (gate_threshold (pl_uncertainty_gate p)) (sc_uncertainty_score (rs_scores rs)))
    \<and> (triggered = [] \<longrightarrow> action_of p rq \<noteq> None \<and> fle (allow_min_confidence (pl_thresholds p)) (llm_confidence (rq_llm rq)))
    \<and> (rq_shadow_mode rq \<or> (\<exists>token. sign_decision (en_lib en) (en_keys en) (mo_now mo) (mo_uuid mo)
         (signing_args p rq (rs_actionable_payload rs) c) = Inr token)))"
  using assms
proof (cases rule: evaluateD)
  case (unavailable m)
  then show ?thesis by simp
next
  case (loaded p)
  obtain verified triggered sc v gate where e:
    "verify_signed_context (en_context en) (mo_now mo) (rq_signed_context rq) (rq_tenant_id rq) (rq_user_id rq) = Inr verified"
    "evaluate_rules (pl_rules p) (rule_data rq verified) = Inr triggered"
    "scores p rq triggered = Inr sc" "requires_confirmation p rq sc = Inr gate"
    "first_verdict p rq triggered sc c = Inr v" "rs = response_of en mo p rq c verified triggered sc v"
    by (rule evaluate_policyD [OF loaded(2)])
  let ?spec = "spec_verdict p rq triggered gate (missing_context p rq verified \<noteq> []) c"
  have signing: "rs_decision rs = ALLOW \<longleftrightarrow> ?spec = ALLOW \<and> (rq_shadow_mode rq \<or>
      (\<exists>token. sign_decision (en_lib en) (en_keys en) (mo_now mo) (mo_uuid mo)
         (signing_args p rq (rs_actionable_payload rs) c) = Inr token))"
    unfolding e(6) using revised_decision [OF e(5,4)]
    by (cases rule: response_of_cases [of en mo p rq c verified triggered sc v]) auto
  have gate: "gate \<longleftrightarrow> gated_write p rq \<and> fle (gate_threshold (pl_uncertainty_gate p)) (sc_uncertainty_score sc)"
    using e(4) is_gated_write_iff [of p rq] by (auto simp: requires_confirmation_def rmap_eq_Inr)
  have "?spec = ALLOW \<longleftrightarrow> cl_authenticated c \<and> (\<forall>r \<in> set triggered. rule_decision r = ALLOW)
    \<and> (\<forall>a. action_of p rq = Some a \<longrightarrow> (\<forall>perm \<in> set (required_permissions a). may_use rq c perm)
           \<and> set (required_context a) \<subseteq> fst ` set (vc_facts verified))
    \<and> \<not> gate
    \<and> (triggered = [] \<longrightarrow> action_of p rq \<noteq> None \<and> fle (allow_min_confidence (pl_thresholds p)) (llm_confidence (rq_llm rq)))"
    by (auto simp: spec_verdict_ALLOW spec_decision_ALLOW_iff confidence_ALLOW permitted_def no_missing_context
        subset_iff granted_iff split: option.splits)
  with signing gate loaded(1) e(1,2,6) show ?thesis by auto
qed

lemma allow_is_earned_witness:
  "(\<exists>p. fst (load (en_loader example_engine) [] (str ''demo'')) = Inr p \<and>
      fle (allow_min_confidence (pl_thresholds p)) (llm_confidence (rq_llm example_request)))
   \<and> may_use example_request example_caller (str ''pay:send'')"
proof -
  obtain rs cache where e: "evaluate example_engine example_moment [] example_request example_caller = (Inr rs, cache)"
    "rs_decision rs = ALLOW" by (rule example_outcomeD [OF example_allowed])
  from allow_is_earned [OF e(1)] e(2) example_load_local show ?thesis
    by (auto simp: example_request_def example_engine_def example_plugin_def action_of_def)
qed

text \<open>
  C3. A Passport goes with every ALLOW that is not a shadow evaluation and with nothing else, it is
  signed over exactly the payload the response returns and the caller it answers, and introspection
  honours it for that action and payload as long as it is valid. No approval ticket accompanies it.
\<close>

theorem passport_is_usable:
  assumes "encode_law (en_lib en)" "round_trip_law (en_lib en)"
    and "derive_public (en_lib en) (km_private (en_keys en)) = Inr (km_public (en_keys en))"
    and "previous_public_keys env = Inr ps" "evaluate en mo cache rq c = (Inr rs, cache')"
  shows "(rs_passport rs \<noteq> None \<longleftrightarrow> rs_decision rs = ALLOW \<and> \<not> rq_shadow_mode rq)
    \<and> (rs_passport rs \<noteq> None \<longrightarrow> rs_approval rs = None)
    \<and> (\<forall>token now. rs_passport rs = Some token \<longrightarrow> mo_now mo \<le> now \<longrightarrow> now < mo_now mo + 300 \<longrightarrow>
        (\<exists>p hash jti. load (en_loader en) cache (rq_plugin_id rq) = (Inr p, cache') \<and> rs_passport_id rs = Some jti
          \<and> hash_payload (en_lib en) (rs_actionable_payload rs) = Inr hash
          \<and> introspect_passport (en_lib en) env (en_keys en) now token (Some (rq_action_type rq)) (Some (rs_actionable_payload rs))
            = Inr (Active (passport_dump (passport_of (signing_args p rq (rs_actionable_payload rs) c) hash (mo_now mo) jti)))))"
  using assms(5)
proof (cases rule: evaluateD)
  case (unavailable m)
  then show ?thesis by simp
next
  case (loaded p)
  obtain verified triggered sc v where rs: "rs = response_of en mo p rq c verified triggered sc v"
    by (rule evaluate_policyD [OF loaded(2)])
  show ?thesis
  proof (cases rule: response_of_cases [of en mo p rq c verified triggered sc v])
    case unsigned
    then show ?thesis by (auto simp: rs)
  next
    case (signed token jti)
    let ?args = "signing_args p rq (actionable_payload rq triggered) c"
    have "\<exists>hash. hash_payload (en_lib en) (actionable_payload rq triggered) = Inr hash \<and>
        introspect_passport (en_lib en) env (en_keys en) now token (Some (rq_action_type rq)) (Some (actionable_payload rq triggered))
          = Inr (Active (passport_dump (passport_of ?args hash (mo_now mo) jti)))"
      if "mo_now mo \<le> now" "now < mo_now mo + 300" for now
    proof -
      have "now < mo_now mo + 60 * da_expires_in_minutes ?args" using that(2) by simp
      from sign_introspect [OF assms(1-4) signed(7) that(1) this] show ?thesis by simp blast
    qed
    with signed loaded(1) show ?thesis by (simp add: rs)
  next
    case (failed e)
    then show ?thesis by (simp add: rs)
  qed
qed

lemma passport_is_usable_witness:
  "\<exists>rs. fst (evaluate example_engine example_moment [] example_request example_caller) = Inr rs
    \<and> rs_passport rs = Some (str ''tok'') \<and> (\<exists>claims. introspect_passport (en_lib example_engine) (\<lambda>_. None) example_keys
        1299 (str ''tok'') (Some (str ''pay'')) (Some (rs_actionable_payload rs)) = Inr (Active claims))"
proof -
  obtain rs cache where e: "evaluate example_engine example_moment [] example_request example_caller = (Inr rs, cache)"
    "rs_passport rs = Some (str ''tok'')" by (rule example_outcomeD [OF example_allowed])
  have "distinct (map fst example_tokens)" by (simp add: example_tokens_def)
  note laws = example_lib_laws(3,4) [OF this, of "[ticket_of example_approving example_payload_hash 1000 (str ''u1'')]"]
  have l: "encode_law (en_lib example_engine)" "round_trip_law (en_lib example_engine)"
    using laws by (simp_all add: example_engine_def)
  have k: "derive_public (en_lib example_engine) (km_private (en_keys example_engine)) = Inr (km_public (en_keys example_engine))"
    by (simp add: example_engine_def example_keys_def str_def)
  have p: "previous_public_keys (\<lambda>_. None) = Inr []" by (simp add: previous_public_keys_def env_get_def py_strip_def)
  from passport_is_usable [OF l k p e(1)] e show ?thesis
    by (auto simp: example_moment_def example_request_def example_engine_def dest!: spec [of _ 1299])
qed

text \<open>
  C2. The engine refines the abstract decision: the strictest demand among the triggered rules, a
  missing permission (BLOCK) and the uncertainty gate (CONFIRM), or the confidence thresholds when
  nothing demands anything, raised to CONFIRM by missing verified context or an unauthenticated ALLOW.
  It departs from it only towards CONFIRM, when a Passport could not be signed.
\<close>

theorem decision_refines_spec:
  assumes "evaluate_policy en mo p rq c = Inr rs"
  shows "\<exists>verified triggered sc gate payload.
    verify_signed_context (en_context en) (mo_now mo) (rq_signed_context rq) (rq_tenant_id rq) (rq_user_id rq) = Inr verified
    \<and> evaluate_rules (pl_rules p) (rule_data rq verified) = Inr triggered \<and> scores p rq triggered = Inr sc
    \<and> requires_confirmation p rq sc = Inr gate \<and> payload = rs_actionable_payload rs
    \<and> rs_decision rs =
        (let d = spec_verdict p rq triggered gate (missing_context p rq verified \<noteq> []) c
         in if d = ALLOW \<and> \<not> rq_shadow_mode rq
              \<and> (\<exists>e. sign_decision (en_lib en) (en_keys en) (mo_now mo) (mo_uuid mo) (signing_args p rq payload c) = Inl e)
            then CONFIRM else d)"
proof -
  obtain verified triggered sc v gate where e:
    "verify_signed_context (en_context en) (mo_now mo) (rq_signed_context rq) (rq_tenant_id rq) (rq_user_id rq) = Inr verified"
    "evaluate_rules (pl_rules p) (rule_data rq verified) = Inr triggered"
    "scores p rq triggered = Inr sc" "requires_confirmation p rq sc = Inr gate"
    "first_verdict p rq triggered sc c = Inr v" "rs = response_of en mo p rq c verified triggered sc v"
    by (rule evaluate_policyD [OF assms])
  note spec = revised_decision [OF e(5,4), of verified]
  have "rs_decision rs =
      (let d = spec_verdict p rq triggered gate (missing_context p rq verified \<noteq> []) c
       in if d = ALLOW \<and> \<not> rq_shadow_mode rq
            \<and> (\<exists>e. sign_decision (en_lib en) (en_keys en) (mo_now mo) (mo_uuid mo)
                  (signing_args p rq (actionable_payload rq triggered) c) = Inl e)
          then CONFIRM else d)"
    unfolding e(6) spec [symmetric] Let_def
    by (cases rule: response_of_cases [of en mo p rq c verified triggered sc v]) auto
  with e(1-4) show ?thesis by (intro exI conjI) (assumption | simp add: e(6))+
qed

lemma decision_refines_spec_witness:
  "\<exists>p rs triggered gate. load (en_loader example_engine) [] (str ''demo'') = (Inr p, [(str ''demo'', p)])
    \<and> evaluate_policy example_engine example_moment p example_request example_caller = Inr rs
    \<and> evaluate_rules (pl_rules p) (rule_data example_request no_context) = Inr triggered
    \<and> spec_verdict p example_request triggered gate False example_caller = ALLOW"
proof -
  obtain rs cache where e: "evaluate example_engine example_moment [] example_request example_caller = (Inr rs, cache)"
    "rs_decision rs = ALLOW" by (rule example_outcomeD [OF example_allowed])
  have l: "load (en_loader example_engine) [] (str ''demo'') = (Inr example_plugin, [(str ''demo'', example_plugin)])"
    using example_load_local by (simp add: example_engine_def)
  have r: "evaluate_policy example_engine example_moment example_plugin example_request example_caller = Inr rs"
    using e l by (auto simp: evaluate_def example_request_def)
  have m: "missing_context example_plugin example_request v = []" for v
    by (simp add: missing_context_def action_of_def example_plugin_def example_request_def)
  have v: "verify_signed_context (en_context example_engine) t (rq_signed_context example_request)
      (rq_tenant_id example_request) (rq_user_id example_request) = Inr no_context" for t
    by (simp add: example_request_def verify_signed_context_def)
  from decision_refines_spec [OF r] obtain triggered gate where t:
    "evaluate_rules (pl_rules example_plugin) (rule_data example_request no_context) = Inr triggered"
    "ALLOW = spec_verdict example_plugin example_request triggered gate False example_caller"
    using e(2) by (auto simp: v m Let_def split: if_splits)
  with l r show ?thesis by metis
qed

text \<open>
  C4. An approval ticket is offered only for a CONFIRM or SUGGEST to an authenticated caller outside
  shadow mode and never next to a Passport; it is signed over the payload, action and policy the
  response reports and asks for the role of the strictest triggered rule that names one (the first of them
  in policy order), else the action's, else the plugin's default. It expires after the policy's lifetime.
\<close>

theorem approval_ticket_is_bound:
  assumes "evaluate en mo cache rq c = (Inr rs, cache')" "rs_approval rs = Some ch"
  shows "rs_decision rs \<in> {CONFIRM, SUGGEST} \<and> cl_authenticated c \<and> \<not> rq_shadow_mode rq \<and> rs_passport rs = None
    \<and> (\<exists>p verified triggered hash. load (en_loader en) cache (rq_plugin_id rq) = (Inr p, cache')
        \<and> verify_signed_context (en_context en) (mo_now mo) (rq_signed_context rq) (rq_tenant_id rq) (rq_user_id rq) = Inr verified
        \<and> evaluate_rules (pl_rules p) (rule_data rq verified) = Inr triggered
        \<and> role_asked p rq triggered (ch_required_role ch)
        \<and> ch_expires_at ch = mo_now mo + ticket_ttl_seconds (pl_approval p)
        \<and> hash_payload (en_lib en) (rs_actionable_payload rs) = Inr hash
        \<and> (\<exists>k ta. jwt_encode (en_lib en) (ticket_dump (ticket_of ta hash (mo_now mo) (ch_ticket_id ch)))
              (km_private (en_keys en)) [(str ''kid'', VStr k), (str ''typ'', VStr APPROVAL_TICKET_TYP)] = Inr (ch_ticket ch)
            \<and> ta = \<lparr>ta_execution_id = rq_execution_id rq, ta_app_id = rq_app_id rq, ta_tenant_id = rq_tenant_id rq,
                ta_plugin_id = rq_plugin_id rq, ta_policy = rs_plugin_version rs,
                ta_decision = decision_value (rs_decision rs), ta_action_type = rq_action_type rq,
                ta_payload = rs_actionable_payload rs, ta_client_id = cl_client_id c,
                ta_required_role = ch_required_role ch, ta_user_id = rq_user_id rq,
                ta_agent_id = map_option ag_id (rq_agent rq), ta_ttl_seconds = ticket_ttl_seconds (pl_approval p)\<rparr>))"
  using assms(1)
proof (cases rule: evaluateD)
  case (unavailable m)
  with assms(2) show ?thesis by simp
next
  case (loaded p)
  obtain verified triggered sc v where e:
    "verify_signed_context (en_context en) (mo_now mo) (rq_signed_context rq) (rq_tenant_id rq) (rq_user_id rq) = Inr verified"
    "evaluate_rules (pl_rules p) (rule_data rq verified) = Inr triggered" "rs = response_of en mo p rq c verified triggered sc v"
    by (rule evaluate_policyD [OF loaded(2)])
  from response_of_approval [OF assms(2) [unfolded e(3)]]
  have a: "rs_decision rs \<in> {CONFIRM, SUGGEST}" "cl_authenticated c" "\<not> rq_shadow_mode rq" "rs_passport rs = None"
    "sign_approval_ticket (en_lib en) (en_keys en) (mo_now mo) (mo_uuid mo)
       (approval_args p rq triggered (rs_decision rs) (rs_actionable_payload rs) c) = Inr ch"
    by (simp_all add: e(3))
  let ?ta = "approval_args p rq triggered (rs_decision rs) (rs_actionable_payload rs) c"
  have sel: "ta_payload ?ta = rs_actionable_payload rs" "ta_ttl_seconds ?ta = ticket_ttl_seconds (pl_approval p)"
    by (simp_all add: approval_args_def)
  from a(5) obtain hash k where s: "hash_payload (en_lib en) (ta_payload ?ta) = Inr hash" "ch_ticket_id ch = mo_uuid mo"
    "ch_required_role ch = ta_required_role ?ta" "ch_expires_at ch = mo_now mo + ta_ttl_seconds ?ta"
    "jwt_encode (en_lib en) (ticket_dump (ticket_of ?ta hash (mo_now mo) (mo_uuid mo)))
       (km_private (en_keys en)) [(str ''kid'', VStr k), (str ''typ'', VStr APPROVAL_TICKET_TYP)] = Inr (ch_ticket ch)"
    by (rule sign_approval_ticketD)
  have role: "ch_required_role ch = approver_role p rq triggered" using s(3) by (simp add: approval_args_def)
  have version: "rs_plugin_version rs = version_label p" by (simp add: e(3))
  have signed: "jwt_encode (en_lib en) (ticket_dump (ticket_of ?ta hash (mo_now mo) (ch_ticket_id ch)))
       (km_private (en_keys en)) [(str ''kid'', VStr k), (str ''typ'', VStr APPROVAL_TICKET_TYP)] = Inr (ch_ticket ch)"
    using s(5) by (simp only: s(2))
  have args: "?ta = \<lparr>ta_execution_id = rq_execution_id rq, ta_app_id = rq_app_id rq, ta_tenant_id = rq_tenant_id rq,
      ta_plugin_id = rq_plugin_id rq, ta_policy = rs_plugin_version rs,
      ta_decision = decision_value (rs_decision rs), ta_action_type = rq_action_type rq,
      ta_payload = rs_actionable_payload rs, ta_client_id = cl_client_id c,
      ta_required_role = ch_required_role ch, ta_user_id = rq_user_id rq,
      ta_agent_id = map_option ag_id (rq_agent rq), ta_ttl_seconds = ticket_ttl_seconds (pl_approval p)\<rparr>"
    by (simp only: approval_args_def version role)
  have asked: "role_asked p rq triggered (ch_required_role ch)" by (simp only: role approver_role_asked)
  show ?thesis
    by (intro conjI exI [of _ p] exI [of _ verified] exI [of _ triggered] exI [of _ hash] exI [of _ k] exI [of _ ?ta])
      (fact a(1-4) e(1,2) loaded(1) s(1,4) [unfolded sel] signed asked args)+
qed

lemma approval_ticket_is_bound_witness:
  "\<exists>p verified triggered. fst (load (en_loader example_engine) [] (str ''demo'')) = Inr p
    \<and> evaluate_rules (pl_rules p) (rule_data (example_request\<lparr>rq_llm := example_doubt\<rparr>) verified) = Inr triggered
    \<and> role_asked p (example_request\<lparr>rq_llm := example_doubt\<rparr>) triggered (str ''treasury'')"
proof -
  obtain rs cache where e:
    "evaluate example_engine example_moment [] (example_request\<lparr>rq_llm := example_doubt\<rparr>) example_caller = (Inr rs, cache)"
    "rs_approval rs = Some \<lparr>ch_ticket = str ''tik'', ch_ticket_id = str ''u1'',
       ch_required_role = str ''treasury'', ch_expires_at = 4600\<rparr>"
    by (rule example_outcomeD [OF example_suggested])
  have "rq_plugin_id (example_request\<lparr>rq_llm := example_doubt\<rparr>) = str ''demo''" by (simp add: example_request_def)
  with approval_ticket_is_bound [OF e] obtain p verified triggered where
    "load (en_loader example_engine) [] (str ''demo'') = (Inr p, cache)"
    "evaluate_rules (pl_rules p) (rule_data (example_request\<lparr>rq_llm := example_doubt\<rparr>) verified) = Inr triggered"
    "role_asked p (example_request\<lparr>rq_llm := example_doubt\<rparr>) triggered (str ''treasury'')" by auto
  then show ?thesis by (metis fst_conv)
qed

text \<open>
  Scores stay in range: the three computed scores of every response are numbers between 0 and 1,
  whatever the penalties and risk deltas of the triggered rules add up to.
\<close>

theorem scores_in_range:
  assumes "evaluate en mo cache rq c = (Inr rs, cache')"
  shows "in_unit (sc_final_confidence (rs_scores rs)) \<and> in_unit (sc_risk_score (rs_scores rs))
    \<and> in_unit (sc_uncertainty_score (rs_scores rs))"
  using assms
proof (cases rule: evaluateD)
  case (unavailable m)
  then show ?thesis by (simp add: fail_safe_def in_unit_def)
next
  case (loaded p)
  obtain triggered sc verified v where "scores p rq triggered = Inr sc" "rs = response_of en mo p rq c verified triggered sc v"
    by (rule evaluate_policyD [OF loaded(2)])
  with scores_unit show ?thesis by simp
qed

lemma scores_in_range_witness:
  "\<exists>rs. fst (evaluate example_engine example_moment [] example_request example_caller) = Inr rs \<and> in_unit (sc_risk_score (rs_scores rs))"
proof -
  obtain rs cache where e: "evaluate example_engine example_moment [] example_request example_caller = (Inr rs, cache)"
    by (rule example_outcomeD [OF example_allowed])
  with scores_in_range [OF e] show ?thesis by simp
qed

text \<open>Payloads stay JSON values.\<close>

lemma json_dict_update: "wf_dict d \<Longrightarrow> wf_str k \<Longrightarrow> wf_val v \<Longrightarrow> wf_dict (AList.update k v d)"
proof -
  have "wf_items d \<Longrightarrow> wf_str k \<Longrightarrow> wf_val v \<Longrightarrow> wf_items (AList.update k v d)" by (induction d) auto
  then show "wf_dict d \<Longrightarrow> wf_str k \<Longrightarrow> wf_val v \<Longrightarrow> wf_dict (AList.update k v d)"
    by (simp add: wf_dict_def dict_ok_update)
qed

lemma json_dict_dmerge: "wf_dict d \<Longrightarrow> wf_items e \<Longrightarrow> wf_dict (dmerge d e)"
  by (induction d e rule: dmerge.induct) (simp_all add: json_dict_update)

lemma wf_dict_lookup: "wf_dict d \<Longrightarrow> map_of d k = Some v \<Longrightarrow> wf_val v"
  by (auto simp: wf_dict_def wf_items_iff dest!: map_of_SomeD)

lemma wf_setdefault:
  assumes "wf_dict d" "wf_str k" "wf_val v"
  shows "wf_dict (setdefault k v d)"
proof (cases "map_of d k = None")
  case True
  then have "AList.update k v d = d @ [(k, v)]" by (induction d) (auto split: if_splits)
  with True json_dict_update [OF assms] show ?thesis by (simp add: setdefault_def)
next
  case False
  with assms(1) show ?thesis by (auto simp: setdefault_def)
qed

lemma wf_base_payload:
  assumes "wf_dict (rq_payload rq)" "wf_str (rq_action_type rq)"
  shows "wf_dict (base_payload rq)"
proof -
  have lits: "wf_str (str ''proposed_action'')" "wf_str (str ''suggested_category'')" by code_simp+
  have "wf_dict (setdefault (str ''proposed_action'') (VStr (rq_action_type rq)) (rq_payload rq))"
    using assms lits(1) by (simp add: wf_setdefault)
  with lits(2) wf_dict_lookup [OF assms(1)] show ?thesis
    by (auto simp: base_payload_def Let_def intro: json_dict_update split: option.splits)
qed

lemma wf_actionable_payload:
  assumes "wf_dict (rq_payload rq)" "wf_str (rq_action_type rq)" "list_all rule_ok triggered"
  shows "wf_dict (actionable_payload rq triggered)"
proof -
  have "wf_dict (foldl (\<lambda>d r. dmerge d (rule_actionable_payload r)) d rules)" if "wf_dict d" "list_all rule_ok rules" for d rules
    using that
  proof (induction rules arbitrary: d)
    case (Cons r rules)
    then have "wf_items (rule_actionable_payload r)" by (simp add: rule_ok_def wf_dict_def)
    with Cons show ?case by (simp add: json_dict_dmerge)
  qed simp
  with assms(3) wf_base_payload [OF assms(1,2)] show ?thesis by (simp add: actionable_payload_def)
qed

text \<open>
  C27. Responses are well typed: for a valid request and a valid policy the returned payload is a JSON object
  with distinct keys, the computed scores are numbers between 0 and 1, the triggered rules are rules of the
  policy, and Passport and Passport id come together.
\<close>

theorem response_is_well_typed:
  assumes "request_ok rq" "wf_str (rq_action_type rq)" "plugin_ok p" "evaluate_policy en mo p rq c = Inr rs"
  shows "wf_dict (rs_actionable_payload rs)
    \<and> in_unit (sc_final_confidence (rs_scores rs)) \<and> in_unit (sc_risk_score (rs_scores rs))
    \<and> in_unit (sc_uncertainty_score (rs_scores rs))
    \<and> set (map tr_id (rs_rules_triggered rs)) \<subseteq> rule_id ` set (pl_rules p)
    \<and> (rs_passport rs = None \<longleftrightarrow> rs_passport_id rs = None)"
proof -
  obtain verified triggered sc v where e: "evaluate_rules (pl_rules p) (rule_data rq verified) = Inr triggered"
    "scores p rq triggered = Inr sc" "rs = response_of en mo p rq c verified triggered sc v"
    by (rule evaluate_policyD [OF assms(4)])
  have sub: "set triggered \<subseteq> set (pl_rules p)"
    using filterM_eq_Inr [OF e(1) [unfolded evaluate_rules_def]] by auto
  with assms(3) have "list_all rule_ok triggered" by (auto simp: plugin_ok_def list_all_iff)
  with assms(1,2) have "wf_dict (rs_actionable_payload rs)"
    by (simp add: e(3) wf_actionable_payload request_ok_def)
  moreover have "rs_passport rs = None \<longleftrightarrow> rs_passport_id rs = None"
    by (cases rule: response_of_cases [of en mo p rq c verified triggered sc v]) (simp_all add: e(3))
  moreover have "set (map tr_id (rs_rules_triggered rs)) \<subseteq> rule_id ` set (pl_rules p)"
    using sub unfolding e(3) response_of_fields by auto
  ultimately show ?thesis using scores_unit [OF e(2)] e(3) by simp
qed

lemma response_is_well_typed_witness:
  "\<exists>rs. evaluate_policy example_engine example_moment example_plugin example_request example_caller = Inr rs
     \<and> wf_dict (rs_actionable_payload rs)"
proof -
  obtain rs cache where e: "evaluate example_engine example_moment [] example_request example_caller = (Inr rs, cache)"
    by (rule example_outcomeD [OF example_allowed])
  have l: "load (en_loader example_engine) [] (rq_plugin_id example_request) = (Inr example_plugin, [(str ''demo'', example_plugin)])"
    using example_load_local by (simp add: example_engine_def example_request_def)
  from e l have p: "evaluate_policy example_engine example_moment example_plugin example_request example_caller = Inr rs"
    by (simp add: evaluate_def)
  have d: "is_double (7 / 8)" "is_double (3 / 4)" "is_double (1 / 2)" "is_double (1 / 4)" by code_simp+
  have w: "wf_str (str ''amount'')" "wf_str (rq_action_type example_request)" by code_simp+
  from d w have ok: "request_ok example_request" "plugin_ok example_plugin"
    by (simp_all add: request_ok_def example_request_def wf_dict_def dict_ok_def plugin_ok_def example_plugin_def
        thresholds_ok_def default_approval_def)
  from response_is_well_typed [OF ok(1) w(2) ok(2) p] p show ?thesis by blast
qed

text \<open>
  C19. Facts that rules read under \<open>verified\<close> cannot be forged by the caller: when a condition on
  \<open>verified.<provider>.<path>\<close> holds, one of the request's tokens vouches for that provider's facts,
  and the condition holds of the value they have at the path. Nothing else in the request matters.
\<close>

theorem verified_condition_is_vouched:
  assumes "verify_signed_context ce now (rq_signed_context rq) (rq_tenant_id rq) (rq_user_id rq) = Inr verified"
    and "load_providers (ce_environ ce) = Inr providers"
    and "46 \<notin> set pid" "cond_field cond = str ''verified.'' @ pid @ str ''.'' @ path"
    and "evaluate_condition cond (rule_data rq verified) = Inr True"
  shows "\<exists>token provider facts v. token \<in> set (rq_signed_context rq) \<and> cp_id provider = pid
    \<and> vouches ce now providers (rq_tenant_id rq) (rq_user_id rq) (audience (ce_environ ce)) token provider facts
    \<and> field_value facts path = Some v \<and> apply_operator (cond_operator cond) v (cond_value cond) = Inr True"
proof -
  from assms(5) obtain v where v: "field_value (rule_data rq verified) (cond_field cond) = Some v"
    "apply_operator (cond_operator cond) v (cond_value cond) = Inr True" by (auto simp: evaluate_condition_True)
  from v(1) have "field_value (vc_facts verified) (pid @ 46 # path) = Some v"
    using field_value_verified [of rq verified "pid @ 46 # path"] by (simp add: assms(4) str_def)
  then obtain facts where f: "map_of (vc_facts verified) pid = Some (VDict facts)" "field_value facts path = Some v"
    by (auto simp: field_value_under [OF assms(3)] split: option.splits pyval.splits)
  from verified_context_inv [OF assms(1,2)] f(1) obtain token provider where
    "token \<in> set (rq_signed_context rq)" "cp_id provider = pid"
    "vouches ce now providers (rq_tenant_id rq) (rq_user_id rq) (audience (ce_environ ce)) token provider facts"
    by (fastforce simp: tokens_inv_def)
  with f(2) v(2) show ?thesis by blast
qed

definition ledger_condition :: rule_condition where
  "ledger_condition = \<lparr>cond_field = str ''verified.ledger.balance'', cond_operator = Op_eq, cond_value = VInt 40\<rparr>"

lemma verified_condition_is_vouched_witness:
  "\<exists>providers token provider facts. load_providers (ce_environ example_context) = Inr providers \<and> token \<in> {str ''ctx'', str ''bad''}
     \<and> vouches example_context 1000 providers (str ''t1'') None (audience (ce_environ example_context)) token provider facts"
proof -
  let ?rq = "example_request\<lparr>rq_signed_context := [str ''ctx'', str ''bad'']\<rparr>"
  let ?vc = "\<lparr>vc_facts = [(str ''ledger'', VDict [(str ''balance'', VInt 40)])], vc_rejected = [str ''malformed token'']\<rparr>"
  have vc: "verify_signed_context example_context 1000 (rq_signed_context ?rq) (rq_tenant_id ?rq) (rq_user_id ?rq) = Inr ?vc"
    using example_verified by (simp add: example_request_def)
  have "field_value (rule_data ?rq ?vc) (str ''verified.ledger.balance'') = Some (VInt 40)"
    using field_value_verified [of ?rq ?vc "str ''ledger.balance''"] by (simp add: str_def field_value_def)
  then have c: "evaluate_condition ledger_condition (rule_data ?rq ?vc) = Inr True"
    by (simp add: evaluate_condition_True ledger_condition_def num_eq_def)
  have "46 \<notin> set (str ''ledger'')" "cond_field ledger_condition = str ''verified.'' @ str ''ledger'' @ str ''.'' @ str ''balance''"
    by (simp_all add: str_def ledger_condition_def)
  from verified_condition_is_vouched [OF vc example_providers this c] example_providers show ?thesis
    by (auto simp: example_request_def)
qed

text \<open>
  C21. A decision is reached, or one error escapes: once a policy is loaded and the integers its rules
  compare are in the range of doubles, a request without signed context is always answered, unless its
  payload's \<open>proposed_action\<close> or its resolved intent is looked up in the gated actions and is not
  hashable, which is a \<open>TypeError\<close> instead of a fail-safe answer.
\<close>

theorem decision_is_reached:
  assumes "load (en_loader en) cache (rq_plugin_id rq) = (Inr p, cache')" "rq_signed_context rq = []"
    and "list_all (\<lambda>r. group_floats (rule_data rq no_context) (rule_condition r)) (pl_rules p)"
  shows "if rq_action_type rq \<in> set (gate_actions (pl_uncertainty_gate p))
      \<or> hashable (dget (rq_payload rq) ''proposed_action'')
        \<and> (in_gated p (dget (rq_payload rq) ''proposed_action'') = Inr True \<or> hashable (dget (rq_intent rq) ''resolved''))
    then \<exists>rs. evaluate en mo cache rq c = (Inr rs, cache') else evaluate en mo cache rq c = (Inl TypeError, cache')"
proof -
  have v: "verify_signed_context (en_context en) (mo_now mo) (rq_signed_context rq) (rq_tenant_id rq) (rq_user_id rq) = Inr no_context"
    by (simp add: assms(2) verify_signed_context_def)
  have "evaluate_rules (pl_rules p) (rule_data rq no_context)
      = Inr (filter (\<lambda>r. group_match (rule_data rq no_context) (rule_condition r)) (pl_rules p))"
    by (rule evaluate_rules_match) (use assms(3) in \<open>simp add: list_all_iff\<close>)
  note g = evaluate_policy_gated [OF v this, of c]
  have e: "evaluate en mo cache rq c = (evaluate_policy en mo p rq c, cache')"
    using assms(1) by (simp add: evaluate_def)
  show ?thesis
  proof (cases "is_gated_write p rq")
    case (Inl err)
    with is_gated_write_cases [of rq p] g show ?thesis unfolding e by (auto split: if_splits)
  next
    case (Inr b)
    with is_gated_write_cases [of rq p] g show ?thesis unfolding e by (auto split: if_splits)
  qed
qed

lemma decision_is_reached_witness:
  "fst (evaluate example_engine example_moment [] (example_request\<lparr>rq_payload := [(str ''proposed_action'', VList [])]\<rparr>) example_caller)
     = Inl TypeError"
proof -
  let ?rq = "example_request\<lparr>rq_payload := [(str ''proposed_action'', VList [])]\<rparr>"
  have "load (en_loader example_engine) [] (rq_plugin_id ?rq) = (Inr example_plugin, [(str ''demo'', example_plugin)])"
    using example_load_local by (simp add: example_engine_def example_request_def)
  from decision_is_reached [OF this] show ?thesis
    by (simp add: example_request_def example_plugin_def dget_def)
qed

text \<open>
  C22. The payload a Passport binds is the whole payload of the request: every field keeps its value
  unless a triggered rule sets it (the last such rule wins) or the proposed category is suggested; only
  the proposed action is filled in when it is missing.
\<close>

theorem payload_is_complete:
  assumes "list_all (\<lambda>r. dict_ok (rule_actionable_payload r)) triggered"
  shows "map_of (actionable_payload rq triggered) k =
    (case overrides triggered k of
       [] \<Rightarrow> if k = str ''suggested_category'' \<and> map_of (rq_payload rq) (str ''proposed_category'') \<noteq> None
            then map_of (rq_payload rq) (str ''proposed_category'')
            else if k = str ''proposed_action'' \<and> map_of (rq_payload rq) k = None then Some (VStr (rq_action_type rq))
            else map_of (rq_payload rq) k
     | v # vs \<Rightarrow> Some (last (v # vs)))"
  unfolding actionable_payload_def merge_rules [OF assms] base_payload_get ..

lemma payload_is_complete_witness:
  "map_of (actionable_payload example_request [example_rule]) (str ''amount'') = Some (VInt 5)"
proof -
  have "list_all (\<lambda>r. dict_ok (rule_actionable_payload r)) [example_rule]" by (simp add: example_rule_def)
  from payload_is_complete [OF this, of example_request "str ''amount''"] show ?thesis
    by (simp add: overrides_def example_rule_def example_request_def)
qed

end
