(* ===== verification/Approvals.thy ===== *)
theory Approvals
  imports EngineExample
begin

text \<open>
  \<open>axg/approvals.py\<close>: human approval of CONFIRM and SUGGEST decisions. The service keeps no state of its
  own beyond the plugin cache; a submission is checked against the signed ticket, the caller, the
  approver and the current policy, and an approval becomes a Passport whose id is the ticket's.
\<close>

section \<open>Definitions\<close>

definition APPROVE_PERMISSION :: pystr where
  "APPROVE_PERMISSION = str ''approvals:approve''"

definition END_USER_ROLE :: pystr where
  "END_USER_ROLE = str ''end_user''"

text \<open>\<open>ApprovalRejected\<close> carries a status code and a message; any other exception escapes.\<close>

datatype approval_failure = Rejected int pystr | Raised pyexc

definition ensure :: "bool \<Rightarrow> int \<Rightarrow> pystr \<Rightarrow> approval_failure + unit" where
  "ensure ok status detail = (if ok then Inr () else Inl (Rejected status detail))"

definition verified_ticket :: "engine_env \<Rightarrow> int \<Rightarrow> pystr \<Rightarrow> approval_failure + ticket_claims" where
  "verified_ticket en now token =
     (case verify_approval_ticket (en_lib en) (le_environ (en_loader en)) (en_keys en) now token of
        Inr ticket \<Rightarrow> Inr ticket
      | Inl (TicketError m) \<Rightarrow> Inl (Rejected 400 m)
      | Inl e \<Rightarrow> Inl (Raised e))"

definition check_caller :: "ticket_claims \<Rightarrow> caller \<Rightarrow> approval_failure + unit" where
  "check_caller ticket c =
     rbind (ensure (may_act_for c (tc_aud ticket)) 403 (str ''The caller may not submit approvals for this app'')) (\<lambda>_.
       ensure (APPROVE_PERMISSION \<in> set (effective_permissions c [APPROVE_PERMISSION])) 403
         (str ''The caller needs the '' @ quoted APPROVE_PERMISSION @ str '' permission''))"

text \<open>An optional claim counts when it is set and not empty.\<close>

definition named :: "pystr option \<Rightarrow> (pystr \<Rightarrow> bool) \<Rightarrow> bool" where
  "named s P = (case s of None \<Rightarrow> False | Some t \<Rightarrow> t \<noteq> [] \<and> P t)"

definition check_approver :: "engine_env \<Rightarrow> ticket_claims \<Rightarrow> approval_request \<Rightarrow> approval_failure + unit" where
  "check_approver en ticket aq =
     (case hash_payload (en_lib en) (aq_actionable_payload aq) of
        Inl e \<Rightarrow> Inl (Raised e)
      | Inr hash \<Rightarrow>
          rbind (ensure (hash = tc_payload_hash ticket) 409 (str ''The payload differs from the one that was decided'')) (\<lambda>_.
            rbind (ensure (ap_role (aq_approver aq) = tc_required_role ticket) 403
                     (str ''This action must be approved by the role '' @ quoted (tc_required_role ticket))) (\<lambda>_.
              rbind (ensure (\<not> named (tc_agent_id ticket) (\<lambda>a. ap_id (aq_approver aq) = a)) 403
                       (str ''An agent cannot approve its own action'')) (\<lambda>_.
                ensure (\<not> (tc_required_role ticket = END_USER_ROLE \<and> named (tc_user_id ticket) (\<lambda>u. ap_id (aq_approver aq) \<noteq> u)))
                  403 (str ''Only the user the action was proposed for can approve it'')))))"

definition check_policy :: "engine_env \<Rightarrow> plugin_cache \<Rightarrow> ticket_claims \<Rightarrow> (approval_failure + unit) \<times> plugin_cache" where
  "check_policy en cache ticket =
     (case load (en_loader en) cache (tc_plugin_id ticket) of
        (Inl (PluginLoadError _), cache') \<Rightarrow>
          (Inl (Rejected 409 (str ''The policy that decided is no longer available'')), cache')
      | (Inl (Escaped e), cache') \<Rightarrow> (Inl (Raised e), cache')
      | (Inr p, cache') \<Rightarrow>
          (ensure (version_label p = tc_policy ticket) 409
             (str ''The policy changed since the decision. Request a new decision.''), cache'))"

definition approved_args :: "ticket_claims \<Rightarrow> approval_request \<Rightarrow> caller \<Rightarrow> decision_args" where
  "approved_args ticket aq c =
     \<lparr>da_execution_id = tc_sub ticket, da_app_id = tc_aud ticket, da_tenant_id = tc_tenant_id ticket,
      da_decision = str ''ALLOW'', da_action_type = tc_action_type ticket, da_payload = aq_actionable_payload aq,
      da_client_id = cl_client_id c, da_policy = tc_policy ticket, da_expires_in_minutes = 5,
      da_jti = Some (tc_jti ticket),
      da_approval = Some \<lparr>pa_ticket_id = tc_jti ticket, pa_approver_id = ap_id (aq_approver aq),
        pa_approver_role = ap_role (aq_approver aq)\<rparr>\<rparr>"

definition issue :: "engine_env \<Rightarrow> moment \<Rightarrow> ticket_claims \<Rightarrow> approval_request \<Rightarrow> caller \<Rightarrow> approval_failure + (pystr \<times> pystr) option" where
  "issue en mo ticket aq c =
     (case aq_outcome aq of
        Deny \<Rightarrow> Inr None
      | Approve \<Rightarrow>
          (case sign_decision (en_lib en) (en_keys en) (mo_now mo) (mo_uuid mo) (approved_args ticket aq c) of
             Inr token_jti \<Rightarrow> Inr (Some token_jti)
           | Inl e \<Rightarrow> Inl (if is_value_error e then Rejected 503 (str ''AXG could not issue a Passport. Retry the approval.'')
                         else Raised e)))"

definition outcome_text :: "approval_request \<Rightarrow> pystr" where
  "outcome_text aq = (case aq_outcome aq of Approve \<Rightarrow> str ''approved'' | Deny \<Rightarrow> str ''denied'')"

definition approval_answer ::
    "moment \<Rightarrow> ticket_claims \<Rightarrow> approval_request \<Rightarrow> caller \<Rightarrow> (pystr \<times> pystr) option \<Rightarrow> approval_response \<times> approval_record" where
  "approval_answer mo ticket aq c passport =
     (\<lparr>ar_execution_id = tc_sub ticket, ar_outcome = outcome_text aq, ar_passport = map_option fst passport,
       ar_passport_id = map_option snd passport,
       ar_actionable_payload = (case passport of Some (t, _) \<Rightarrow> if t \<noteq> [] then aq_actionable_payload aq else [] | None \<Rightarrow> [])\<rparr>,
      \<lparr>al_execution_id = tc_sub ticket, al_tenant_id = tc_tenant_id ticket, al_app_id = tc_aud ticket,
       al_action_type = tc_action_type ticket, al_policy = tc_policy ticket, al_ticket_id = tc_jti ticket,
       al_payload_hash = tc_payload_hash ticket, al_approver_id = ap_id (aq_approver aq),
       al_approver_role = ap_role (aq_approver aq), al_outcome = outcome_text aq, al_client_id = cl_client_id c,
       al_passport_id = map_option snd passport, al_created_at = mo_iso mo, al_trace_id = mo_trace_id mo\<rparr>)"

definition submit ::
    "engine_env \<Rightarrow> moment \<Rightarrow> plugin_cache \<Rightarrow> approval_request \<Rightarrow> caller
       \<Rightarrow> (approval_failure + approval_response \<times> approval_record) \<times> plugin_cache" where
  "submit en mo cache aq c =
     (case rbind (ensure (cl_authenticated c) 401 (str ''Approvals require an authenticated caller'')) (\<lambda>_.
              rbind (verified_ticket en (mo_now mo) (aq_ticket aq)) (\<lambda>ticket.
                rbind (check_caller ticket c) (\<lambda>_. rmap (\<lambda>_. ticket) (check_approver en ticket aq)))) of
        Inl e \<Rightarrow> (Inl e, cache)
      | Inr ticket \<Rightarrow>
          (case check_policy en cache ticket of
             (Inl e, cache') \<Rightarrow> (Inl e, cache')
           | (Inr _, cache') \<Rightarrow> (rmap (approval_answer mo ticket aq c) (issue en mo ticket aq c), cache')))"

section \<open>Accepted submissions\<close>

lemma ensure_eq [simp]: "ensure ok st m = Inr u \<longleftrightarrow> ok" "ensure ok st m = Inl e \<longleftrightarrow> \<not> ok \<and> e = Rejected st m"
  by (auto simp: ensure_def)

definition right_approver :: "ticket_claims \<Rightarrow> approver_identity \<Rightarrow> bool" where
  "right_approver ticket approver \<longleftrightarrow> ap_role approver = tc_required_role ticket
     \<and> \<not> named (tc_agent_id ticket) (\<lambda>a. ap_id approver = a)
     \<and> (tc_required_role ticket = END_USER_ROLE \<longrightarrow> \<not> named (tc_user_id ticket) (\<lambda>u. ap_id approver \<noteq> u))"

definition may_approve :: "ticket_claims \<Rightarrow> caller \<Rightarrow> bool" where
  "may_approve ticket c \<longleftrightarrow> cl_authenticated c \<and> may_act_for c (tc_aud ticket)
     \<and> APPROVE_PERMISSION \<in> set (effective_permissions c [APPROVE_PERMISSION])"

lemma check_caller_iff: "check_caller ticket c = Inr u \<longleftrightarrow>
    may_act_for c (tc_aud ticket) \<and> APPROVE_PERMISSION \<in> set (effective_permissions c [APPROVE_PERMISSION])"
  by (auto simp: check_caller_def rbind_eq_Inr)

lemma check_approver_iff: "check_approver en ticket aq = Inr u \<longleftrightarrow>
    hash_payload (en_lib en) (aq_actionable_payload aq) = Inr (tc_payload_hash ticket) \<and> right_approver ticket (aq_approver aq)"
  by (auto simp: check_approver_def right_approver_def rbind_eq_Inr split: sum.splits)

lemma verified_ticket_iff: "verified_ticket en now token = Inr ticket \<longleftrightarrow>
    verify_approval_ticket (en_lib en) (le_environ (en_loader en)) (en_keys en) now token = Inr ticket"
  by (simp add: verified_ticket_def split: sum.splits pyexc.splits)

lemma check_policy_iff: "check_policy en cache ticket = (Inr u, cache') \<longleftrightarrow>
    (\<exists>p. load (en_loader en) cache (tc_plugin_id ticket) = (Inr p, cache') \<and> version_label p = tc_policy ticket)"
  by (auto simp: check_policy_def split: prod.splits sum.splits load_error.splits)

lemmas checks = check_caller_iff check_approver_iff verified_ticket_iff

text \<open>The acceptance conditions, all at once.\<close>

lemma submit_iff:
  "submit en mo cache aq c = (Inr answer, cache') \<longleftrightarrow>
    (\<exists>ticket p passport. verify_approval_ticket (en_lib en) (le_environ (en_loader en)) (en_keys en) (mo_now mo) (aq_ticket aq) = Inr ticket
      \<and> may_approve ticket c \<and> hash_payload (en_lib en) (aq_actionable_payload aq) = Inr (tc_payload_hash ticket)
      \<and> right_approver ticket (aq_approver aq)
      \<and> load (en_loader en) cache (tc_plugin_id ticket) = (Inr p, cache') \<and> version_label p = tc_policy ticket
      \<and> issue en mo ticket aq c = Inr passport \<and> answer = approval_answer mo ticket aq c passport)"
  (is "?L \<longleftrightarrow> ?R")
proof
  let ?checked = "rbind (ensure (cl_authenticated c) 401 (str ''Approvals require an authenticated caller'')) (\<lambda>_.
      rbind (verified_ticket en (mo_now mo) (aq_ticket aq)) (\<lambda>ticket.
        rbind (check_caller ticket c) (\<lambda>_. rmap (\<lambda>_. ticket) (check_approver en ticket aq))))"
  assume l: ?L
  then obtain ticket where t: "?checked = Inr ticket" by (cases ?checked) (simp_all add: submit_def)
  with l obtain u where p: "check_policy en cache ticket = (Inr u, cache')"
    "rmap (approval_answer mo ticket aq c) (issue en mo ticket aq c) = Inr answer"
    by (auto simp: submit_def split: prod.splits sum.splits)
  from t have c: "cl_authenticated c" "verified_ticket en (mo_now mo) (aq_ticket aq) = Inr ticket"
    "check_caller ticket c = Inr ()" "check_approver en ticket aq = Inr ()"
    by (auto simp: rbind_eq_Inr rmap_eq_Inr)
  from p(2) obtain passport where "issue en mo ticket aq c = Inr passport" "answer = approval_answer mo ticket aq c passport"
    by (auto simp: rmap_eq_Inr)
  moreover from p(1) obtain q where "load (en_loader en) cache (tc_plugin_id ticket) = (Inr q, cache')"
    "version_label q = tc_policy ticket" by (auto simp: check_policy_iff)
  moreover from c have "may_approve ticket c" by (simp add: checks may_approve_def)
  ultimately show ?R using c by (auto simp: checks)
next
  assume ?R
  then obtain ticket p passport where r: "verified_ticket en (mo_now mo) (aq_ticket aq) = Inr ticket" "may_approve ticket c"
    "check_approver en ticket aq = Inr ()" "check_policy en cache ticket = (Inr (), cache')"
    "issue en mo ticket aq c = Inr passport" "answer = approval_answer mo ticket aq c passport"
    by (auto simp: checks check_policy_iff)
  from r(2) have "check_caller ticket c = Inr ()" "cl_authenticated c" by (simp_all add: checks may_approve_def)
  with r show ?L by (simp add: submit_def ensure_def)
qed

lemma issue_cases:
  assumes "issue en mo ticket aq c = Inr passport"
  obtains (denied) "aq_outcome aq = Deny" "passport = None"
  | (approved) token jti where "aq_outcome aq = Approve" "passport = Some (token, jti)"
      "sign_decision (en_lib en) (en_keys en) (mo_now mo) (mo_uuid mo) (approved_args ticket aq c) = Inr (token, jti)"
      "jti = or_else (Some (tc_jti ticket)) (mo_uuid mo)"
proof (cases "aq_outcome aq")
  case Deny
  with assms that(1) show ?thesis by (simp add: issue_def)
next
  case Approve
  with assms obtain token jti where s: "passport = Some (token, jti)"
    "sign_decision (en_lib en) (en_keys en) (mo_now mo) (mo_uuid mo) (approved_args ticket aq c) = Inr (token, jti)"
    by (cases passport) (auto simp: issue_def split: sum.splits)
  from s(2) have "jti = or_else (da_jti (approved_args ticket aq c)) (mo_uuid mo)" by (rule sign_decisionD)
  with Approve s that(2) show ?thesis by (simp add: approved_args_def)
qed

lemma submit_issue:
  assumes "verify_approval_ticket (en_lib en) (le_environ (en_loader en)) (en_keys en) (mo_now mo) (aq_ticket aq) = Inr ticket"
    and "may_approve ticket c" "right_approver ticket (aq_approver aq)"
    and "hash_payload (en_lib en) (aq_actionable_payload aq) = Inr (tc_payload_hash ticket)"
    and "load (en_loader en) cache (tc_plugin_id ticket) = (Inr p, cache')" "version_label p = tc_policy ticket"
  shows "submit en mo cache aq c = (rmap (approval_answer mo ticket aq c) (issue en mo ticket aq c), cache')"
proof -
  have "check_policy en cache ticket = (Inr (), cache')" using assms(5,6) by (auto simp: check_policy_iff)
  moreover have "check_caller ticket c = Inr ()" "cl_authenticated c" using assms(2) by (simp_all add: checks may_approve_def)
  moreover have "check_approver en ticket aq = Inr ()" "verified_ticket en (mo_now mo) (aq_ticket aq) = Inr ticket"
    using assms(1,3,4) by (simp_all add: checks)
  ultimately show ?thesis by (simp add: submit_def ensure_def)
qed

section \<open>Tickets that were signed\<close>

text \<open>pydantic's documented behaviour: the dump of a valid ticket validates to that ticket.\<close>

definition validate_law :: "crypto_lib \<Rightarrow> bool" where
  "validate_law lib \<longleftrightarrow> (\<forall>c. tc_decision c \<in> {str ''CONFIRM'', str ''SUGGEST''} \<and> is_sha256_hex (tc_payload_hash c)
     \<longrightarrow> validate_ticket lib (ticket_dump c) = Some c)"

lemma ticket_dump_get:
  "dget (ticket_dump c) ''iss'' = VStr ISSUER" "dget (ticket_dump c) ''sub'' = VStr (tc_sub c)"
  "dget (ticket_dump c) ''aud'' = VStr (tc_aud c)" "dget (ticket_dump c) ''azp'' = VStr (tc_azp c)"
  "dget (ticket_dump c) ''iat'' = VInt (tc_iat c)" "dget (ticket_dump c) ''nbf'' = VInt (tc_nbf c)"
  "dget (ticket_dump c) ''exp'' = VInt (tc_exp c)" "dget (ticket_dump c) ''jti'' = VStr (tc_jti c)"
  "dget (ticket_dump c) ''tenant_id'' = VStr (tc_tenant_id c)" "dget (ticket_dump c) ''plugin_id'' = VStr (tc_plugin_id c)"
  "dget (ticket_dump c) ''policy'' = VStr (tc_policy c)" "dget (ticket_dump c) ''decision'' = VStr (tc_decision c)"
  "dget (ticket_dump c) ''action_type'' = VStr (tc_action_type c)"
  "dget (ticket_dump c) ''payload_hash'' = VStr (tc_payload_hash c)"
  "dget (ticket_dump c) ''required_role'' = VStr (tc_required_role c)"
  "dget (ticket_dump c) ''user_id'' = opt_str (tc_user_id c)" "dget (ticket_dump c) ''agent_id'' = opt_str (tc_agent_id c)"
  by (simp_all add: ticket_dump_def opt_item_def opt_str_def dget_Cons ISSUER_def dget_def split: option.splits)

lemma map_of_ticket_dump:
  "map_of (ticket_dump c) (str ''exp'') = Some (VInt (tc_exp c))"
  "map_of (ticket_dump c) (str ''iat'') = Some (VInt (tc_iat c))"
  "map_of (ticket_dump c) (str ''nbf'') = Some (VInt (tc_nbf c))"
  "map_of (ticket_dump c) (str ''jti'') = Some (VStr (tc_jti c))"
  by (simp_all add: ticket_dump_def)

lemma ticket_current:
  assumes "tc_iat c \<le> now" "tc_nbf c \<le> now" "now < tc_exp c"
  shows "claims_current axg_decode_options now (ticket_dump c)"
  using assms by (simp add: claims_current_def time_claim_def ticket_dump_get map_of_ticket_dump axg_decode_options_def)

lemma signed_ticket_verifies:
  assumes laws: "encode_law lib" "round_trip_law lib" "validate_law lib"
    and keys: "derive_public lib (km_private km) = Inr (km_public km)" "previous_public_keys env = Inr ps"
    and sign: "sign_approval_ticket lib km issued uuid a = Inr ch"
    and time: "issued \<le> now" "now < ch_expires_at ch"
  obtains hash where "hash_payload lib (ta_payload a) = Inr hash"
    "verify_approval_ticket lib env km now (ch_ticket ch) = Inr (ticket_of a hash issued uuid)"
proof -
  from sign obtain hash k where s: "hash_payload lib (ta_payload a) = Inr hash" "kid lib km = Inr k" "is_sha256_hex hash"
    "ta_decision a \<in> {str ''CONFIRM'', str ''SUGGEST''}" "ch_ticket_id ch = uuid"
    "ch_required_role ch = ta_required_role a" "ch_expires_at ch = issued + ta_ttl_seconds a"
    "jwt_encode lib (ticket_dump (ticket_of a hash issued uuid)) (km_private km)
       [(str ''kid'', VStr k), (str ''typ'', VStr APPROVAL_TICKET_TYP)] = Inr (ch_ticket ch)"
    by (rule sign_approval_ticketD)
  let ?c = "ticket_of a hash issued uuid"
  from ticket_header [OF laws(1) s(8)] obtain hd where
    hd: "jwt_header lib (ch_ticket ch) = Inr hd" "dget hd ''kid'' = VStr k" "dget hd ''typ'' = VStr APPROVAL_TICKET_TYP" by blast
  have cur: "claims_current axg_decode_options now (ticket_dump ?c)"
    using time by (intro ticket_current) (simp_all add: ticket_of_def s(7))
  have "jwt_decode lib axg_decode_options now (ch_ticket ch) (km_public km) = Inr (ticket_dump ?c)"
    using laws(2) s(8) keys(1) _ cur by (rule decode_signed) (simp add: axg_decode_options_def)
  moreover have "validate_ticket lib (ticket_dump ?c) = Some ?c"
    using laws(3) s(3,4) unfolding validate_law_def by (simp add: ticket_of_def)
  ultimately have "verify_approval_ticket lib env km now (ch_ticket ch) = Inr ?c"
    using hd verification_key_current [OF s(2) keys(2)]
    by (simp add: verify_approval_ticket_def ticket_claims_of_def)
  with s(1) that show thesis by blast
qed

text \<open>A ticket that was signed passes every check of a submission by the right parties while it is valid.\<close>

lemma fresh_ticket_submits:
  assumes "encode_law (en_lib en)" "round_trip_law (en_lib en)" "validate_law (en_lib en)"
    and "derive_public (en_lib en) (km_private (en_keys en)) = Inr (km_public (en_keys en))"
    and "previous_public_keys (le_environ (en_loader en)) = Inr ps"
    and "sign_approval_ticket (en_lib en) (en_keys en) issued uuid a = Inr ch"
    and "issued \<le> mo_now mo" "mo_now mo < ch_expires_at ch"
    and "hash_payload (en_lib en) (ta_payload a) = Inr hash" "ticket = ticket_of a hash issued uuid"
    and "aq_ticket aq = ch_ticket ch" "aq_actionable_payload aq = ta_payload a"
    and "may_approve ticket c" "right_approver ticket (aq_approver aq)"
    and "load (en_loader en) cache (ta_plugin_id a) = (Inr p, cache')" "version_label p = ta_policy a"
  shows "submit en mo cache aq c = (rmap (approval_answer mo ticket aq c) (issue en mo ticket aq c), cache')"
proof -
  from signed_ticket_verifies [OF assms(1-8)] assms(9,10)
  have "verify_approval_ticket (en_lib en) (le_environ (en_loader en)) (en_keys en) (mo_now mo) (aq_ticket aq) = Inr ticket"
    by (metis Inr_inject assms(11))
  moreover have "tc_payload_hash ticket = hash" "tc_plugin_id ticket = ta_plugin_id a" "tc_policy ticket = ta_policy a"
    by (simp_all add: assms(10) ticket_of_def)
  ultimately show ?thesis using submit_issue [of en mo aq ticket c cache p cache'] assms(9,12-16) by simp
qed

section \<open>An example approval\<close>

definition text_of :: "pyval \<Rightarrow> pystr" where
  "text_of v = (case v of VStr s \<Rightarrow> s | _ \<Rightarrow> [])"

definition int_of :: "pyval \<Rightarrow> int" where
  "int_of v = (case v of VInt n \<Rightarrow> n | _ \<Rightarrow> 0)"

definition option_of :: "pyval \<Rightarrow> pystr option" where
  "option_of v = (case v of VStr s \<Rightarrow> Some s | _ \<Rightarrow> None)"

definition parse_ticket :: "pydict \<Rightarrow> ticket_claims option" where
  "parse_ticket d =
     (let c = \<lparr>tc_sub = text_of (dget d ''sub''), tc_aud = text_of (dget d ''aud''), tc_azp = text_of (dget d ''azp''),
        tc_iat = int_of (dget d ''iat''), tc_nbf = int_of (dget d ''nbf''), tc_exp = int_of (dget d ''exp''),
        tc_jti = text_of (dget d ''jti''), tc_tenant_id = text_of (dget d ''tenant_id''),
        tc_plugin_id = text_of (dget d ''plugin_id''), tc_policy = text_of (dget d ''policy''),
        tc_decision = text_of (dget d ''decision''), tc_action_type = text_of (dget d ''action_type''),
        tc_payload_hash = text_of (dget d ''payload_hash''), tc_required_role = text_of (dget d ''required_role''),
        tc_user_id = option_of (dget d ''user_id''), tc_agent_id = option_of (dget d ''agent_id'')\<rparr>
      in if ticket_dump c = d then Some c else None)"

lemma parse_ticket_dump: "parse_ticket (ticket_dump c) = Some c"
proof -
  have "option_of (opt_str s) = s" for s by (simp add: option_of_def opt_str_def split: option.splits)
  then show ?thesis by (cases c) (simp add: parse_ticket_def ticket_dump_get text_of_def int_of_def Let_def)
qed

definition example_approval :: approval_request where
  "example_approval = \<lparr>aq_ticket = str ''tik'', aq_actionable_payload = example_payload,
     aq_approver = \<lparr>ap_id = str ''boss'', ap_role = str ''treasury''\<rparr>, aq_outcome = Approve\<rparr>"

definition example_approver :: caller where
  "example_approver = \<lparr>cl_client_id = str ''desk'', cl_authenticated = True, cl_app_ids = {str ''app''},
     cl_permissions = Some {APPROVE_PERMISSION}\<rparr>"

definition approving_table :: token_table where
  "approving_table = example_tokens @
     [(str ''ptok'', str ''k'', passport_dump (passport_of (approved_args
         (ticket_of example_approving example_payload_hash 1000 (str ''u1'')) example_approval example_approver)
         example_payload_hash 1000 (str ''u1'')), [(str ''kid'', VStr example_kid)])]"

definition approving_engine :: engine_env where
  "approving_engine = example_engine\<lparr>en_lib := (example_lib approving_table [])\<lparr>validate_ticket := parse_ticket\<rparr>\<rparr>"

lemma approving_sel [simp]:
  "en_lib approving_engine = (example_lib approving_table [])\<lparr>validate_ticket := parse_ticket\<rparr>"
  "en_keys approving_engine = example_keys" "en_loader approving_engine = example_env"
  by (simp_all add: approving_engine_def example_engine_def)

lemma approving_laws: "encode_law (en_lib approving_engine)" "round_trip_law (en_lib approving_engine)"
  "validate_law (en_lib approving_engine)"
proof -
  have "distinct (map fst approving_table)" by (simp add: approving_table_def example_tokens_def)
  from example_lib_laws(3,4) [OF this, of "[]"]
  show "encode_law (en_lib approving_engine)" "round_trip_law (en_lib approving_engine)"
    by (simp_all add: encode_law_def round_trip_law_def)
  show "validate_law (en_lib approving_engine)" by (simp add: validate_law_def parse_ticket_dump)
qed

lemma approving_keys: "derive_public (en_lib approving_engine) (km_private (en_keys approving_engine))
    = Inr (km_public (en_keys approving_engine))" "previous_public_keys (le_environ (en_loader approving_engine)) = Inr []"
  by (simp_all add: example_keys_def str_def previous_public_keys_def env_get_def py_strip_def example_env_def)

lemma approving_signs:
  "sign_approval_ticket (en_lib approving_engine) (en_keys approving_engine) 1000 (str ''u1'') example_approving
     = Inr \<lparr>ch_ticket = str ''tik'', ch_ticket_id = str ''u1'', ch_required_role = str ''treasury'', ch_expires_at = 4600\<rparr>"
  "sign_decision (en_lib approving_engine) (en_keys approving_engine) 1000 (str ''u1'')
     (approved_args (ticket_of example_approving example_payload_hash 1000 (str ''u1'')) example_approval example_approver)
     = Inr (str ''ptok'', str ''u1'')"
  "hash_payload (en_lib approving_engine) (ta_payload example_approving) = Inr example_payload_hash"
  by code_simp+

lemma approving_parties:
  "may_approve (ticket_of example_approving h t j) example_approver"
  "right_approver (ticket_of example_approving h t j) (aq_approver example_approval)"
  by (simp_all add: may_approve_def right_approver_def example_approver_def example_approval_def ticket_of_def
      example_approving_def approval_args_def may_act_for_def effective_permissions_def named_def END_USER_ROLE_def
      approver_role_def action_of_def example_plugin_def example_request_def by_strictness_def sort_desc_def nonempty_def
      APPROVE_PERMISSION_def WILDCARD_def)

lemma approving_submits:
  obtains answer cache where "submit approving_engine example_moment [] example_approval example_approver = (Inr answer, cache)"
proof -
  have now: "mo_now example_moment = 1000" by (simp add: example_moment_def)
  obtain hash where h: "hash_payload (en_lib approving_engine) (ta_payload example_approving) = Inr hash"
    "verify_approval_ticket (en_lib approving_engine) (le_environ (en_loader approving_engine)) (en_keys approving_engine) 1000 (str ''tik'')
       = Inr (ticket_of example_approving hash 1000 (str ''u1''))"
    using signed_ticket_verifies [OF approving_laws approving_keys approving_signs(1), of 1000] by auto
  let ?ticket = "ticket_of example_approving example_payload_hash 1000 (str ''u1'')"
  have v: "verify_approval_ticket (en_lib approving_engine) (le_environ (en_loader approving_engine)) (en_keys approving_engine)
      (mo_now example_moment) (aq_ticket example_approval) = Inr ?ticket"
    using h approving_signs(3) by (simp add: now example_approval_def)
  have p: "hash_payload (en_lib approving_engine) (aq_actionable_payload example_approval) = Inr (tc_payload_hash ?ticket)"
    using approving_signs(3) by (simp add: example_approval_def ticket_of_def example_approving_def approval_args_def)
  have l: "load (en_loader approving_engine) [] (tc_plugin_id ?ticket) = (Inr example_plugin, [(str ''demo'', example_plugin)])"
    using example_load_local by (simp add: ticket_of_def example_approving_def approval_args_def example_request_def)
  have "version_label example_plugin = tc_policy ?ticket"
    by (simp add: ticket_of_def example_approving_def approval_args_def)
  from submit_issue [OF v approving_parties p l this] approving_signs(2) that show thesis
    by (auto simp: issue_def now example_moment_def example_approval_def)
qed

section \<open>Properties\<close>

text \<open>
  C11. An accepted submission had the right people on both sides: an authenticated caller allowed to
  approve for the ticket's app, and an approver with the required role who is not the agent that
  proposed the action and, for \<open>end_user\<close> approvals, is the user it was proposed for. The ticket
  verified, the payload is the one it binds, and the policy is still the one that decided. A Passport
  is issued exactly for an approval, over the ticket's action and that payload, with the ticket's id
  and the approver's name.
\<close>

theorem accepted_approval_is_authorized:
  assumes "submit en mo cache aq c = (Inr (resp, entry), cache')"
  shows "\<exists>ticket p. verify_approval_ticket (en_lib en) (le_environ (en_loader en)) (en_keys en) (mo_now mo) (aq_ticket aq) = Inr ticket
    \<and> may_approve ticket c \<and> right_approver ticket (aq_approver aq)
    \<and> hash_payload (en_lib en) (aq_actionable_payload aq) = Inr (tc_payload_hash ticket)
    \<and> load (en_loader en) cache (tc_plugin_id ticket) = (Inr p, cache') \<and> version_label p = tc_policy ticket
    \<and> (case ar_passport resp of None \<Rightarrow> aq_outcome aq = Deny
       | Some token \<Rightarrow> aq_outcome aq = Approve \<and> (\<exists>jti. ar_passport_id resp = Some jti \<and> (tc_jti ticket \<noteq> [] \<longrightarrow> jti = tc_jti ticket)
           \<and> (\<exists>k. jwt_encode (en_lib en) (passport_dump (passport_of (approved_args ticket aq c) (tc_payload_hash ticket) (mo_now mo) jti))
                 (km_private (en_keys en)) [(str ''kid'', VStr k)] = Inr token)))
    \<and> al_ticket_id entry = tc_jti ticket \<and> al_approver_id entry = ap_id (aq_approver aq)
    \<and> al_passport_id entry = ar_passport_id resp"
proof -
  from assms obtain ticket p passport where t:
    "verify_approval_ticket (en_lib en) (le_environ (en_loader en)) (en_keys en) (mo_now mo) (aq_ticket aq) = Inr ticket"
    "may_approve ticket c" "hash_payload (en_lib en) (aq_actionable_payload aq) = Inr (tc_payload_hash ticket)"
    "right_approver ticket (aq_approver aq)"
    "load (en_loader en) cache (tc_plugin_id ticket) = (Inr p, cache')" "version_label p = tc_policy ticket"
    "issue en mo ticket aq c = Inr passport" "(resp, entry) = approval_answer mo ticket aq c passport"
    by (auto simp: submit_iff)
  have "case ar_passport resp of None \<Rightarrow> aq_outcome aq = Deny
    | Some token \<Rightarrow> aq_outcome aq = Approve \<and> (\<exists>jti. ar_passport_id resp = Some jti \<and> (tc_jti ticket \<noteq> [] \<longrightarrow> jti = tc_jti ticket)
        \<and> (\<exists>k. jwt_encode (en_lib en) (passport_dump (passport_of (approved_args ticket aq c) (tc_payload_hash ticket) (mo_now mo) jti))
              (km_private (en_keys en)) [(str ''kid'', VStr k)] = Inr token))"
  proof (rule issue_cases [OF t(7)])
    assume "aq_outcome aq = Deny" "passport = None"
    with t(8) show ?thesis by (simp add: approval_answer_def)
  next
    fix token jti
    assume a: "aq_outcome aq = Approve" "passport = Some (token, jti)" "jti = or_else (Some (tc_jti ticket)) (mo_uuid mo)"
      and s: "sign_decision (en_lib en) (en_keys en) (mo_now mo) (mo_uuid mo) (approved_args ticket aq c) = Inr (token, jti)"
    from s obtain hash k where h: "hash_payload (en_lib en) (da_payload (approved_args ticket aq c)) = Inr hash"
      "kid (en_lib en) (en_keys en) = Inr k" "is_sha256_hex hash"
      "da_decision (approved_args ticket aq c) = str ''ALLOW''" "jti = or_else (da_jti (approved_args ticket aq c)) (mo_uuid mo)"
      "jwt_encode (en_lib en) (passport_dump (passport_of (approved_args ticket aq c) hash (mo_now mo) jti))
         (km_private (en_keys en)) [(str ''kid'', VStr k)] = Inr token"
      by (rule sign_decisionD)
    from h(1) t(3) have "hash = tc_payload_hash ticket" by (simp add: approved_args_def)
    with h(6) have "\<exists>k. jwt_encode (en_lib en) (passport_dump (passport_of (approved_args ticket aq c) (tc_payload_hash ticket)
        (mo_now mo) jti)) (km_private (en_keys en)) [(str ''kid'', VStr k)] = Inr token" by blast
    with a t(8) show ?thesis by (auto simp: approval_answer_def or_else_def)
  qed
  moreover have "al_ticket_id entry = tc_jti ticket" "al_approver_id entry = ap_id (aq_approver aq)"
    "al_passport_id entry = ar_passport_id resp" using t(8) by (simp_all add: approval_answer_def)
  ultimately show ?thesis using t(1-6) by blast
qed

lemma accepted_approval_is_authorized_witness:
  "\<exists>ticket. verify_approval_ticket (en_lib approving_engine) (le_environ (en_loader approving_engine)) (en_keys approving_engine)
       1000 (str ''tik'') = Inr ticket \<and> may_approve ticket example_approver \<and> tc_required_role ticket = str ''treasury''"
proof -
  obtain answer cache where "submit approving_engine example_moment [] example_approval example_approver = (Inr answer, cache)"
    by (rule approving_submits)
  then obtain resp entry where s: "submit approving_engine example_moment [] example_approval example_approver = (Inr (resp, entry), cache)"
    by (cases answer) simp
  from accepted_approval_is_authorized [OF s] obtain ticket where t:
    "verify_approval_ticket (en_lib approving_engine) (le_environ (en_loader approving_engine)) (en_keys approving_engine)
       (mo_now example_moment) (aq_ticket example_approval) = Inr ticket" "may_approve ticket example_approver"
    "right_approver ticket (aq_approver example_approval)" by blast
  moreover from t(3) have "tc_required_role ticket = str ''treasury''"
    by (simp add: right_approver_def example_approval_def)
  ultimately show ?thesis by (auto simp: example_moment_def example_approval_def simp del: approving_sel)
qed

text \<open>
  C18. The ticket a decision came with can be redeemed: while it is valid and the policy unchanged, the
  decided payload submitted by the right approver through an authorized caller is approved, and the
  Passport it yields introspects as active for that action and payload for five minutes. Only a failing
  signature stands in the way, and then the answer is to retry.
\<close>

theorem fresh_ticket_is_redeemed:
  assumes "encode_law (en_lib en)" "round_trip_law (en_lib en)" "validate_law (en_lib en)"
    and "derive_public (en_lib en) (km_private (en_keys en)) = Inr (km_public (en_keys en))"
    and "previous_public_keys (le_environ (en_loader en)) = Inr ps"
    and "sign_approval_ticket (en_lib en) (en_keys en) issued uuid a = Inr ch"
    and "issued \<le> mo_now mo" "mo_now mo < ch_expires_at ch"
    and "hash_payload (en_lib en) (ta_payload a) = Inr hash" "ticket = ticket_of a hash issued uuid"
    and "aq_ticket aq = ch_ticket ch" "aq_actionable_payload aq = ta_payload a" "aq_outcome aq = Approve"
    and "may_approve ticket c" "right_approver ticket (aq_approver aq)"
    and "load (en_loader en) cache (ta_plugin_id a) = (Inr p, cache')" "version_label p = ta_policy a"
  shows "case sign_decision (en_lib en) (en_keys en) (mo_now mo) (mo_uuid mo) (approved_args ticket aq c) of
      Inl _ \<Rightarrow> submit en mo cache aq c = (Inl (Rejected 503 (str ''AXG could not issue a Passport. Retry the approval.'')), cache')
    | Inr (token, jti) \<Rightarrow> \<exists>resp entry. submit en mo cache aq c = (Inr (resp, entry), cache') \<and> ar_passport resp = Some token
        \<and> ar_passport_id resp = Some jti
        \<and> (\<forall>now. mo_now mo \<le> now \<longrightarrow> now < mo_now mo + 300 \<longrightarrow>
            introspect_passport (en_lib en) (le_environ (en_loader en)) (en_keys en) now token (Some (ta_action_type a)) (Some (ta_payload a))
              = Inr (Active (passport_dump (passport_of (approved_args ticket aq c) hash (mo_now mo) jti))))"
proof -
  have "tc_action_type ticket = ta_action_type a" by (simp add: assms(10) ticket_of_def)
  then have args: "da_payload (approved_args ticket aq c) = ta_payload a" "da_action_type (approved_args ticket aq c) = ta_action_type a"
    "da_expires_in_minutes (approved_args ticket aq c) = 5" by (simp_all add: approved_args_def assms(12))
  note submits = fresh_ticket_submits [OF assms(1-12,14-17)]
  show ?thesis
  proof (cases "sign_decision (en_lib en) (en_keys en) (mo_now mo) (mo_uuid mo) (approved_args ticket aq c)")
    case (Inl e)
    with sign_decision_errors [OF Inl] assms(9) have "is_value_error e" by (simp add: args)
    with Inl show ?thesis using submits assms(13) by (simp add: issue_def)
  next
    case (Inr token_jti)
    obtain token jti where tj: "token_jti = (token, jti)" by (cases token_jti)
    have i: "issue en mo ticket aq c = Inr (Some (token, jti))" using Inr tj assms(13) by (simp add: issue_def)
    have "introspect_passport (en_lib en) (le_environ (en_loader en)) (en_keys en) now token (Some (ta_action_type a)) (Some (ta_payload a))
        = Inr (Active (passport_dump (passport_of (approved_args ticket aq c) hash (mo_now mo) jti)))"
      if "mo_now mo \<le> now" "now < mo_now mo + 300" for now
    proof -
      have "now < mo_now mo + 60 * da_expires_in_minutes (approved_args ticket aq c)" using that(2) by (simp add: args)
      from sign_introspect [OF assms(1,2,4,5) Inr [unfolded tj] that(1) this] assms(9) show ?thesis
        unfolding args by (metis Inr_inject)
    qed
    with Inr tj i show ?thesis using submits by (simp add: approval_answer_def)
  qed
qed

lemma fresh_ticket_is_redeemed_witness:
  "\<exists>resp entry cache. submit approving_engine example_moment [] example_approval example_approver = (Inr (resp, entry), cache)
     \<and> ar_passport resp = Some (str ''ptok'')"
proof -
  let ?ticket = "ticket_of example_approving example_payload_hash 1000 (str ''u1'')"
  have now: "1000 \<le> mo_now example_moment" "mo_now example_moment < ch_expires_at \<lparr>ch_ticket = str ''tik'',
      ch_ticket_id = str ''u1'', ch_required_role = str ''treasury'', ch_expires_at = 4600\<rparr>"
    by (simp_all add: example_moment_def)
  have q: "aq_ticket example_approval = ch_ticket \<lparr>ch_ticket = str ''tik'', ch_ticket_id = str ''u1'',
      ch_required_role = str ''treasury'', ch_expires_at = 4600\<rparr>"
    "aq_actionable_payload example_approval = ta_payload example_approving" "aq_outcome example_approval = Approve"
    by (simp_all add: example_approval_def example_approving_def approval_args_def)
  have l: "load (en_loader approving_engine) [] (ta_plugin_id example_approving) = (Inr example_plugin, [(str ''demo'', example_plugin)])"
    "version_label example_plugin = ta_policy example_approving"
    using example_load_local by (simp_all add: example_approving_def approval_args_def example_request_def)
  have "sign_decision (en_lib approving_engine) (en_keys approving_engine) (mo_now example_moment) (mo_uuid example_moment)
      (approved_args ?ticket example_approval example_approver) = Inr (str ''ptok'', str ''u1'')"
    using approving_signs(2) by (simp add: example_moment_def)
  with fresh_ticket_is_redeemed [OF approving_laws approving_keys approving_signs(1) now approving_signs(3) refl q approving_parties l]
  show ?thesis by auto
qed

text \<open>
  C15. What was approved is what was decided: if a submission for a ticket is accepted while the ticket is
  valid, its payload equals the decided one up to key order and number representation, unless the
  two payloads are a collision of SHA-256.
\<close>

theorem approved_payload_was_decided:
  assumes "encode_law (en_lib en)" "round_trip_law (en_lib en)" "validate_law (en_lib en)"
    and "derive_public (en_lib en) (km_private (en_keys en)) = Inr (km_public (en_keys en))"
    and "previous_public_keys (le_environ (en_loader en)) = Inr ps"
    and "sign_approval_ticket (en_lib en) (en_keys en) issued uuid a = Inr ch"
    and "issued \<le> mo_now mo" "mo_now mo < ch_expires_at ch"
    and "aq_ticket aq = ch_ticket ch" "submit en mo cache aq c = (Inr answer, cache')"
    and "wf_dict (ta_payload a)" "wf_dict (aq_actionable_payload aq)"
  shows "normal (VDict (aq_actionable_payload aq)) = normal (VDict (ta_payload a)) 
    \<or> collides (sha_hex (en_lib en)) (canonical_bytes (VDict (aq_actionable_payload aq))) (canonical_bytes (VDict (ta_payload a)))"
proof -
  obtain hash where h: "hash_payload (en_lib en) (ta_payload a) = Inr hash"
    "verify_approval_ticket (en_lib en) (le_environ (en_loader en)) (en_keys en) (mo_now mo) (ch_ticket ch)
       = Inr (ticket_of a hash issued uuid)"
    by (rule signed_ticket_verifies [OF assms(1-8)])
  from assms(10) have "hash_payload (en_lib en) (aq_actionable_payload aq) = Inr hash"
    by (auto simp: submit_iff assms(9) h(2) ticket_of_def)
  with h(1) assms(11,12) show ?thesis
    unfolding hash_payload_def wf_dict_def by (intro canonical_hash_binds)
qed

lemma approved_payload_was_decided_witness:
  "normal (VDict (aq_actionable_payload example_approval)) = normal (VDict (ta_payload example_approving))
     \<or> collides (sha_hex (en_lib approving_engine)) (canonical_bytes (VDict (aq_actionable_payload example_approval)))
         (canonical_bytes (VDict (ta_payload example_approving)))"
proof -
  obtain answer cache where s: "submit approving_engine example_moment [] example_approval example_approver = (Inr answer, cache)"
    by (rule approving_submits)
  have now: "1000 \<le> mo_now example_moment" "mo_now example_moment < ch_expires_at \<lparr>ch_ticket = str ''tik'',
      ch_ticket_id = str ''u1'', ch_required_role = str ''treasury'', ch_expires_at = 4600\<rparr>"
    by (simp_all add: example_moment_def)
  have q: "aq_ticket example_approval = ch_ticket \<lparr>ch_ticket = str ''tik'', ch_ticket_id = str ''u1'',
      ch_required_role = str ''treasury'', ch_expires_at = 4600\<rparr>" by (simp add: example_approval_def)
  have "wf_dict example_payload"
    by (simp add: wf_dict_def example_payload_def dict_ok_def str_def wf_str_def)
  then have "wf_dict (ta_payload example_approving)" "wf_dict (aq_actionable_payload example_approval)"
    by (simp_all add: example_approval_def example_approving_def approval_args_def)
  with approved_payload_was_decided [OF approving_laws approving_keys approving_signs(1) now q s] show ?thesis by blast
qed

end
