(* ===== verification/JsonRoundTrip.thy ===== *)
theory JsonRoundTrip
  imports Json "HOL-Library.Multiset"
begin

text \<open>
  \<open>json.loads\<close> reads back what \<open>json.dumps(..., sort_keys=True, ensure_ascii=False)\<close> wrote: the same
  value with its keys sorted, for every value with a canonical rendering.
\<close>

section \<open>Strings\<close>

lemma hex_val_digit: "0 \<le> n \<Longrightarrow> n < 16 \<Longrightarrow> hex_val (hex_digit n) = Some n"
  by (auto simp: hex_val_def hex_digit_def)

lemma scan_escaped:
  assumes "0 \<le> c"
  shows "scan_string (Suc n) (json_escape c @ s) = rmap (\<lambda>(t, r). (c # t, r)) (scan_string n s)"
proof -
  consider "c = 34" | "c = 92" | "c = 8" | "c = 9" | "c = 10" | "c = 12" | "c = 13"
    | (control) "c < 32" "c \<notin> {8, 9, 10, 12, 13}" | (plain) "32 \<le> c" "c \<noteq> 34" "c \<noteq> 92" by fastforce
  then show ?thesis
  proof cases
    case control
    then have u: "hex4 (48 # 48 # hex_digit (c div 16) # hex_digit (c mod 16) # s) = Some (c, s)"
      using assms by (simp add: hex_val_digit hex_val_def [of 48])
    from control have e: "json_escape c = [92, 117, 48, 48, hex_digit (c div 16), hex_digit (c mod 16)]"
      by (simp add: json_escape_def)
    from control show ?thesis unfolding e by (simp add: u del: hex4.simps)
  next
    case plain
    then show ?thesis by (simp add: json_escape_def)
  qed (simp_all add: json_escape_def simple_escape_def)
qed

lemma scan_string_body:
  assumes "list_all (\<lambda>c. 0 \<le> c) s" "length s < n"
  shows "scan_string n (concat (map json_escape s) @ 34 # r) = Inr (s, r)"
  using assms
proof (induction s arbitrary: n)
  case Nil
  then show ?case by (cases n) simp_all
next
  case (Cons c s)
  then obtain m where "n = Suc m" by (cases n) simp_all
  with Cons show ?case by (simp add: scan_escaped del: scan_string.simps)
qed

lemma wf_str_nonneg: "wf_str s \<Longrightarrow> list_all (\<lambda>c. 0 \<le> c) s"
  by (auto simp: wf_str_def list_all_iff)

lemma length_json_escape: "length s \<le> length (concat (map json_escape s))"
proof (induction s)
  case (Cons c s)
  have "1 \<le> length (json_escape c)" by (simp add: json_escape_def)
  with Cons show ?case by (simp only: list.map concat.simps length_append list.size)
qed simp

text \<open>\<open>ensure_ascii\<close> escapes.\<close>

lemma hex4_hex_u:
  assumes "0 \<le> u" "u < 65536"
  shows "hex4 (hex_digit (u div 4096 mod 16) # hex_digit (u div 256 mod 16) # hex_digit (u div 16 mod 16) # hex_digit (u mod 16) # s)
    = Some (u, s)"
proof -
  have "4096 * (u div 4096 mod 16) + 256 * (u div 256 mod 16) + 16 * (u div 16 mod 16) + u mod 16 = u"
  proof -
    have d: "u div 16 div 16 = u div 256" "u div 256 div 16 = u div 4096" by (simp_all add: zdiv_zmult2_eq [symmetric])
    have "u div 4096 < 16" using assms by (simp add: div_less_iff_less_mult)
    then have e: "u div 4096 mod 16 = u div 4096" using assms by (simp add: pos_imp_zdiv_nonneg_iff)
    have "16 * (u div 4096) + u div 256 mod 16 = u div 256" using mult_div_mod_eq [of 16 "u div 256"] d by simp
    moreover have "16 * (u div 256) + u div 16 mod 16 = u div 16" using mult_div_mod_eq [of 16 "u div 16"] d by simp
    moreover have "16 * (u div 16) + u mod 16 = u" by simp
    moreover have "4096 * x + 256 * y + 16 * z + w = 16 * (16 * (16 * x + y) + z) + w" for x y z w :: int by simp
    ultimately show ?thesis unfolding e by metis
  qed
  moreover have "hex_val (hex_digit (x mod 16)) = Some (x mod 16)" for x by (intro hex_val_digit) simp_all
  ultimately show ?thesis by (simp only: hex4.simps option.case prod.case)
qed

lemma scan_ascii:
  assumes "0 \<le> c" "c < 1114112" "\<not> is_surrogate c"
  shows "scan_string (Suc n) (ascii_escape c @ s) = rmap (\<lambda>(t, r). (c # t, r)) (scan_string n s)"
proof -
  consider "c = 34" | "c = 92" | "c = 8" | "c = 9" | "c = 10" | "c = 12" | "c = 13"
    | (plain) "32 \<le> c" "c \<le> 126" "c \<noteq> 34" "c \<noteq> 92"
    | (unit) "c < 65536" "c < 32 \<or> 126 < c" "c \<notin> {8, 9, 10, 12, 13}" | (pair) "65536 \<le> c" by fastforce
  then show ?thesis
  proof cases
    case unit
    then have e: "ascii_escape c = hex_u c" by (auto simp: ascii_escape_def utf16_units_def)
    from assms(3) have "\<not> (55296 \<le> c \<and> c \<le> 56319)" by (auto simp: is_surrogate_def)
    with hex4_hex_u [OF assms(1) unit(1), of s] show ?thesis unfolding e hex_u_def by (auto simp del: hex4.simps)
  next
    case pair
    let ?h = "55296 + (c - 65536) div 1024" and ?l = "56320 + (c - 65536) mod 1024"
    have e: "ascii_escape c = hex_u ?h @ hex_u ?l" using pair by (simp add: ascii_escape_def utf16_units_def)
    have q: "0 \<le> (c - 65536) div 1024" "(c - 65536) div 1024 < 1024"
      using pair assms(2) by (simp_all add: pos_imp_zdiv_nonneg_iff div_less_iff_less_mult)
    have m: "0 \<le> (c - 65536) mod 1024" "(c - 65536) mod 1024 < 1024" by simp_all
    have h: "0 \<le> ?h" "?h < 65536" "55296 \<le> ?h" "?h \<le> 56319"
      using q by simp_all
    have l: "0 \<le> ?l" "?l < 65536" "56320 \<le> ?l" "?l \<le> 57343" using m by simp_all
    have "low_surrogate (hex_u ?l @ s) = Some (?l, s)"
      using hex4_hex_u [OF l(1,2), of s] l(3,4) unfolding low_surrogate_def hex_u_def by (simp del: hex4.simps)
    moreover have "65536 + 1024 * (?h - 55296) + (?l - 56320) = c" using mult_div_mod_eq [of 1024 "c - 65536"] by simp
    moreover have "scan_string (Suc n) (hex_u u @ t) =
        (if 55296 \<le> u \<and> u \<le> 56319
         then (case low_surrogate t of
                 Some (l, s3) \<Rightarrow> rmap (\<lambda>(t, r). ((65536 + 1024 * (u - 55296) + (l - 56320)) # t, r)) (scan_string n s3)
               | None \<Rightarrow> rmap (\<lambda>(t, r). (u # t, r)) (scan_string n t))
         else rmap (\<lambda>(t, r). (u # t, r)) (scan_string n t))" if "0 \<le> u" "u < 65536" for u t
      using hex4_hex_u [OF that, of t] unfolding hex_u_def by (simp del: hex4.simps)
    ultimately show ?thesis unfolding e append_assoc using h by simp
  next
    case plain
    then show ?thesis by (simp add: ascii_escape_def)
  qed (simp_all add: ascii_escape_def simple_escape_def)
qed

lemma scan_ascii_body:
  assumes "wf_str s" "\<not> list_ex is_surrogate s" "length s < n"
  shows "scan_string n (concat (map ascii_escape s) @ 34 # r) = Inr (s, r)"
  using assms
proof (induction s arbitrary: n)
  case Nil
  then show ?case by (cases n) simp_all
next
  case (Cons c s)
  then obtain m where "n = Suc m" by (cases n) simp_all
  with Cons show ?case by (simp add: scan_ascii wf_str_def del: scan_string.simps)
qed

lemma length_ascii_escape: "length s \<le> length (concat (map ascii_escape s))"
proof (induction s)
  case (Cons c s)
  have "1 \<le> length (ascii_escape c)" by (simp add: ascii_escape_def utf16_units_def hex_u_def)
  with Cons show ?case by (simp only: list.map concat.simps length_append list.size)
qed simp

section \<open>Numbers\<close>

definition number_ends :: "pystr \<Rightarrow> bool" where
  "number_ends r \<longleftrightarrow> r = [] \<or> \<not> is_digit (hd r) \<and> hd r \<noteq> 46 \<and> hd r \<noteq> 101 \<and> hd r \<noteq> 69"

lemma scan_fraction_none: "r = [] \<or> hd r \<noteq> 46 \<Longrightarrow> scan_fraction r = ([], r)"
  by (auto simp: scan_fraction_def split: list.splits)

lemma scan_fraction_some:
  assumes "list_all is_digit fp" "fp \<noteq> []" "r = [] \<or> \<not> is_digit (hd r)"
  shows "scan_fraction (46 # fp @ r) = (46 # fp, r)"
  using assms take_digits_append [OF assms(1,3)] by (cases fp) (simp_all add: scan_fraction_def)

lemma scan_exponent_none: "r = [] \<or> hd r \<noteq> 101 \<and> hd r \<noteq> 69 \<Longrightarrow> scan_exponent r = ([], r)"
  by (cases r) (simp_all add: scan_exponent_def)

lemma scan_exponent_some:
  assumes "s = 43 \<or> s = 45" "list_all is_digit es" "es \<noteq> []" "r = [] \<or> \<not> is_digit (hd r)"
  shows "scan_exponent (101 # s # es @ r) = (101 # s # es, r)"
  using assms take_digits_append [OF assms(2,4)] by (auto simp: scan_exponent_def)

text \<open>An integer part without a superfluous zero, and an exponent part.\<close>

definition int_part :: "pystr \<Rightarrow> bool" where
  "int_part ip \<longleftrightarrow> ip = [48] \<or> (ip \<noteq> [] \<and> list_all is_digit ip \<and> hd ip \<noteq> 48)"

definition exp_part :: "pystr \<Rightarrow> bool" where
  "exp_part ep \<longleftrightarrow> ep = [] \<or> (\<exists>s es. ep = 101 # s # es \<and> (s = 43 \<or> s = 45) \<and> list_all is_digit es \<and> es \<noteq> [])"

lemma int_part_digits: "int_part ip \<Longrightarrow> list_all is_digit ip \<and> ip \<noteq> []"
  by (auto simp: int_part_def is_digit_def)

lemma scan_int_part:
  assumes "int_part ip" "r = [] \<or> \<not> is_digit (hd r)"
  shows "scan_int (ip @ r) = Some (ip, r)"
proof (cases "ip = [48]")
  case True
  then show ?thesis by (simp add: scan_int_def)
next
  case False
  with assms(1) obtain c s where ip: "ip = c # s" "is_digit c" "c \<noteq> 48" "list_all is_digit ip"
    by (cases ip) (auto simp: int_part_def)
  with take_digits_append [OF ip(4) assms(2)] show ?thesis by (simp add: scan_int_def)
qed

lemma scan_number_parts:
  assumes "int_part ip" "list_all is_digit fp" "exp_part ep" "number_ends r"
  shows "scan_number ((if neg then [45] else []) @ ip @ (if fp = [] then [] else 46 # fp) @ ep @ r) =
    (if fp = [] \<and> ep = []
     then (if 4300 < length ip then Inl (ValueError (str ''Exceeds the limit for integer string conversion''))
           else Inr (VInt (if neg then - digits_val 0 ip else digits_val 0 ip), r))
     else rmap (\<lambda>f. (VFloat f, r)) (float_of_str ((if neg then [45] else []) @ ip @ (if fp = [] then [] else 46 # fp) @ ep)))"
proof -
  let ?t = "(if fp = [] then [] else 46 # fp) @ ep @ r"
  have e: "ep @ r = [] \<or> \<not> is_digit (hd (ep @ r)) \<and> hd (ep @ r) \<noteq> 46"
    using assms(3,4) by (auto simp: exp_part_def number_ends_def is_digit_def)
  have ip: "scan_int (ip @ ?t) = Some (ip, ?t)"
    by (rule scan_int_part [OF assms(1)]) (use e in \<open>auto simp: is_digit_def\<close>)
  have fp: "scan_fraction ?t = (if fp = [] then [] else 46 # fp, ep @ r)"
    using e scan_fraction_some [OF assms(2), of "ep @ r"] scan_fraction_none [of "ep @ r"] by auto
  have ep: "scan_exponent (ep @ r) = (ep, r)"
    using assms(3,4) scan_exponent_none [of r] scan_exponent_some [of _ _ r]
    by (auto simp: exp_part_def number_ends_def)
  obtain c s where c: "ip = c # s" "is_digit c" using int_part_digits [OF assms(1)] by (cases ip) auto
  then have sign: "(if (if neg then [45] else []) @ ip @ ?t \<noteq> [] \<and> hd ((if neg then [45] else []) @ ip @ ?t) = 45
      then ([45], tl ((if neg then [45] else []) @ ip @ ?t)) else ([], (if neg then [45] else []) @ ip @ ?t))
      = (if neg then [45] else [], ip @ ?t)"
    by (auto simp: is_digit_def)
  show ?thesis
    unfolding scan_number_def sign prod.case ip option.case fp ep by simp
qed

text \<open>Integers.\<close>

lemma int_part_dec_digits: "0 \<le> n \<Longrightarrow> int_part (dec_digits n)"
proof (cases "n = 0")
  case True
  then show ?thesis by (simp add: int_part_def dec_digits.simps [of 0])
next
  case False
  assume "0 \<le> n"
  with False dec_digits_no_leading_zero [of n] dec_digits_digits [of n] show ?thesis by (simp add: int_part_def)
qed

lemma scan_int_str:
  assumes "length (dec_digits \<bar>n\<bar>) \<le> 4300" "number_ends r"
  shows "scan_number (int_str n @ r) = Inr (VInt n, r)"
proof -
  have "exp_part []" by (simp add: exp_part_def)
  from scan_number_parts [OF int_part_dec_digits _ this assms(2), of "\<bar>n\<bar>" "[]" "n < 0"] assms(1)
  have "scan_number ((if n < 0 then [45] else []) @ dec_digits \<bar>n\<bar> @ r) = Inr (VInt n, r)" by auto
  then show ?thesis by (cases "n < 0") (simp_all add: int_str_def)
qed

text \<open>A finite float's text is an integer part, a fraction and an exponent that denote it.\<close>

definition decimal_text :: "pystr \<Rightarrow> decimal \<Rightarrow> bool" where
  "decimal_text t d \<longleftrightarrow> (\<exists>ip fp ep c. t = ip @ (if fp = [] then [] else 46 # fp) @ ep
     \<and> int_part ip \<and> list_all is_digit fp \<and> exp_part ep \<and> (fp \<noteq> [] \<or> ep \<noteq> [])
     \<and> read_decimal t = Some c \<and> dec_val c = dec_val d)"

lemma decimal_textI:
  assumes "t = ip @ 46 # fp @ ep" "int_part ip" "list_all is_digit fp" "fp \<noteq> []" "exp_part ep"
    and "read_exponent ep = Some e" "dec_val (digits_val 0 (ip @ fp), e - int (length fp)) = dec_val d"
  shows "decimal_text t d"
proof -
  have ep: "ep = [] \<or> \<not> is_digit (hd ep)" using assms(5) by (auto simp: exp_part_def is_digit_def)
  have "read_decimal (ip @ [46] @ fp @ ep) = Some (digits_val 0 (ip @ fp), e - int (length fp))"
    using int_part_digits [OF assms(2)] by (intro read_decimal_fraction assms(3,6) ep) simp_all
  with assms show ?thesis
    unfolding decimal_text_def by (intro exI [of _ ip] exI [of _ fp] exI [of _ ep]) simp
qed

lemma decimal_textI_exp:
  assumes "t = ip @ ep" "int_part ip" "exp_part ep" "ep \<noteq> []"
    and "read_exponent ep = Some e" "dec_val (digits_val 0 ip, e) = dec_val d"
  shows "decimal_text t d"
proof -
  have ep: "ep = [] \<or> (\<not> is_digit (hd ep) \<and> hd ep \<noteq> 46)" using assms(3) by (auto simp: exp_part_def is_digit_def)
  have "read_decimal (ip @ ep) = Some (digits_val 0 ip, e)"
    using int_part_digits [OF assms(2)] by (intro read_decimal_plain assms(5) ep) simp_all
  with assms show ?thesis
    unfolding decimal_text_def by (intro exI [of _ ip] exI [of _ "[]"] exI [of _ ep]) simp
qed

definition repr_exp :: "int \<Rightarrow> pystr" where
  "repr_exp e = [101] @ (if e < 0 then [45] else [43]) @ (if \<bar>e\<bar> < 10 then [48] else []) @ dec_digits \<bar>e\<bar>"

lemma repr_exp_digits:
  fixes e :: int
  defines "es \<equiv> (if \<bar>e\<bar> < 10 then [48] else []) @ dec_digits \<bar>e\<bar>"
  shows "list_all is_digit es" "es \<noteq> []" "digits_val 0 es = \<bar>e\<bar>" "repr_exp e = 101 # (if e < 0 then 45 else 43) # es"
  using dec_digits_digits [of "\<bar>e\<bar>"] by (simp_all add: es_def repr_exp_def is_digit_def)

lemma repr_exponent: "exp_part (repr_exp e)" "repr_exp e \<noteq> []" "read_exponent (repr_exp e) = Some e"
proof -
  obtain es where es: "list_all is_digit es" "es \<noteq> []" "digits_val 0 es = \<bar>e\<bar>"
    "repr_exp e = 101 # (if e < 0 then 45 else 43) # es" using repr_exp_digits by blast
  then show "exp_part (repr_exp e)" "repr_exp e \<noteq> []" by (auto simp: exp_part_def)
  show "read_exponent (repr_exp e) = Some e"
    using es by (cases "e < 0") (simp_all add: read_exponent_def take_sign_def)
qed

lemma decimal_repr_text:
  assumes pos: "0 < fst d"
  shows "decimal_text (decimal_repr d) d"
proof -
  obtain m x where mx: "strip_zeros (fst d) (snd d) = (m, x)" by (cases "strip_zeros (fst d) (snd d)")
  with strip_zeros_val [OF pos, of "snd d"] have m: "0 < m" and val: "dec_val (m, x) = dec_val d" by simp_all
  define ds where "ds = dec_digits m"
  define k where "k = int (length ds)"
  define n where "n = x + k"
  have ds: "list_all is_digit ds" "ds \<noteq> []" "digits_val 0 ds = m" "hd ds \<noteq> 48"
    using m dec_digits_digits dec_digits_no_leading_zero by (simp_all add: ds_def)
  have k: "1 \<le> k" using ds(2) by (cases ds) (simp_all add: k_def)
  let ?ep = "repr_exp (n - 1)"
  have body: "decimal_repr d = (if n \<le> - 4 \<or> 16 < n then (if k = 1 then ds else take 1 ds @ [46] @ drop 1 ds) @ ?ep
      else if n \<le> 0 then [48, 46] @ zeros (- n) @ ds
      else if k \<le> n then ds @ zeros (n - k) @ [46, 48]
      else take (nat n) ds @ [46] @ drop (nat n) ds)"
    unfolding decimal_repr_def mx prod.case Let_def ds_def k_def n_def repr_exp_def by (rule refl)
  have ipd: "int_part ds" using ds by (simp add: int_part_def)
  have ipt: "int_part (take j ds)" if "0 < j" for j
    using ds that by (cases ds) (auto simp: int_part_def list_all_takeD take_Cons')
  have end_part: "exp_part []" "read_exponent [] = Some 0" by (simp_all add: exp_part_def read_exponent_def)
  consider (exp) "n \<le> - 4 \<or> 16 < n" | (small) "- 4 < n" "n \<le> 0" | (int) "0 < n" "n \<le> 16" "k \<le> n"
    | (frac) "0 < n" "n \<le> 16" "n < k" by linarith
  then show ?thesis
  proof cases
    case exp
    show ?thesis
    proof (cases "k = 1")
      case True
      have "decimal_repr d = ds @ ?ep" using exp True by (simp add: body)
      moreover have "dec_val (digits_val 0 ds, n - 1) = dec_val d" using True val ds(3) by (simp add: n_def)
      ultimately show ?thesis by (intro decimal_textI_exp [OF _ ipd repr_exponent]) simp_all
    next
      case False
      have "decimal_repr d = take 1 ds @ 46 # drop 1 ds @ ?ep" using exp False by (auto simp: body)
      moreover have "drop 1 ds \<noteq> []" using False k by (simp add: k_def)
      moreover have "n - 1 - int (length (drop 1 ds)) = x" using k by (simp add: n_def k_def)
      then have "dec_val (digits_val 0 (take 1 ds @ drop 1 ds), n - 1 - int (length (drop 1 ds))) = dec_val d"
        using val ds(3) by simp
      ultimately show ?thesis using ds(1)
        by (intro decimal_textI [of _ "take 1 ds" "drop 1 ds" ?ep "n - 1"] ipt repr_exponent) (simp_all add: list_all_dropD)
    qed
  next
    case small
    have body': "decimal_repr d = [48] @ 46 # (zeros (- n) @ ds) @ []" using small by (simp add: body)
    have "0 - int (length (zeros (- n) @ ds)) = x" using small by (simp add: n_def k_def)
    moreover have "digits_val 0 ([48] @ zeros (- n) @ ds) = m"
      by (simp add: digits_val_append digits_val_zeros ds)
    ultimately have "dec_val (digits_val 0 ([48] @ zeros (- n) @ ds), 0 - int (length (zeros (- n) @ ds))) = dec_val d"
      using val by (simp only:)
    with body' show ?thesis using ds zeros_digits end_part
      by (intro decimal_textI [of _ "[48]" "zeros (- n) @ ds" "[]" 0]) (simp_all add: int_part_def)
  next
    case int
    have ip: "int_part (ds @ zeros (n - k))" using ds zeros_digits by (simp add: int_part_def)
    have "decimal_repr d = (ds @ zeros (n - k)) @ 46 # [48] @ []" using int by (simp add: body)
    moreover have "dec_val (digits_val 0 ((ds @ zeros (n - k)) @ [48]), 0 - int (length [48::int])) = dec_val (m, x)"
    proof -
      have "digits_val 0 ((ds @ zeros (n - k)) @ [48]) = m * 10 ^ nat (n - k) * 10"
        by (simp add: digits_val_append digits_val_zeros ds)
      moreover have "dec_val (m * 10 ^ nat (n - k) * 10, - 1) = dec_val (m, x)"
        using int by (simp add: dec_val_def n_def rpow_def)
      ultimately show ?thesis by simp
    qed
    ultimately show ?thesis using val end_part
      by (intro decimal_textI [of _ "ds @ zeros (n - k)" "[48]" "[]" 0] ip) (simp_all add: is_digit_def)
  next
    case frac
    have ip: "int_part (take (nat n) ds)" using frac(1) by (intro ipt) simp
    have "decimal_repr d = take (nat n) ds @ 46 # drop (nat n) ds @ []" using frac by (simp add: body)
    moreover have "0 - int (length (drop (nat n) ds)) = x" using frac by (simp add: n_def k_def)
    ultimately show ?thesis using val ds end_part frac
      by (intro decimal_textI [of _ "take (nat n) ds" "drop (nat n) ds" "[]" 0] ip) (simp_all add: list_all_dropD k_def)
  qed
qed

lemma scan_decimal_text:
  assumes "decimal_text t d" "number_ends r"
  shows "scan_number ((if neg then [45] else []) @ t @ r)
    = Inr (VFloat (fl (if neg then - dec_val d else dec_val d)), r)"
proof -
  from assms(1) obtain ip fp ep c where t: "t = ip @ (if fp = [] then [] else 46 # fp) @ ep"
    "int_part ip" "list_all is_digit fp" "exp_part ep" "fp \<noteq> [] \<or> ep \<noteq> []" "read_decimal t = Some c" "dec_val c = dec_val d"
    unfolding decimal_text_def by blast
  have ch: "list_all number_char ip" "list_all number_char fp" "list_all number_char ep" "is_digit (hd ip)" "ip \<noteq> []"
    using int_part_digits [OF t(2)] t(3,4) is_digit_number_char
    by (auto simp: exp_part_def number_char_def list_all_iff)
  then have n: "list_all number_char t" "t \<noteq> []" "is_digit (hd t)" by (simp_all add: t(1) number_char_def)
  from scan_number_parts [OF t(2-4) assms(2), of neg] t(5)
  have "scan_number ((if neg then [45] else []) @ t @ r) = rmap (\<lambda>f. (VFloat f, r)) (float_of_str ((if neg then [45] else []) @ t))"
    by (auto simp: t(1))
  also have "float_of_str ((if neg then [45] else []) @ t) = Inr (fl (if neg then - dec_val c else dec_val c))"
    by (rule float_of_str_decimal [OF n t(6)])
  finally show ?thesis by (simp add: t(7))
qed

lemma scan_float_repr:
  assumes "is_double q" "number_ends r"
  shows "scan_number (float_repr (Fin q) @ r) = Inr (VFloat (Fin q), r)"
proof (cases "q = 0")
  case True
  have "decimal_text (str ''0.0'') (0, 0)"
    by (rule decimal_textI [of _ "[48]" "[48]" "[]" 0]) (simp_all add: str_def int_part_def is_digit_def exp_part_def
        read_exponent_def dec_val_def)
  from scan_decimal_text [OF this assms(2), of False] True show ?thesis by (simp add: dec_val_def)
next
  case False
  have "is_double \<bar>q\<bar>" using assms(1) by (cases "0 \<le> q") simp_all
  with False obtain d where d: "shortest_decimal \<bar>q\<bar> = Some d" using shortest_decimal_exists [of "\<bar>q\<bar>"] by auto
  have d0: "0 < fst d" using d False by (intro shortest_decimal_pos) auto
  have "fl (dec_val d) = Fin \<bar>q\<bar>" using d by (rule shortest_decimal_sound)
  then have "fl (if q < 0 then - dec_val d else dec_val d) = Fin q" by (auto simp: fl_minus)
  with scan_decimal_text [OF decimal_repr_text [OF d0] assms(2), of "q < 0"] False d show ?thesis by simp
qed

section \<open>Values\<close>

text \<open>The style of the audit log, and the value its text reads back as.\<close>

definition audit_style :: json_style where
  "audit_style = \<lparr>ensure_ascii = False, sort_keys = True, item_separator = str '', '', key_separator = str '': ''\<rparr>"

fun sorted_val :: "pyval \<Rightarrow> pyval"
  and sorted_list :: "pyval list \<Rightarrow> pyval list"
  and sorted_dict :: "pydict \<Rightarrow> pydict" where
  "sorted_val (VList xs) = VList (sorted_list xs)"
| "sorted_val (VDict d) = VDict (sort_items (sorted_dict d))"
| "sorted_val v = v"
| "sorted_list [] = []"
| "sorted_list (x # xs) = sorted_val x # sorted_list xs"
| "sorted_dict [] = []"
| "sorted_dict (kv # d) = (fst kv, sorted_val (snd kv)) # sorted_dict d"

lemma sorted_list_map: "sorted_list xs = map sorted_val xs"
  by (induction xs) simp_all

lemma sorted_dict_map: "sorted_dict d = map (\<lambda>kv. (fst kv, sorted_val (snd kv))) d"
  by (induction d) simp_all

lemma dumps_list_map: "dumps_list st xs = map (json_dumps st) xs"
  by (induction xs) simp_all

lemma dumps_items_map: "dumps_items st d =
    map (\<lambda>kv. (fst kv, dumps_string (ensure_ascii st) (fst kv) @ key_separator st @ json_dumps st (snd kv))) d"
  by (induction d) simp_all

lemma sort_key_map: "sort_key f (map g xs) = map g (sort_key (f \<circ> g) xs)"
proof (induction xs)
  case (Cons x xs)
  have "insort_key f (g x) (map g ys) = map g (insort_key (\<lambda>a. f (g a)) x ys)" for ys by (induction ys) simp_all
  with Cons show ?case by (simp add: comp_def)
qed simp

lemma sort_items_map: "sort_items (map (\<lambda>kv. (fst kv, h kv)) d) = map (\<lambda>kv. (fst kv, h kv)) (sort_items d)"
  by (simp add: sort_items_def sort_key_map comp_def)

text \<open>The values whose text can be read back: well-formed, finite, and integers within the digit limit.\<close>

fun readable :: "pyval \<Rightarrow> bool"
  and readable_list :: "pyval list \<Rightarrow> bool"
  and readable_items :: "pydict \<Rightarrow> bool" where
  "readable (VInt n) \<longleftrightarrow> length (dec_digits \<bar>n\<bar>) \<le> 4300"
| "readable (VFloat f) \<longleftrightarrow> (\<exists>q. f = Fin q \<and> is_double q)"
| "readable (VStr s) \<longleftrightarrow> wf_str s"
| "readable (VList xs) \<longleftrightarrow> readable_list xs"
| "readable (VDict d) \<longleftrightarrow> dict_ok d \<and> readable_items d"
| "readable _ \<longleftrightarrow> True"
| "readable_list [] \<longleftrightarrow> True"
| "readable_list (x # xs) \<longleftrightarrow> readable x \<and> readable_list xs"
| "readable_items [] \<longleftrightarrow> True"
| "readable_items (kv # d) \<longleftrightarrow> wf_str (fst kv) \<and> readable (snd kv) \<and> readable_items d"

lemma readable_list_iff: "readable_list xs \<longleftrightarrow> (\<forall>x \<in> set xs. readable x)"
  by (induction xs) simp_all

lemma readable_items_iff: "readable_items d \<longleftrightarrow> (\<forall>kv \<in> set d. wf_str (fst kv) \<and> readable (snd kv))"
  by (induction d) simp_all

text \<open>Escaping to ASCII writes a character beyond the basic plane as two surrogates, so a text with lone surrogates may merge them.\<close>

fun surrogate_free :: "pyval \<Rightarrow> bool"
  and surrogate_free_list :: "pyval list \<Rightarrow> bool"
  and surrogate_free_items :: "pydict \<Rightarrow> bool" where
  "surrogate_free (VStr s) \<longleftrightarrow> \<not> list_ex is_surrogate s"
| "surrogate_free (VList xs) \<longleftrightarrow> surrogate_free_list xs"
| "surrogate_free (VDict d) \<longleftrightarrow> surrogate_free_items d"
| "surrogate_free _ \<longleftrightarrow> True"
| "surrogate_free_list [] \<longleftrightarrow> True"
| "surrogate_free_list (x # xs) \<longleftrightarrow> surrogate_free x \<and> surrogate_free_list xs"
| "surrogate_free_items [] \<longleftrightarrow> True"
| "surrogate_free_items (kv # d) \<longleftrightarrow> \<not> list_ex is_surrogate (fst kv) \<and> surrogate_free (snd kv) \<and> surrogate_free_items d"

lemma surrogate_free_list_iff: "surrogate_free_list xs \<longleftrightarrow> (\<forall>x \<in> set xs. surrogate_free x)"
  by (induction xs) simp_all

lemma surrogate_free_items_iff:
  "surrogate_free_items d \<longleftrightarrow> (\<forall>kv \<in> set d. \<not> list_ex is_surrogate (fst kv) \<and> surrogate_free (snd kv))"
  by (induction d) simp_all

abbreviation dumps :: "pyval \<Rightarrow> pystr" where
  "dumps \<equiv> json_dumps audit_style"

lemma audit_style_sel [simp]: "ensure_ascii audit_style = False" "sort_keys audit_style" "item_separator audit_style = [44, 32]"
  "key_separator audit_style = [58, 32]"
  by (simp_all add: audit_style_def str_def)

lemma default_style_sel [simp]: "ensure_ascii default_style" "\<not> sort_keys default_style" "item_separator default_style = [44, 32]"
  "key_separator default_style = [58, 32]"
  by (simp_all add: default_style_def str_def)

definition string_body :: "bool \<Rightarrow> pystr \<Rightarrow> pystr" where
  "string_body ea s = concat (map (if ea then ascii_escape else json_escape) s)"

definition string_ok :: "bool \<Rightarrow> pystr \<Rightarrow> bool" where
  "string_ok ea s \<longleftrightarrow> wf_str s \<and> (ea \<longrightarrow> \<not> list_ex is_surrogate s)"

lemma dumps_string_body: "dumps_string ea s = 34 # string_body ea s @ [34]"
  by (simp add: dumps_string_def string_body_def json_string_def)

lemma string_body_scans: "string_ok ea s \<Longrightarrow> length s < n \<Longrightarrow> scan_string n (string_body ea s @ 34 # r) = Inr (s, r)"
  using scan_string_body [OF wf_str_nonneg] scan_ascii_body by (cases ea) (simp_all add: string_ok_def string_body_def)

lemma length_string_body: "length s \<le> length (string_body ea s)"
  using length_json_escape length_ascii_escape by (cases ea) (simp_all add: string_body_def)

definition pair_text :: "json_style \<Rightarrow> (pystr \<times> pyval) \<Rightarrow> pystr" where
  "pair_text st kv = dumps_string (ensure_ascii st) (fst kv) @ [58, 32] @ json_dumps st (snd kv)"

definition in_order :: "json_style \<Rightarrow> (pystr \<times> 'a) list \<Rightarrow> (pystr \<times> 'a) list" where
  "in_order st d = (if sort_keys st then sort_items d else d)"

text \<open>The value that is read back, and the values that are.\<close>

definition read_as :: "json_style \<Rightarrow> pyval \<Rightarrow> pyval" where
  "read_as st v = (if sort_keys st then sorted_val v else v)"

definition written :: "json_style \<Rightarrow> pyval \<Rightarrow> bool" where
  "written st v \<longleftrightarrow> readable v \<and> (ensure_ascii st \<longrightarrow> surrogate_free v)"

definition scans :: "json_style \<Rightarrow> pyval \<Rightarrow> bool" where
  "scans st v \<longleftrightarrow> (\<forall>n r. length (json_dumps st v) < n \<longrightarrow> number_ends r \<longrightarrow> scan_value n (json_dumps st v @ r) = Inr (read_as st v, r))"

lemma read_as_simps [simp]:
  "read_as st VNone = VNone" "read_as st (VBool b) = VBool b" "read_as st (VInt n) = VInt n" "read_as st (VFloat f) = VFloat f"
  "read_as st (VStr s) = VStr s" "read_as st (VList xs) = VList (map (read_as st) xs)"
  "read_as st (VDict d) = VDict (map (\<lambda>kv. (fst kv, read_as st (snd kv))) (in_order st d))"
  by (simp_all add: read_as_def in_order_def sorted_list_map sorted_dict_map sort_items_map cong: map_cong)

lemma set_in_order [simp]: "set (in_order st d) = set d"
  by (simp add: in_order_def sort_items_def)

lemma distinct_in_order: "dict_ok d \<Longrightarrow> distinct (map fst (in_order st d))"
proof -
  have "map fst (sort_items d) = sort (map fst d)" by (simp add: sort_items_def sort_key_map comp_def)
  then show "dict_ok d \<Longrightarrow> distinct (map fst (in_order st d))" by (simp add: in_order_def dict_ok_def)
qed

lemma written_list: "written st (VList xs) \<longleftrightarrow> (\<forall>x \<in> set xs. written st x)"
  by (auto simp: written_def readable_list_iff surrogate_free_list_iff)

lemma written_dict: "written st (VDict d) \<longleftrightarrow>
    dict_ok d \<and> (\<forall>kv \<in> set d. string_ok (ensure_ascii st) (fst kv) \<and> written st (snd kv))"
  by (auto simp: written_def readable_items_iff surrogate_free_items_iff string_ok_def)

lemma written_str: "written st (VStr s) \<longleftrightarrow> string_ok (ensure_ascii st) s"
  by (simp add: written_def string_ok_def)

text \<open>The first character of a text decides how it is scanned.\<close>

definition value_start :: "int \<Rightarrow> bool" where
  "value_start c \<longleftrightarrow> c \<in> {34, 45, 91, 102, 110, 116, 123} \<or> is_digit c"

lemma dec_digits_start: "0 \<le> n \<Longrightarrow> \<exists>c s. dec_digits n = c # s \<and> is_digit c"
  using dec_digits_digits [of n] by (cases "dec_digits n") simp_all

lemma int_str_start: "\<exists>c s. int_str n = c # s \<and> (is_digit c \<or> c = 45 \<and> (\<exists>d t. s = d # t \<and> is_digit d))"
  using dec_digits_start [of n] dec_digits_start [of "- n"] by (cases "n < 0") (auto simp: int_str_def)

lemma float_repr_start:
  assumes "is_double q"
  shows "\<exists>c s. float_repr (Fin q) = c # s \<and> (is_digit c \<or> c = 45 \<and> (\<exists>d t. s = d # t \<and> is_digit d))"
proof (cases "q = 0")
  case True
  then show ?thesis by (simp add: str_def is_digit_def)
next
  case False
  have "is_double \<bar>q\<bar>" using assms by (cases "0 \<le> q") simp_all
  with False obtain d where d: "shortest_decimal \<bar>q\<bar> = Some d" using shortest_decimal_exists [of "\<bar>q\<bar>"] by auto
  have "0 < fst d" using d False by (intro shortest_decimal_pos) auto
  from decimal_repr_text [OF this] obtain ip fp ep where t: "decimal_repr d = ip @ (if fp = [] then [] else 46 # fp) @ ep" "int_part ip"
    unfolding decimal_text_def by blast
  from int_part_digits [OF t(2)] obtain c s where "ip = c # s" "is_digit c" by (cases ip) auto
  with t(1) d False show ?thesis by (cases "q < 0") simp_all
qed

lemma skip_ws_start: "\<not> json_ws c \<Longrightarrow> skip_ws (c # s) = c # s"
  by (simp add: skip_ws_def)

lemma skip_ws_space: "skip_ws (32 # s) = skip_ws s"
  by (simp add: skip_ws_def json_ws_def)

lemma value_start_ws: "value_start c \<Longrightarrow> \<not> json_ws c \<and> c \<noteq> 93 \<and> c \<noteq> 125"
  by (auto simp: value_start_def json_ws_def is_digit_def)

lemma join_two: "join sep (x # xs) = (if xs = [] then x else x @ sep @ join sep xs)"
  by (cases xs) simp_all

lemma update_new_key: "k \<notin> fst ` set d \<Longrightarrow> AList.update k v d = d @ [(k, v)]"
  by (induction d) auto

lemma scan_value_number:
  assumes "is_digit c \<or> c = 45 \<and> (\<exists>d t. s = d # t \<and> is_digit d)"
  shows "scan_value (Suc n) (c # s) = scan_number (c # s)"
proof -
  have "scan_constant json_constants (c # s) = None"
    using assms by (auto simp: json_constants_def startswith_def str_def is_digit_def)
  moreover have "c \<noteq> 34" "c \<noteq> 123" "c \<noteq> 91" using assms by (auto simp: is_digit_def)
  ultimately show ?thesis by simp
qed

lemma scan_value_constant:
  assumes "(k, v) \<in> set [(str ''null'', VNone), (str ''true'', VBool True), (str ''false'', VBool False)]"
  shows "scan_value (Suc n) (k @ r) = Inr (v, r)"
  using assms by (auto simp: json_constants_def startswith_def str_def)

section \<open>Reading back\<close>

text \<open>The styles of the sources: the two separators carry one space, keys are sorted or not, non-ASCII is escaped or not.\<close>

locale json_text =
  fixes st :: json_style
  assumes separators: "item_separator st = [44, 32]" "key_separator st = [58, 32]"
begin

lemma list_text: "json_dumps st (VList xs) = [91] @ join [44, 32] (map (json_dumps st) xs) @ [93]"
  by (simp add: dumps_list_map separators)

lemma dict_text: "json_dumps st (VDict d) = [123] @ join [44, 32] (map (pair_text st) (in_order st d)) @ [125]"
proof -
  let ?h = "\<lambda>kv. (fst kv, pair_text st kv)"
  have "dumps_items st d = map ?h d" by (simp add: dumps_items_map pair_text_def separators)
  moreover have "map snd (sort_items (map ?h d)) = map (pair_text st) (sort_items d)"
    by (simp add: sort_items_def sort_key_map comp_def)
  ultimately show ?thesis by (simp add: separators in_order_def comp_def)
qed

lemma value_text_start:
  assumes "written st v"
  shows "\<exists>c s. json_dumps st v = c # s \<and> value_start c"
proof (cases v)
  case (VInt n)
  with int_str_start [of n] show ?thesis by (auto simp: value_start_def)
next
  case (VFloat f)
  with assms obtain q where q: "f = Fin q" "is_double q" by (auto simp: written_def)
  from float_repr_start [OF q(2)] obtain c s where "float_repr (Fin q) = c # s" "is_digit c \<or> c = 45" by blast
  with VFloat q(1) show ?thesis by (auto simp: value_start_def simp del: float_repr.simps)
qed (auto simp: value_start_def str_def dumps_string_body dict_text list_text simp del: json_dumps.simps(6,7))

lemma skip_ws_value: "written st v \<Longrightarrow> skip_ws (json_dumps st v @ s) = json_dumps st v @ s"
  using value_text_start [of v] value_start_ws by (auto simp: skip_ws_start simp del: json_dumps.simps)

lemma scan_elements:
  assumes "\<forall>x \<in> set xs. scans st x \<and> written st x" "xs \<noteq> []" "length (join [44, 32] (map (json_dumps st) xs)) + 1 < n"
  shows "scan_array n (join [44, 32] (map (json_dumps st) xs) @ 93 # r) = Inr (map (read_as st) xs, r)"
  using assms
proof (induction xs arbitrary: n)
  case (Cons x xs)
  from Cons.prems(3) obtain m where n: "n = Suc m" by (cases n) simp_all
  have x: "scans st x" "length (json_dumps st x) < m" using Cons.prems n by (auto simp: join_two split: if_splits)
  show ?case
  proof (cases "xs = []")
    case True
    have "number_ends (93 # r)" by (simp add: number_ends_def is_digit_def)
    with x have "scan_value m (json_dumps st x @ 93 # r) = Inr (read_as st x, 93 # r)" by (simp add: scans_def)
    then show ?thesis by (simp add: True n skip_ws_start json_ws_def del: scan_value.simps)
  next
    case False
    let ?rest = "join [44, 32] (map (json_dumps st) xs) @ 93 # r"
    have "number_ends (44 # 32 # ?rest)" by (simp add: number_ends_def is_digit_def)
    with x have v: "scan_value m (json_dumps st x @ 44 # 32 # ?rest) = Inr (read_as st x, 44 # 32 # ?rest)" by (simp add: scans_def)
    obtain y ys where xs: "xs = y # ys" using False by (cases xs) simp_all
    have "skip_ws ?rest = ?rest" using Cons.prems(1) skip_ws_value [of y] by (simp add: xs join_two)
    moreover have "scan_array m ?rest = Inr (map (read_as st) xs, r)"
      using Cons.prems n False by (intro Cons.IH) (simp_all add: join_two)
    ultimately show ?thesis using v False
      by (simp add: n join_two skip_ws_start skip_ws_space json_ws_def del: scan_value.simps)
  qed
qed simp

lemma scan_items:
  assumes "\<forall>kv \<in> set d. string_ok (ensure_ascii st) (fst kv) \<and> scans st (snd kv) \<and> written st (snd kv)" "d \<noteq> []"
    and "distinct (map fst (acc @ d))" "length (join [44, 32] (map (pair_text st) d)) + 1 < n"
  shows "scan_object n acc (join [44, 32] (map (pair_text st) d) @ 125 # r) = Inr (acc @ map (\<lambda>kv. (fst kv, read_as st (snd kv))) d, r)"
  using assms
proof (induction d arbitrary: n acc)
  case (Cons kv d)
  from Cons.prems(4) obtain m where n: "n = Suc m" by (cases n) simp_all
  obtain k v where kv: "kv = (k, v)" by (cases kv)
  let ?rest = "join [44, 32] (map (pair_text st) d) @ 125 # r"
  let ?tail = "if d = [] then 125 # r else 44 # 32 # ?rest"
  let ?body = "string_body (ensure_ascii st) k @ 34 # 58 # 32 # json_dumps st v @ ?tail"
  have whole: "join [44, 32] (map (pair_text st) (kv # d)) @ 125 # r = 34 # ?body"
    by (simp add: kv join_two pair_text_def dumps_string_body)
  have k: "scan_string (Suc (length ?body)) ?body = Inr (k, 58 # 32 # json_dumps st v @ ?tail)"
    using Cons.prems(1) length_string_body [of k "ensure_ascii st"] by (intro string_body_scans) (auto simp: kv)
  have "number_ends ?tail" by (simp add: number_ends_def is_digit_def)
  moreover have "length (json_dumps st v) < m"
    using Cons.prems(4) by (auto simp: n kv join_two pair_text_def split: if_splits)
  ultimately have v: "scan_value m (json_dumps st v @ ?tail) = Inr (read_as st v, ?tail)"
    using Cons.prems(1) by (simp add: kv scans_def)
  have w: "skip_ws (32 # json_dumps st v @ ?tail) = json_dumps st v @ ?tail" "skip_ws (58 # 32 # json_dumps st v @ ?tail) = 58 # 32 # json_dumps st v @ ?tail"
    "skip_ws ?tail = ?tail"
    using Cons.prems(1) by (simp_all add: kv skip_ws_space skip_ws_value skip_ws_start json_ws_def)
  have up: "AList.update k (read_as st v) acc = acc @ [(k, read_as st v)]"
    using Cons.prems(3) by (simp add: kv update_new_key)
  have step: "scan_object n acc (34 # ?body) = (if d = [] then Inr (acc @ [(k, read_as st v)], r)
      else scan_object m (acc @ [(k, read_as st v)]) (skip_ws (32 # ?rest)))"
    using k v w up by (simp add: n del: scan_value.simps scan_string.simps)
  show ?case
  proof (cases "d = []")
    case True
    with step whole show ?thesis by (simp add: kv)
  next
    case False
    obtain j w e where d: "d = (j, w) # e" using False by (cases d) auto
    have "skip_ws (32 # ?rest) = ?rest"
      by (simp add: d skip_ws_space join_two pair_text_def dumps_string_body skip_ws_start json_ws_def)
    moreover have "scan_object m (acc @ [(k, read_as st v)]) ?rest = Inr ((acc @ [(k, read_as st v)]) @ map (\<lambda>kv. (fst kv, read_as st (snd kv))) d, r)"
      using Cons.prems n False by (intro Cons.IH) (auto simp: kv join_two)
    ultimately show ?thesis using step False unfolding whole by (simp add: kv)
  qed
qed simp

lemma scansI:
  assumes "\<And>m r. length (json_dumps st v) \<le> m \<Longrightarrow> number_ends r \<Longrightarrow> scan_value (Suc m) (json_dumps st v @ r) = Inr (read_as st v, r)"
  shows "scans st v"
  unfolding scans_def by (metis Suc_le_eq assms less_eq_Suc_le Suc_le_D Suc_le_mono)

lemma scans_str:
  assumes "string_ok (ensure_ascii st) t"
  shows "scans st (VStr t)"
proof (rule scansI)
  fix m r
  let ?body = "string_body (ensure_ascii st) t @ 34 # r"
  have whole: "json_dumps st (VStr t) @ r = 34 # ?body" by (simp add: dumps_string_body)
  have "scan_string (Suc (length ?body)) ?body = Inr (t, r)"
    using assms length_string_body [of t "ensure_ascii st"] by (intro string_body_scans) simp_all
  then show "scan_value (Suc m) (json_dumps st (VStr t) @ r) = Inr (read_as st (VStr t), r)"
    unfolding whole by (simp del: scan_string.simps)
qed

lemma scans_list:
  assumes xs: "\<forall>x \<in> set xs. scans st x \<and> written st x"
  shows "scans st (VList xs)"
proof (rule scansI)
  fix m r
  assume "length (json_dumps st (VList xs)) \<le> m"
  then have len: "length (join [44, 32] (map (json_dumps st) xs)) + 1 < m" unfolding list_text by simp
  let ?rest = "join [44, 32] (map (json_dumps st) xs) @ 93 # r"
  show "scan_value (Suc m) (json_dumps st (VList xs) @ r) = Inr (read_as st (VList xs), r)"
  proof (cases xs)
    case Nil
    then show ?thesis by (simp add: skip_ws_start json_ws_def)
  next
    case (Cons y ys)
    with xs have ry: "written st y" by simp
    from value_text_start [OF this] obtain c s where cs: "json_dumps st y = c # s" "value_start c" by blast
    have w: "skip_ws ?rest = ?rest" using skip_ws_value [OF ry] by (simp add: Cons join_two)
    have "\<exists>u. ?rest = c # u" using cs(1) by (cases ys) (simp_all add: Cons join_two)
    then obtain u where u: "?rest = c # u" by blast
    have "scan_array m ?rest = Inr (map (read_as st) xs, r)" using Cons by (intro scan_elements xs len) simp
    with w u value_start_ws [OF cs(2)] show ?thesis unfolding list_text by (simp add: sorted_list_map)
  qed
qed

lemma scans_dict:
  assumes d: "\<forall>kv \<in> set d. string_ok (ensure_ascii st) (fst kv) \<and> scans st (snd kv) \<and> written st (snd kv)" and "dict_ok d"
  shows "scans st (VDict d)"
proof (rule scansI)
  fix m r
  let ?d = "in_order st d" and ?items = "map (\<lambda>kv. (fst kv, read_as st (snd kv))) (in_order st d)"
  let ?rest = "join [44, 32] (map (pair_text st) ?d) @ 125 # r"
  assume "length (json_dumps st (VDict d)) \<le> m"
  then have len: "length (join [44, 32] (map (pair_text st) ?d)) + 1 < m" unfolding dict_text by simp
  have sd: "\<forall>kv \<in> set ?d. string_ok (ensure_ascii st) (fst kv) \<and> scans st (snd kv) \<and> written st (snd kv)" using d by simp
  have dist: "distinct (map fst ([] @ ?d))" using distinct_in_order [OF assms(2)] by simp
  show "scan_value (Suc m) (json_dumps st (VDict d) @ r) = Inr (read_as st (VDict d), r)"
  proof (cases ?d)
    case Nil
    then show ?thesis unfolding read_as_simps dict_text by (simp add: skip_ws_start json_ws_def)
  next
    case (Cons kv e)
    have "\<exists>u. ?rest = 34 # u" by (cases e) (simp_all add: Cons join_two pair_text_def dumps_string_body)
    then obtain u where u: "?rest = 34 # u" by blast
    have w: "skip_ws ?rest = 34 # u" unfolding u by (simp add: skip_ws_start json_ws_def)
    have "scan_object m [] ?rest = Inr ([] @ ?items, r)" using Cons by (intro scan_items sd dist len) simp
    with w u show ?thesis unfolding read_as_simps dict_text by simp
  qed
qed

lemma scans_int: "length (dec_digits \<bar>n\<bar>) \<le> 4300 \<Longrightarrow> scans st (VInt n)"
proof (rule scansI)
  fix m r
  assume n: "length (dec_digits \<bar>n\<bar>) \<le> 4300" "number_ends r"
  obtain c s where cs: "int_str n = c # s" "is_digit c \<or> c = 45 \<and> (\<exists>d t. s = d # t \<and> is_digit d)"
    using int_str_start [of n] by (elim exE conjE)
  have "scan_value (Suc m) (c # s @ r) = scan_number (c # s @ r)"
    by (rule scan_value_number) (use cs(2) in auto)
  with cs(1) scan_int_str [OF n] show "scan_value (Suc m) (json_dumps st (VInt n) @ r) = Inr (read_as st (VInt n), r)"
    by (simp del: scan_value.simps)
qed

lemma scans_float: "is_double q \<Longrightarrow> scans st (VFloat (Fin q))"
proof (rule scansI)
  fix m r
  assume q: "is_double q" "number_ends r"
  obtain c s where cs: "float_repr (Fin q) = c # s" "is_digit c \<or> c = 45 \<and> (\<exists>d t. s = d # t \<and> is_digit d)"
    using float_repr_start [OF q(1)] by blast
  have "scan_value (Suc m) (c # s @ r) = scan_number (c # s @ r)"
    by (rule scan_value_number) (use cs(2) in auto)
  with cs(1) scan_float_repr [OF q]
  show "scan_value (Suc m) (json_dumps st (VFloat (Fin q)) @ r) = Inr (read_as st (VFloat (Fin q)), r)"
    by (simp del: scan_value.simps float_repr.simps)
qed

lemma scans_constant: "scans st VNone" "scans st (VBool b)"
  using scan_value_constant [of "str ''null''" VNone]
    scan_value_constant [of "if b then str ''true'' else str ''false''" "VBool b"]
  by (auto intro!: scansI simp del: scan_value.simps)

lemma all_scan: "written st v \<Longrightarrow> scans st v"
proof (induction v)
  case (VInt n)
  then show ?case by (intro scans_int) (simp add: written_def)
next
  case (VFloat f)
  then show ?case using scans_float by (auto simp: written_def)
next
  case (VStr t)
  then show ?case by (intro scans_str) (simp add: written_str)
next
  case (VList xs)
  then show ?case by (intro scans_list) (simp add: written_list)
next
  case (VDict d)
  then show ?case unfolding written_dict by (intro scans_dict) (auto simp: snds_snd)
qed (simp_all add: scans_constant del: json_dumps.simps)

theorem loads_text:
  assumes "written st v"
  shows "json_loads (json_dumps st v) = Inr (read_as st v)"
proof -
  obtain c s where cs: "json_dumps st v = c # s" "value_start c" using value_text_start [OF assms] by blast
  have "number_ends []" "length (json_dumps st v) < Suc (2 * length (json_dumps st v))" by (simp_all add: number_ends_def)
  with all_scan [OF assms] have "scan_value (Suc (2 * length (json_dumps st v))) (json_dumps st v) = Inr (read_as st v, [])"
    unfolding scans_def by (metis append_Nil2)
  moreover have "\<not> startswith (json_dumps st v) [65279]" using cs by (auto simp: startswith_def value_start_def is_digit_def)
  moreover have "skip_ws (json_dumps st v) = json_dumps st v" using skip_ws_value [OF assms, of "[]"] by simp
  ultimately show ?thesis by (simp add: json_loads_def skip_ws_def del: scan_value.simps json_dumps.simps)
qed

end

interpretation audit_text: json_text audit_style
  by unfold_locales simp_all

interpretation default_text: json_text default_style
  by unfold_locales simp_all

text \<open>The lines of the audit log, and every other text: an unsorted text reads back as the very value.\<close>

lemma dumps_list_text: "dumps (VList xs) = [91] @ join [44, 32] (map dumps xs) @ [93]"
  by (rule audit_text.list_text)

lemma dumps_dict_text: "dumps (VDict d) = [123] @ join [44, 32] (map (pair_text audit_style) (sort_items d)) @ [125]"
  using audit_text.dict_text [of d] by (simp add: in_order_def del: json_dumps.simps)

theorem json_loads_dumps: "readable v \<Longrightarrow> json_loads (dumps v) = Inr (sorted_val v)"
  using audit_text.loads_text [of v] by (simp add: written_def read_as_def del: json_dumps.simps)

theorem json_loads_default: "readable v \<Longrightarrow> surrogate_free v \<Longrightarrow> json_loads (json_dumps default_style v) = Inr v"
  using default_text.loads_text [of v] by (simp add: written_def read_as_def del: json_dumps.simps)

section \<open>Reading back keeps the canonical hash\<close>

definition plain_str :: "pystr \<Rightarrow> bool" where
  "plain_str s \<longleftrightarrow> wf_str s \<and> \<not> list_ex is_surrogate s"

lemma utf16_units_split:
  assumes "0 \<le> c" "c < 1114112" "\<not> is_surrogate c" "0 \<le> d" "d < 1114112" "\<not> is_surrogate d"
    and "utf16_units c @ a = utf16_units d @ b"
  shows "c = d \<and> a = b"
proof -
  have pair: "0 \<le> (e - 65536) div 1024 \<and> (e - 65536) div 1024 < 1024" if "65536 \<le> e" "e < 1114112" for e :: int
  proof -
    have "(e - 65536) div 1024 \<le> 1048575 div 1024" using that by (intro zdiv_mono1) simp_all
    with that show ?thesis by (simp add: pos_imp_zdiv_nonneg_iff)
  qed
  have "c = d" if "65536 \<le> c" "65536 \<le> d" "(c - 65536) div 1024 = (d - 65536) div 1024" "(c - 65536) mod 1024 = (d - 65536) mod 1024"
  proof -
    have "c - 65536 = d - 65536" using that(3,4) by (metis mult_div_mod_eq)
    then show ?thesis by simp
  qed
  with assms pair [of c] pair [of d] show ?thesis
    by (cases "c < 65536"; cases "d < 65536") (simp_all add: utf16_units_def is_surrogate_def)
qed

lemma utf16_units_inj:
  assumes "plain_str s" "plain_str t" "concat (map utf16_units s) = concat (map utf16_units t)"
  shows "s = t"
  using assms
proof (induction s arbitrary: t)
  case Nil
  then show ?case by (cases t) (simp_all add: utf16_units_def split: if_splits)
next
  case (Cons c s)
  then obtain d u where t: "t = d # u" by (cases t) (simp_all add: utf16_units_def split: if_splits)
  from Cons.prems have "utf16_units c @ concat (map utf16_units s) = utf16_units d @ concat (map utf16_units u)"
    by (simp add: t)
  then have "c = d \<and> concat (map utf16_units s) = concat (map utf16_units u)"
    using Cons.prems(1,2) by (intro utf16_units_split) (simp_all add: t plain_str_def wf_str_def)
  with Cons.IH [of u] Cons.prems(1,2) show ?case by (simp add: t plain_str_def wf_str_def)
qed

lemma byte_pairs_inj:
  fixes xs ys :: "int list"
  assumes "concat (map (\<lambda>u. [u div 256, u mod 256]) xs) = concat (map (\<lambda>u. [u div 256, u mod 256]) ys)"
  shows "xs = ys"
  using assms
proof (induction xs arbitrary: ys)
  case Nil
  then show ?case by (cases ys) simp_all
next
  case (Cons x xs)
  then obtain y zs where ys: "ys = y # zs" by (cases ys) simp_all
  with Cons.prems have "x div 256 = y div 256" "x mod 256 = y mod 256" by simp_all
  then have "x = y" by (metis mult_div_mod_eq)
  with Cons ys show ?case by simp
qed

lemma utf16_be_inj: "plain_str s \<Longrightarrow> plain_str t \<Longrightarrow> utf16_be s = utf16_be t \<Longrightarrow> s = t"
  unfolding utf16_be_def using byte_pairs_inj utf16_units_inj by blast

lemma filter_eq_single: "x \<in> set xs \<Longrightarrow> distinct xs \<Longrightarrow> filter (\<lambda>y. y = x) xs = [x]"
  by (induction xs) (auto simp: filter_empty_conv)

lemma sort_by_key_sort_items:
  assumes "dict_ok d" "\<forall>kv \<in> set d. plain_str (fst kv)"
  shows "sort_by_key (sort_items d) = sort_by_key d"
proof -
  let ?k = "\<lambda>kv. utf16_be (fst kv)"
  have dist: "distinct d" using assms(1) by (auto simp: dict_ok_def distinct_map)
  have inj: "kv = kv'" if "kv \<in> set d" "kv' \<in> set d" "?k kv = ?k kv'" for kv kv'
    using that assms utf16_be_inj by (metis dict_ok_def distinct_map inj_on_def)
  have one: "filter (\<lambda>x. ?k kv = ?k x) e = [kv]" if "kv \<in> set e" "distinct e" "set e = set d" for kv e
  proof -
    have "filter (\<lambda>x. ?k kv = ?k x) e = filter (\<lambda>x. x = kv) e"
      using that inj by (intro filter_cong refl) metis
    also have "\<dots> = [kv]" using that by (intro filter_eq_single)
    finally show ?thesis .
  qed
  let ?s = "sort_key ?k d"
  have "sort_key ?k (sort_items d) = ?s"
  proof (rule properties_for_sort_key)
    show "mset ?s = mset (sort_items d)" by (simp add: sort_items_def)
    show "sorted (map ?k ?s)" by simp
    show "filter (\<lambda>x. ?k kv = ?k x) ?s = filter (\<lambda>x. ?k kv = ?k x) (sort_items d)" if "kv \<in> set ?s" for kv
      using that dist one [of kv ?s] one [of kv "sort_items d"] by (simp add: sort_items_def)
  qed
  then show ?thesis by (simp add: sort_by_key_def)
qed

lemma normal_sorted: "wf_val v \<Longrightarrow> renderable v \<Longrightarrow> normal (sorted_val v) = normal v"
proof (induction v)
  case (VList xs)
  then show ?case by (simp add: normal_list_map sorted_list_map wf_list_iff renderable_list_iff)
next
  case (VDict d)
  let ?n = "map (\<lambda>kv. (fst kv, normal (snd kv))) d"
  have v: "normal (sorted_val (snd kv)) = normal (snd kv)" if "kv \<in> set d" for kv
    using VDict.IH [OF that, of "snd kv"] VDict.prems that by (simp add: snds_snd wf_items_iff renderable_items_iff)
  have "normal_items (sort_items (sorted_dict d)) = sort_items ?n"
    using v by (simp add: normal_items_map sorted_dict_map sort_items_map [symmetric] sort_items_def sort_key_map comp_def)
  moreover have "sort_by_key (sort_items ?n) = sort_by_key ?n"
    using VDict.prems by (intro sort_by_key_sort_items)
      (auto simp: dict_ok_def comp_def wf_items_iff renderable_items_iff plain_str_def)
  ultimately show ?case by (simp add: normal_items_map)
qed simp_all

lemma keys_sort_items: "map fst (sort_items d) = sort (map fst d)"
  by (simp add: sort_items_def sort_key_map comp_def)

lemma dict_ok_sort_items [simp]: "dict_ok (sort_items d) \<longleftrightarrow> dict_ok d"
  by (simp add: dict_ok_def keys_sort_items)

lemma sorted_preserves: "wf_val v \<Longrightarrow> renderable v \<Longrightarrow> wf_val (sorted_val v) \<and> renderable (sorted_val v)"
proof (induction v)
  case (VList xs)
  then show ?case by (simp add: sorted_list_map wf_list_iff renderable_list_iff)
next
  case (VDict d)
  have v: "wf_val (sorted_val (snd kv)) \<and> renderable (sorted_val (snd kv))" if "kv \<in> set d" for kv
    using VDict.IH [OF that, of "snd kv"] VDict.prems that by (simp add: snds_snd wf_items_iff renderable_items_iff)
  have "dict_ok (sort_items (sorted_dict d))"
    using VDict.prems by (simp add: dict_ok_sort_items) (simp add: dict_ok_def sorted_dict_map comp_def)
  with v VDict.prems show ?case
    by (auto simp: wf_items_iff renderable_items_iff sorted_dict_map sort_items_def)
qed simp_all

lemma canonical_hash_sorted:
  assumes "wf_val v" "canonical_hash sha v = Inr h"
  shows "canonical_hash sha (sorted_val v) = Inr h"
proof -
  from assms(2) obtain t where t: "canonical_json v = Inr t" "rmap sha (encode_utf8 t) = Inr h"
    by (auto simp: canonical_hash_def rbind_eq_Inr)
  with canonical_json_total [OF assms(1)] have r: "renderable v" by blast
  from sorted_preserves [OF assms(1) r] canonical_json_total [of "sorted_val v"]
  obtain u where u: "canonical_json (sorted_val v) = Inr u" by blast
  have "canonical_json (normal v) = Inr u"
    using canonical_normal_text [OF u] by (simp add: normal_sorted [OF assms(1) r])
  with canonical_normal_text [OF t(1)] have "u = t" by simp
  with t(2) u show ?thesis by (simp add: canonical_hash_def)
qed

lemma fl_finite_bound:
  assumes "fl (of_int n) = Fin q" "0 < n"
  shows "n < 10 ^ 1024"
proof -
  let ?q = "rat_of_int n"
  have "ulp_exp ?q \<le> 971" using assms by (auto simp: fl_def Let_def split: if_splits)
  then have l: "ilog 2 ?q + 1 \<le> 1024" using assms(2) by (simp add: ulp_exp_def)
  have "?q < rpow 2 (ilog 2 ?q + 1)" using ilog_bounds [of 2 ?q] assms(2) by simp
  also have "\<dots> \<le> rpow 2 1024" using l by (intro rpow_mono) simp_all
  also have "rpow 2 1024 = of_int (2 ^ 1024)" using rpow_nonneg [of 1024 2] by simp
  finally have "n < 2 ^ 1024" by (simp only: of_int_less_iff)
  also have "(2::int) ^ 1024 \<le> 10 ^ 1024" by (rule power_mono) simp_all
  finally show ?thesis .
qed

lemma renderable_int_digits:
  assumes "fl (of_int n) = Fin q"
  shows "length (dec_digits \<bar>n\<bar>) \<le> 4300"
proof (cases "n = 0")
  case True
  then show ?thesis by (simp add: dec_digits.simps [of 0])
next
  case False
  have "\<exists>p. fl (of_int \<bar>n\<bar>) = Fin p"
    using assms fl_minus [of "of_int n"] by (cases "0 \<le> n") simp_all
  then obtain p where "fl (of_int \<bar>n\<bar>) = Fin p" by blast
  then have "\<bar>n\<bar> < 10 ^ 1024" using False by (intro fl_finite_bound) simp_all
  moreover have "(10::int) ^ (length (dec_digits \<bar>n\<bar>) - 1) \<le> \<bar>n\<bar>" using False by (intro dec_digits_bound) simp
  ultimately have "(10::int) ^ (length (dec_digits \<bar>n\<bar>) - 1) < 10 ^ 1024" by (rule le_less_trans [rotated])
  then have "length (dec_digits \<bar>n\<bar>) - 1 < 1024" by (rule power_less_imp_less_exp [rotated]) simp
  then show ?thesis by simp
qed

lemma renderable_readable: "wf_val v \<Longrightarrow> renderable v \<Longrightarrow> readable v"
proof (induction v)
  case (VDict d)
  then show ?case by (auto simp: readable_items_iff wf_items_iff renderable_items_iff snds_snd)
qed (auto simp: readable_list_iff wf_list_iff renderable_list_iff renderable_int_digits)

lemma canonical_hash_renderable: "wf_val v \<Longrightarrow> canonical_hash sha v = Inr h \<Longrightarrow> renderable v"
  using canonical_json_total by (auto simp: canonical_hash_def rbind_eq_Inr)

end
