(* ===== verification/AuditSink.thy ===== *)
theory AuditSink
  imports Auth JsonRoundTrip
begin

text \<open>
  \<open>axg/audit.py\<close>: the append-only audit log with its hash chain, its verifier, the webhook sink with
  retries and the manager that feeds both. A file is its text after newline translation (\<open>None\<close> when it
  does not exist). Clocks, network outcomes and what the file system does with a call are arguments: a read
  may fail, and an append may fail before or after any part of the line is in the file.
\<close>

section \<open>The hash chain\<close>

definition GENESIS_HASH :: pystr where
  "GENESIS_HASH = replicate 64 48"

definition chain_hash :: "(int list \<Rightarrow> pystr) \<Rightarrow> pydict \<Rightarrow> pystr res" where
  "chain_hash sha entry = canonical_hash sha (VDict (filter (\<lambda>kv. fst kv \<noteq> str ''record_hash'') entry))"

section \<open>The file sink\<close>

text \<open>\<open>str.splitlines()\<close>.\<close>

definition is_break :: "int \<Rightarrow> bool" where
  "is_break c \<longleftrightarrow> c \<in> {10, 11, 12, 13, 28, 29, 30, 133, 8232, 8233}"

fun lines_from :: "pystr \<Rightarrow> pystr \<Rightarrow> pystr list" where
  "lines_from cur [] = (if cur = [] then [] else [cur])"
| "lines_from cur [c] = (if is_break c then [cur] else [cur @ [c]])"
| "lines_from cur (c # d # s) =
     (if c = 13 \<and> d = 10 then cur # lines_from [] s
      else if is_break c then cur # lines_from [] (d # s)
      else lines_from (cur @ [c]) (d # s))"

definition split_lines :: "pystr \<Rightarrow> pystr list" where
  "split_lines s = lines_from [] s"

definition blank :: "pystr \<Rightarrow> bool" where
  "blank line \<longleftrightarrow> py_strip line = []"

definition read_last_hash :: "pystr option \<Rightarrow> pyval res" where
  "read_last_hash file =
     (case file of
        None \<Rightarrow> Inr (VStr GENESIS_HASH)
      | Some text \<Rightarrow>
          (let lines = filter (\<lambda>l. \<not> blank l) (split_lines text)
           in if lines = [] then Inr (VStr GENESIS_HASH)
              else rbind (json_loads (last lines)) (\<lambda>v.
                (case v of
                   VDict entry \<Rightarrow> Inr (case map_of entry (str ''record_hash'') of None \<Rightarrow> VStr GENESIS_HASH | Some h \<Rightarrow> h)
                 | _ \<Rightarrow> Inl AttributeError))))"

text \<open>The sink remembers the last hash (\<open>None\<close> until it was read).\<close>

record file_sink =
  sk_last :: pyval
  sk_file :: "pystr option"

definition audit_entry :: "pystr \<Rightarrow> pyval \<Rightarrow> pydict \<Rightarrow> pydict" where
  "audit_entry stamp latest event =
     AList.update (str ''prev_hash'') latest (AList.update (str ''timestamp'') (VStr stamp) event)"

definition file_text :: "pystr option \<Rightarrow> pystr" where
  "file_text file = (case file of None \<Rightarrow> [] | Some text \<Rightarrow> text)"

definition entry_line :: "pydict \<Rightarrow> pystr" where
  "entry_line entry = json_dumps audit_style (VDict entry) @ [10]"

text \<open>
  The file system in one call: whether the existing file can be read, and how the append ends.
  \<open>Cut_off n\<close> is an exception once the file is open and the first \<open>n\<close> characters of the line are in it.
\<close>

datatype append_outcome = Appended | Not_opened | Cut_off nat

record sink_io =
  io_readable :: bool
  io_append :: append_outcome

definition file_record :: "(int list \<Rightarrow> pystr) \<Rightarrow> sink_io \<Rightarrow> pystr \<Rightarrow> file_sink \<Rightarrow> pydict \<Rightarrow> file_sink" where
  "file_record sha io stamp sk event =
     (case (if sk_last sk = VNone
            then (if io_readable io then read_last_hash (sk_file sk) else Inl (OtherError (str ''OSError'')))
            else Inr (sk_last sk)) of
        Inl _ \<Rightarrow> sk
      | Inr latest \<Rightarrow>
          (let entry = audit_entry stamp latest event
           in case chain_hash sha entry of
                Inl _ \<Rightarrow> sk\<lparr>sk_last := latest\<rparr>
              | Inr h \<Rightarrow>
                  (let line = entry_line (AList.update (str ''record_hash'') (VStr h) entry)
                   in case io_append io of
                        Appended \<Rightarrow> sk\<lparr>sk_last := VStr h, sk_file := Some (file_text (sk_file sk) @ line)\<rparr>
                      | Not_opened \<Rightarrow> sk\<lparr>sk_last := latest\<rparr>
                      | Cut_off n \<Rightarrow> sk\<lparr>sk_last := latest, sk_file := Some (file_text (sk_file sk) @ take n line)\<rparr>)))"

section \<open>Verification\<close>

fun verify_lines :: "(int list \<Rightarrow> pystr) \<Rightarrow> pystr \<Rightarrow> int \<Rightarrow> pystr list \<Rightarrow> (bool \<times> int option) res" where
  "verify_lines sha previous number [] = Inr (True, None)"
| "verify_lines sha previous number (line # lines) =
     (if blank line then verify_lines sha previous (number + 1) lines
      else (case json_loads line of
          Inl e \<Rightarrow> if e = JSONDecodeError then Inr (False, Some number) else Inl e
        | Inr (VDict entry) \<Rightarrow>
            if dget entry ''prev_hash'' \<noteq> VStr previous then Inr (False, Some number)
            else rbind (chain_hash sha entry) (\<lambda>h.
              if dget entry ''record_hash'' \<noteq> VStr h then Inr (False, Some number)
              else verify_lines sha h (number + 1) lines)
        | Inr _ \<Rightarrow> Inl AttributeError))"

definition verify_audit_chain :: "(int list \<Rightarrow> pystr) \<Rightarrow> pystr \<Rightarrow> (bool \<times> int option) res" where
  "verify_audit_chain sha text = verify_lines sha GENESIS_HASH 1 (split_lines text)"

section \<open>The webhook sink\<close>

definition WEBHOOK_ATTEMPTS :: nat where
  "WEBHOOK_ATTEMPTS = 3"

record webhook_sink =
  wh_url :: pystr
  wh_token :: "pystr option"

definition webhook_headers :: "webhook_sink \<Rightarrow> (pystr \<times> pystr) list" where
  "webhook_headers w =
     [(str ''Content-Type'', str ''application/json'')]
     @ (case wh_token w of Some t \<Rightarrow> if t \<noteq> [] then [(str ''Authorization'', str ''Bearer '' @ t)] else [] | None \<Rightarrow> [])"

text \<open>
  The attempts from \<open>attempt\<close> on, when \<open>post attempt\<close> says whether a request succeeded: whether the log
  was delivered, how many requests left, and the pauses between them in milliseconds.
\<close>

record delivery =
  dv_delivered :: bool
  dv_requests :: nat
  dv_pauses :: "nat list"

function deliver :: "(nat \<Rightarrow> bool) \<Rightarrow> nat \<Rightarrow> delivery" where
  "deliver post attempt =
     (if post attempt then \<lparr>dv_delivered = True, dv_requests = 1, dv_pauses = []\<rparr>
      else if WEBHOOK_ATTEMPTS \<le> attempt then \<lparr>dv_delivered = False, dv_requests = 1, dv_pauses = []\<rparr>
      else (let rest = deliver post (attempt + 1)
            in rest\<lparr>dv_requests := Suc (dv_requests rest), dv_pauses := 500 * attempt # dv_pauses rest\<rparr>))"
  by pat_completeness auto
termination
  by (relation "measure (\<lambda>(post, attempt). WEBHOOK_ATTEMPTS - attempt)") auto

declare deliver.simps [simp del]

definition webhook_record :: "(nat \<Rightarrow> bool) \<Rightarrow> pystr \<Rightarrow> webhook_sink \<Rightarrow> pydict \<Rightarrow> pydict \<times> delivery" where
  "webhook_record post stamp w event = (AList.update (str ''timestamp'') (VStr stamp) event, deliver post 1)"

section \<open>The manager\<close>

record audit_manager =
  am_file :: "file_sink option"
  am_webhook :: "webhook_sink option"

definition set_value :: "pystr option \<Rightarrow> pystr option" where
  "set_value s = (case s of Some t \<Rightarrow> if t = [] then None else Some t | None \<Rightarrow> None)"

definition make_manager :: "environ \<Rightarrow> (pystr \<Rightarrow> pystr option) \<Rightarrow> audit_manager" where
  "make_manager env disk =
     \<lparr>am_file = map_option (\<lambda>path. \<lparr>sk_last = VNone, sk_file = disk path\<rparr>) (set_value (env ''AXG_AUDIT_FILE'')),
      am_webhook = map_option (\<lambda>url. \<lparr>wh_url = url, wh_token = env ''AXG_AUDIT_WEBHOOK_TOKEN''\<rparr>)
        (set_value (env ''AXG_AUDIT_WEBHOOK''))\<rparr>"

text \<open>What one call sees of the outside: clock readings, the file system and the network.\<close>

record audit_moment =
  au_stamp_file :: pystr
  au_stamp_webhook :: pystr
  au_io :: sink_io
  au_post :: "nat \<Rightarrow> bool"

definition record_decision ::
    "(int list \<Rightarrow> pystr) \<Rightarrow> audit_moment \<Rightarrow> audit_manager \<Rightarrow> pydict \<Rightarrow> audit_manager \<times> (pydict \<times> delivery) option" where
  "record_decision sha au am event =
     (am\<lparr>am_file := map_option (\<lambda>sk. file_record sha (au_io au) (au_stamp_file au) sk event) (am_file am)\<rparr>,
      map_option (\<lambda>w. webhook_record (au_post au) (au_stamp_webhook au) w event) (am_webhook am))"

end
