(* ===== verification/AuditChain.thy ===== *)
theory AuditChain
  imports AuditSink
begin

text \<open>
  What the audit log of \<open>AuditSink\<close> guarantees: a log of whole lines written by the sink verifies, however
  often it is reopened, and a log that verifies cannot be changed without changing its last hash.
\<close>

section \<open>The interface of a hash chain\<close>

text \<open>
  A chain of entries: each names the hash of the one before. \<open>link\<close> is an entry's own hash, \<open>prev\<close> the
  one it names; entries with the same hash are the same (up to \<open>same\<close>) and no entry has the first hash.
\<close>

fun chained :: "('e \<Rightarrow> 'h) \<Rightarrow> ('e \<Rightarrow> 'h) \<Rightarrow> 'h \<Rightarrow> 'e list \<Rightarrow> bool" where
  "chained link prev h [] \<longleftrightarrow> True"
| "chained link prev h (e # es) \<longleftrightarrow> prev e = h \<and> chained link prev (link e) es"

fun last_link :: "('e \<Rightarrow> 'h) \<Rightarrow> 'h \<Rightarrow> 'e list \<Rightarrow> 'h" where
  "last_link link h [] = h"
| "last_link link h (e # es) = last_link link (link e) es"

lemma chained_append: "chained link prev h (es @ fs) \<longleftrightarrow> chained link prev h es \<and> chained link prev (last_link link h es) fs"
  by (induction es arbitrary: h) auto

lemma last_link_append [simp]: "last_link link h (es @ fs) = last_link link (last_link link h es) fs"
  by (induction es arbitrary: h) simp_all

locale hash_chain =
  fixes link :: "'e \<Rightarrow> 'h" and prev :: "'e \<Rightarrow> 'h" and good :: "'e \<Rightarrow> bool"
    and same :: "'e \<Rightarrow> 'e \<Rightarrow> bool" and genesis :: 'h
  assumes binding: "good e \<Longrightarrow> good f \<Longrightarrow> link e = link f \<Longrightarrow> same e f"
    and same_prev: "same e f \<Longrightarrow> prev e = prev f"
    and no_genesis: "good e \<Longrightarrow> link e \<noteq> genesis"
begin

lemma last_determines:
  assumes "chained link prev genesis es" "chained link prev genesis fs"
    and "list_all good es" "list_all good fs" "last_link link genesis es = last_link link genesis fs"
  shows "list_all2 same es fs"
  using assms
proof (induction es arbitrary: fs rule: rev_induct)
  case Nil
  show ?case
  proof (cases fs rule: rev_cases)
    case (snoc gs f)
    with Nil have "link f = genesis" "good f" by simp_all
    with no_genesis [of f] show ?thesis by simp
  qed simp
next
  case (snoc e es)
  have "good e" using snoc.prems(3) by simp
  from no_genesis [OF this] have "fs \<noteq> []" using snoc.prems(5) by auto
  then obtain f gs where fs: "fs = gs @ [f]" by (cases fs rule: rev_cases) simp_all
  from snoc.prems fs have "link e = link f" "good e" "good f" by simp_all
  then have "same e f" by (intro binding)
  with snoc.prems fs have "last_link link genesis es = last_link link genesis gs"
    using same_prev [OF \<open>same e f\<close>] by (simp add: chained_append)
  with snoc fs have "list_all2 same es gs" by (simp add: chained_append)
  with \<open>same e f\<close> fs show ?case by (simp add: list_all2_appendI)
qed

lemma change_shows:
  assumes "chained link prev genesis es" "chained link prev genesis fs" "list_all good es" "list_all good fs"
    and "\<not> list_all2 same es fs"
  shows "last_link link genesis es \<noteq> last_link link genesis fs"
  using assms last_determines by blast

end

section \<open>Lines\<close>

lemma lines_from_line:
  "list_all (\<lambda>c. \<not> is_break c) l \<Longrightarrow> lines_from cur (l @ 10 # s) = (cur @ l) # lines_from [] s"
proof (induction l arbitrary: cur)
  case Nil
  then show ?case by (cases s) (simp_all add: is_break_def)
next
  case (Cons c l)
  obtain d u where du: "l @ 10 # s = d # u" by (cases l) simp_all
  from Cons.prems have "\<not> is_break c" "c \<noteq> 13" by (auto simp: is_break_def)
  with Cons.IH [of "cur @ [c]"] Cons.prems du show ?case by simp
qed

lemma split_lines_line: "list_all (\<lambda>c. \<not> is_break c) l \<Longrightarrow> split_lines (l @ [10] @ s) = l # split_lines s"
  by (simp add: split_lines_def lines_from_line)

text \<open>Values whose text stays on one line: no string holds one of the breaks that JSON leaves alone.\<close>

definition tidy_str :: "pystr \<Rightarrow> bool" where
  "tidy_str s \<longleftrightarrow> list_all (\<lambda>c. c \<notin> {133, 8232, 8233}) s"

fun tidy :: "pyval \<Rightarrow> bool"
  and tidy_list :: "pyval list \<Rightarrow> bool"
  and tidy_items :: "pydict \<Rightarrow> bool" where
  "tidy (VStr s) \<longleftrightarrow> tidy_str s"
| "tidy (VList xs) \<longleftrightarrow> tidy_list xs"
| "tidy (VDict d) \<longleftrightarrow> tidy_items d"
| "tidy _ \<longleftrightarrow> True"
| "tidy_list [] \<longleftrightarrow> True"
| "tidy_list (x # xs) \<longleftrightarrow> tidy x \<and> tidy_list xs"
| "tidy_items [] \<longleftrightarrow> True"
| "tidy_items (kv # d) \<longleftrightarrow> tidy_str (fst kv) \<and> tidy (snd kv) \<and> tidy_items d"

lemma tidy_list_iff: "tidy_list xs \<longleftrightarrow> (\<forall>x \<in> set xs. tidy x)"
  by (induction xs) simp_all

lemma tidy_items_iff: "tidy_items d \<longleftrightarrow> (\<forall>kv \<in> set d. tidy_str (fst kv) \<and> tidy (snd kv))"
  by (induction d) simp_all

definition one_line :: "pystr \<Rightarrow> bool" where
  "one_line s \<longleftrightarrow> list_all (\<lambda>c. \<not> is_break c) s"

lemma one_line_append [simp]: "one_line (s @ t) \<longleftrightarrow> one_line s \<and> one_line t"
  by (simp add: one_line_def)

lemma one_line_Nil [simp]: "one_line []"
  by (simp add: one_line_def)

lemma one_line_Cons [simp]: "one_line (c # s) \<longleftrightarrow> \<not> is_break c \<and> one_line s"
  by (simp add: one_line_def)

lemma one_line_join: "one_line sep \<Longrightarrow> (\<And>p. p \<in> set ps \<Longrightarrow> one_line p) \<Longrightarrow> one_line (join sep ps)"
  by (induction sep ps rule: join.induct) simp_all

lemma hex_digit_break: "0 \<le> n \<Longrightarrow> n < 16 \<Longrightarrow> \<not> is_break (hex_digit n)"
  by (simp add: hex_digit_def is_break_def)

lemma json_escape_one_line:
  assumes "0 \<le> c" "c \<noteq> 133" "c \<noteq> 8232" "c \<noteq> 8233"
  shows "one_line (json_escape c)"
proof (cases "c < 32")
  case True
  then have "\<not> is_break (hex_digit (c div 16))" "\<not> is_break (hex_digit (c mod 16))"
    using assms(1) by (simp_all add: hex_digit_break)
  with True show ?thesis by (simp add: json_escape_def) (simp add: is_break_def)
next
  case False
  with assms have "\<not> is_break c" by (simp add: is_break_def)
  with False show ?thesis by (simp add: json_escape_def) (simp add: is_break_def)
qed

lemma json_string_one_line: "wf_str s \<Longrightarrow> tidy_str s \<Longrightarrow> one_line (json_string s)"
proof -
  have "\<not> is_break 34" by (simp add: is_break_def)
  then show "wf_str s \<Longrightarrow> tidy_str s \<Longrightarrow> one_line (json_string s)"
    by (induction s) (simp_all add: json_string_def wf_str_def tidy_str_def json_escape_one_line)
qed

lemma number_chars_one_line: "list_all number_char s \<Longrightarrow> one_line s"
  by (induction s) (auto simp: number_char_def is_digit_def is_break_def)

lemma decimal_text_chars:
  assumes "decimal_text t d"
  shows "list_all number_char t"
proof -
  from assms obtain ip fp ep where t: "t = ip @ (if fp = [] then [] else 46 # fp) @ ep"
    "int_part ip" "list_all is_digit fp" "exp_part ep" unfolding decimal_text_def by blast
  have "list_all number_char ip" "list_all number_char fp"
    using int_part_digits [OF t(2)] t(3) is_digit_number_char by blast+
  moreover have "list_all number_char ep"
    using t(4) is_digit_number_char by (auto simp: exp_part_def) (simp_all add: number_char_def)
  ultimately show ?thesis by (simp add: t(1) number_char_def)
qed

lemma float_repr_one_line: "is_double q \<Longrightarrow> one_line (float_repr (Fin q))"
proof (cases "q = 0")
  case True
  then show ?thesis by (simp add: str_def is_break_def)
next
  case False
  assume "is_double q"
  then have "is_double \<bar>q\<bar>" by (cases "0 \<le> q") simp_all
  with False obtain d where d: "shortest_decimal \<bar>q\<bar> = Some d" using shortest_decimal_exists [of "\<bar>q\<bar>"] by auto
  have "0 < fst d" using d False by (intro shortest_decimal_pos) auto
  from decimal_text_chars [OF decimal_repr_text [OF this]] d False show ?thesis
    by (simp add: number_chars_one_line is_break_def)
qed

lemma dumps_one_line: "readable v \<Longrightarrow> tidy v \<Longrightarrow> one_line (dumps v)"
proof (induction v)
  case (VInt n)
  have "list_all number_char (int_str n)" using int_str_chars by blast
  then show ?case by (simp add: number_chars_one_line)
next
  case (VFloat f)
  then show ?case using float_repr_one_line by auto
next
  case (VStr s)
  then show ?case by (simp add: dumps_string_def json_string_one_line)
next
  case (VList xs)
  then have "one_line (join [44, 32] (map dumps xs))"
    by (intro one_line_join) (auto simp: is_break_def readable_list_iff tidy_list_iff)
  then show ?case by (simp only: dumps_list_text) (simp add: is_break_def)
next
  case (VDict d)
  have "one_line (pair_text audit_style kv)" if "kv \<in> set d" for kv
    using VDict.IH [OF that, of "snd kv"] VDict.prems that
    by (auto simp: pair_text_def dumps_string_def readable_items_iff tidy_items_iff snds_snd json_string_one_line is_break_def)
  then have "one_line (join [44, 32] (map (pair_text audit_style) (sort_items d)))"
    by (intro one_line_join) (auto simp: is_break_def sort_items_def)
  then show ?case by (simp only: dumps_dict_text) (simp add: is_break_def)
qed (simp_all add: str_def is_break_def)

section \<open>Entries\<close>

lemma py_strip_start: "\<not> is_space c \<Longrightarrow> py_strip (c # s) \<noteq> []"
proof -
  assume c: "\<not> is_space c"
  then have "\<exists>x \<in> set (rev (c # s)). \<not> is_space x" by auto
  then have "dropWhile is_space (rev (c # s)) \<noteq> []" unfolding dropWhile_eq_Nil_conv by blast
  with c show ?thesis by (simp add: py_strip_def)
qed

definition str_val :: "pyval \<Rightarrow> pystr" where
  "str_val v = (case v of VStr s \<Rightarrow> s | _ \<Rightarrow> [])"

definition entry_prev :: "pydict \<Rightarrow> pystr" where
  "entry_prev e = str_val (dget e ''prev_hash'')"

definition entry_link :: "pydict \<Rightarrow> pystr" where
  "entry_link e = str_val (dget e ''record_hash'')"

definition good_entry :: "(int list \<Rightarrow> pystr) \<Rightarrow> pydict \<Rightarrow> bool" where
  "good_entry sha e \<longleftrightarrow> wf_dict e \<and> dget e ''prev_hash'' = VStr (entry_prev e)
     \<and> dget e ''record_hash'' = VStr (entry_link e) \<and> chain_hash sha e = Inr (entry_link e)"

definition writable :: "(int list \<Rightarrow> pystr) \<Rightarrow> pydict \<Rightarrow> bool" where
  "writable sha e \<longleftrightarrow> good_entry sha e \<and> renderable (VDict e) \<and> tidy (VDict e)"

abbreviation entry_chain :: "pystr \<Rightarrow> pydict list \<Rightarrow> bool" where
  "entry_chain \<equiv> chained entry_link entry_prev"

definition read_back :: "pydict \<Rightarrow> pydict" where
  "read_back e = sort_items (sorted_dict e)"

lemma read_back_val: "sorted_val (VDict e) = VDict (read_back e)"
  by (simp add: read_back_def)

lemma map_of_sort_items: "dict_ok d \<Longrightarrow> map_of (sort_items d) = map_of d"
proof -
  assume "dict_ok d"
  then have "distinct (map fst d)" "distinct (map fst (sort_items d))" using dict_ok_sort_items [of d] by (simp_all add: dict_ok_def)
  moreover have "set (sort_items d) = set d" by (simp add: sort_items_def)
  ultimately show ?thesis using map_of_inject_set by metis
qed

lemma map_of_sorted_dict: "map_of (sorted_dict d) k = map_option sorted_val (map_of d k)"
  by (induction d) auto

lemma dict_ok_sorted_dict [simp]: "dict_ok (sorted_dict d) \<longleftrightarrow> dict_ok d"
  by (simp add: dict_ok_def sorted_dict_map comp_def)

lemma dget_read_back: "dict_ok e \<Longrightarrow> dget e k = VStr s \<Longrightarrow> dget (read_back e) k = VStr s"
  by (auto simp: dget_def read_back_def map_of_sort_items map_of_sorted_dict split: option.splits)

lemma chain_hash_read_back:
  assumes "wf_dict e" "chain_hash sha e = Inr h"
  shows "chain_hash sha (read_back e) = Inr h"
proof -
  let ?P = "\<lambda>kv. fst kv \<noteq> str ''record_hash''"
  let ?f = "filter ?P e"
  have "wf_val (VDict ?f)"
    using assms(1) by (simp add: wf_dict_def dict_ok_def distinct_map_filter wf_items_iff)
  with assms(2) have h: "canonical_hash sha (sorted_val (VDict ?f)) = Inr h"
    by (intro canonical_hash_sorted) (simp_all add: chain_hash_def)
  have "filter ?P (read_back e) = read_back ?f"
    by (simp add: read_back_def sort_items_def filter_sort sorted_dict_map filter_map comp_def)
  with h show ?thesis unfolding chain_hash_def by (simp only: read_back_val)
qed

lemma good_entry_dict: "good_entry sha e \<Longrightarrow> dict_ok e"
  by (simp add: good_entry_def wf_dict_def)

lemma read_back_links:
  assumes "good_entry sha e"
  shows "dget (read_back e) ''prev_hash'' = VStr (entry_prev e)" "dget (read_back e) ''record_hash'' = VStr (entry_link e)"
    "chain_hash sha (read_back e) = Inr (entry_link e)"
  using assms good_entry_dict [OF assms] chain_hash_read_back dget_read_back by (simp_all add: good_entry_def)

definition entry_text :: "pydict \<Rightarrow> pystr" where
  "entry_text e = dumps (VDict e)"

lemma entry_line_text: "entry_line e = entry_text e @ [10]"
  unfolding entry_line_def entry_text_def ..

lemma writable_loads:
  assumes "writable sha e"
  shows "json_loads (entry_text e) = Inr (VDict (read_back e))" "one_line (entry_text e)" "\<not> blank (entry_text e)"
proof -
  have r: "readable (VDict e)"
    by (rule renderable_readable) (use assms in \<open>auto simp: writable_def good_entry_def wf_dict_def\<close>)
  show "json_loads (entry_text e) = Inr (VDict (read_back e))"
    using json_loads_dumps [OF r] unfolding entry_text_def read_back_val .
  show "one_line (entry_text e)"
    unfolding entry_text_def by (rule dumps_one_line [OF r]) (use assms in \<open>simp add: writable_def\<close>)
  show "\<not> blank (entry_text e)"
    unfolding entry_text_def dumps_dict_text blank_def append.simps using py_strip_start [of 123]
    by (simp add: is_space_def)
qed

lemma split_lines_entry: "one_line l \<Longrightarrow> split_lines (l @ 10 # s) = l # split_lines s"
  using split_lines_line by (simp add: one_line_def)

lemma split_lines_Nil [simp]: "split_lines [] = []"
  by (simp add: split_lines_def)

lemma split_entries: "list_all (writable sha) es \<Longrightarrow> split_lines (concat (map entry_line es)) = map entry_text es"
proof (induction es)
  case (Cons e es)
  then have "one_line (entry_text e)" by (intro writable_loads(2) [of sha]) simp
  with Cons show ?case by (simp add: entry_line_text split_lines_entry)
qed simp

lemma verify_entries:
  assumes "list_all (writable sha) es" "entry_chain p es"
  shows "verify_lines sha p n (map entry_text es) = Inr (True, None)"
  using assms
proof (induction es arbitrary: p n)
  case (Cons e es)
  then have w: "writable sha e" and g: "good_entry sha e" by (simp_all add: writable_def)
  from Cons show ?case by (simp add: writable_loads [OF w] read_back_links [OF g])
qed simp

section \<open>The sink\<close>

text \<open>The sink's invariant: the file is a chain of entries and the remembered hash is its last.\<close>

definition sink_inv :: "(int list \<Rightarrow> pystr) \<Rightarrow> file_sink \<Rightarrow> bool" where
  "sink_inv sha sk \<longleftrightarrow> (\<exists>es. list_all (writable sha) es \<and> entry_chain GENESIS_HASH es
     \<and> file_text (sk_file sk) = concat (map entry_line es)
     \<and> (sk_last sk = VNone \<or> sk_last sk = VStr (last_link entry_link GENESIS_HASH es)))"

lemma last_link_last: "es \<noteq> [] \<Longrightarrow> last_link link h es = link (last es)"
  by (induction es arbitrary: h) auto

lemma read_last_hash_entries:
  assumes "list_all (writable sha) es" "file_text disk = concat (map entry_line es)"
  shows "read_last_hash disk = Inr (VStr (last_link entry_link GENESIS_HASH es))"
proof (cases "es = []")
  case True
  with assms(2) show ?thesis
    by (cases disk) (simp_all add: read_last_hash_def file_text_def split_lines_def)
next
  case False
  then have "disk \<noteq> None" using assms(2) by (cases es; cases disk) (simp_all add: file_text_def entry_line_text)
  then obtain content where f: "disk = Some content" by blast
  have lines: "filter (\<lambda>l. \<not> blank l) (split_lines content) = map entry_text es"
    using assms split_entries [OF assms(1)] writable_loads(3) [of sha]
    by (simp add: f file_text_def list_all_iff filter_map comp_def filter_True)
  have w: "writable sha (last es)" using assms(1) False by (simp add: list_all_iff)
  then have "dget (read_back (last es)) ''record_hash'' = VStr (entry_link (last es))"
    by (intro read_back_links [of sha]) (simp add: writable_def)
  then have "map_of (read_back (last es)) (str ''record_hash'') = Some (VStr (entry_link (last es)))"
    by (simp add: dget_def split: option.splits)
  with False lines show ?thesis
    by (simp add: read_last_hash_def f last_map writable_loads [OF w] last_link_last)
qed

lemma audit_entry_dget:
  "dget (AList.update (str ''record_hash'') (VStr h) (audit_entry stamp (VStr p) event)) ''prev_hash'' = VStr p"
  "dget (AList.update (str ''record_hash'') (VStr h) (audit_entry stamp (VStr p) event)) ''record_hash'' = VStr h"
  by (simp_all add: dget_def audit_entry_def map_of_update)

lemma filter_update: "\<not> P (k, v) \<Longrightarrow> (\<And>w. \<not> P (k, w)) \<Longrightarrow> filter P (AList.update k v d) = filter P d"
  by (induction d) auto

lemma chain_hash_update: "chain_hash sha (AList.update (str ''record_hash'') v d) = chain_hash sha d"
  by (simp add: chain_hash_def filter_update)

lemma set_update_subset: "set (AList.update k v d) \<subseteq> insert (k, v) (set d)"
  by (induction d) auto

lemma wf_dict_update: "wf_dict d \<Longrightarrow> wf_str k \<Longrightarrow> wf_val v \<Longrightarrow> wf_dict (AList.update k v d)"
  using set_update_subset [of k v d] by (auto simp: wf_dict_def dict_ok_update wf_items_iff)

lemma tidy_update: "tidy (VDict d) \<Longrightarrow> tidy_str k \<Longrightarrow> tidy v \<Longrightarrow> tidy (VDict (AList.update k v d))"
  using set_update_subset [of k v d] by (auto simp: tidy_items_iff)

text \<open>The hashes are hexadecimal; a time stamp and a log fit on one line.\<close>

definition hex_sha :: "(int list \<Rightarrow> pystr) \<Rightarrow> bool" where
  "hex_sha sha \<longleftrightarrow> (\<forall>bs. is_sha256_hex (sha bs))"

lemma hex_str: "is_sha256_hex h \<Longrightarrow> wf_str h \<and> tidy_str h \<and> \<not> list_ex is_surrogate h"
  by (auto simp: is_sha256_hex_def is_hex_char_def wf_str_def tidy_str_def list_all_iff list_ex_iff is_surrogate_def)

lemma key_strs: "wf_str (str ''timestamp'')" "wf_str (str ''prev_hash'')" "wf_str (str ''record_hash'')"
  "tidy_str (str ''timestamp'')" "tidy_str (str ''prev_hash'')" "tidy_str (str ''record_hash'')"
  "\<not> list_ex is_surrogate (str ''record_hash'')"
  by (simp_all add: str_def wf_str_def tidy_str_def is_surrogate_def)

definition event_ok :: "pystr \<Rightarrow> pydict \<Rightarrow> bool" where
  "event_ok stamp event \<longleftrightarrow> wf_str stamp \<and> tidy_str stamp \<and> wf_dict event \<and> tidy (VDict event)"

lemma renderable_update:
  assumes "renderable (VDict (filter (\<lambda>kv. fst kv \<noteq> k) d))" "renderable v" "\<not> list_ex is_surrogate k"
    and "distinct (map fst d)"
  shows "renderable (VDict (AList.update k v d))"
proof -
  have "kv = (k, v) \<or> kv \<in> set d \<and> fst kv \<noteq> k" if kv: "kv \<in> set (AList.update k v d)" for kv
  proof (cases "fst kv = k")
    case True
    have "map_of (AList.update k v d) (fst kv) = Some (snd kv)"
      using kv distinct_update [OF assms(4), of k v] by (intro map_of_is_SomeI) simp_all
    with True show ?thesis by (cases kv) (simp add: map_of_update)
  next
    case False
    with kv set_update_subset [of k v d] show ?thesis by auto
  qed
  with assms(1-3) show ?thesis by (fastforce simp: renderable_items_iff)
qed

text \<open>The entry a call writes is a good one.\<close>

lemma written_entry:
  assumes "hex_sha sha" "event_ok stamp event" "is_sha256_hex p" "chain_hash sha (audit_entry stamp (VStr p) event) = Inr h"
  defines "e \<equiv> AList.update (str ''record_hash'') (VStr h) (audit_entry stamp (VStr p) event)"
  shows "writable sha e" "entry_prev e = p" "entry_link e = h"
proof -
  let ?a = "audit_entry stamp (VStr p) event" and ?P = "\<lambda>kv. fst kv \<noteq> str ''record_hash''"
  from assms(2) have ev: "wf_str stamp" "tidy_str stamp" "wf_dict event" "tidy (VDict event)"
    by (simp_all only: event_ok_def)
  have p: "wf_val (VStr p)" "wf_val (VStr stamp)" "tidy (VStr p)" "tidy (VStr stamp)"
    using hex_str [OF assms(3)] ev(1,2) by simp_all
  have a: "wf_dict ?a" "tidy (VDict ?a)"
    unfolding audit_entry_def by (intro wf_dict_update tidy_update ev p key_strs)+
  have f: "wf_val (VDict (filter ?P ?a))"
    using a(1) by (simp add: wf_dict_def dict_ok_def distinct_map_filter wf_items_iff)
  have "renderable (VDict (filter ?P ?a))"
    using canonical_hash_renderable [OF f] assms(4) unfolding chain_hash_def .
  moreover have h: "is_sha256_hex h"
    using assms(1,4) by (auto simp: hex_sha_def chain_hash_def canonical_hash_def rbind_eq_Inr rmap_eq_Inr)
  ultimately have r: "renderable (VDict e)"
    unfolding e_def using a(1) key_strs by (intro renderable_update) (simp_all add: wf_dict_def dict_ok_def)
  have e: "wf_dict e" "tidy (VDict e)" "chain_hash sha e = Inr h"
    unfolding e_def chain_hash_update using hex_str [OF h] assms(4)
    by (auto simp del: tidy.simps(3) intro!: wf_dict_update tidy_update a key_strs)
  have d: "dget e ''prev_hash'' = VStr p" "dget e ''record_hash'' = VStr h"
    unfolding e_def by (rule audit_entry_dget)+
  then show links: "entry_prev e = p" "entry_link e = h" by (simp_all add: entry_prev_def entry_link_def str_val_def)
  show "writable sha e" unfolding writable_def good_entry_def links using e d r by simp
qed

lemma genesis_hex: "is_sha256_hex GENESIS_HASH"
  by (simp add: is_sha256_hex_def GENESIS_HASH_def is_hex_char_def list_all_iff)

lemma last_link_hex:
  assumes "list_all (writable sha) es" "hex_sha sha"
  shows "is_sha256_hex (last_link entry_link GENESIS_HASH es)"
proof (cases "es = []")
  case False
  then have "writable sha (last es)" using assms(1) by (simp add: list_all_iff)
  then have "chain_hash sha (last es) = Inr (entry_link (last es))" by (simp add: writable_def good_entry_def)
  then show ?thesis using assms(2) False
    by (auto simp: last_link_last hex_sha_def chain_hash_def canonical_hash_def rbind_eq_Inr rmap_eq_Inr)
qed (simp add: genesis_hex)

text \<open>A call whose append, if it fails, leaves no part of its line.\<close>

definition clean_io :: "sink_io \<Rightarrow> bool" where
  "clean_io io \<longleftrightarrow> io_append io \<in> {Appended, Not_opened, Cut_off 0}"

definition all_well :: "sink_io \<Rightarrow> bool" where
  "all_well io \<longleftrightarrow> io_readable io \<and> io_append io = Appended"

text \<open>Such a call either leaves the text alone or appends one good entry; it keeps the invariant.\<close>

lemma file_record_step:
  assumes inv: "sink_inv sha sk" and sha: "hex_sha sha" and ev: "event_ok stamp event" and io: "clean_io io"
  obtains (unchanged) "sink_inv sha (file_record sha io stamp sk event)"
    "file_text (sk_file (file_record sha io stamp sk event)) = file_text (sk_file sk)"
    "all_well io \<longrightarrow> (\<exists>p. is_sha256_hex p \<and> (\<forall>h. chain_hash sha (audit_entry stamp (VStr p) event) \<noteq> Inr h))"
  | (appended) p h e where "e = AList.update (str ''record_hash'') (VStr h) (audit_entry stamp (VStr p) event)"
    "writable sha e" "sink_inv sha (file_record sha io stamp sk event)"
    "sk_file (file_record sha io stamp sk event) = Some (file_text (sk_file sk) @ entry_line e)"
proof -
  from inv obtain es where es: "list_all (writable sha) es" "entry_chain GENESIS_HASH es"
    "file_text (sk_file sk) = concat (map entry_line es)"
    "sk_last sk = VNone \<or> sk_last sk = VStr (last_link entry_link GENESIS_HASH es)" unfolding sink_inv_def by blast
  define p where "p = last_link entry_link GENESIS_HASH es"
  have read: "read_last_hash (sk_file sk) = Inr (VStr p)"
    using read_last_hash_entries [OF es(1,3)] by (simp add: p_def)
  have hex: "is_sha256_hex p" using last_link_hex [OF es(1) sha] by (simp add: p_def)
  let ?r = "file_record sha io stamp sk event" and ?a = "audit_entry stamp (VStr p) event"
  have keep: "sink_inv sha sk'" if "file_text (sk_file sk') = file_text (sk_file sk)" "sk_last sk' \<in> {VNone, VStr p}" for sk'
    using es(1-3) that unfolding sink_inv_def p_def by (intro exI [of _ es]) auto
  show ?thesis
  proof (cases "sk_last sk = VNone \<and> \<not> io_readable io")
    case True
    then have "?r = sk" by (simp add: file_record_def)
    with inv True show ?thesis by (intro unchanged) (simp_all add: all_well_def)
  next
    case False
    then have latest: "(if sk_last sk = VNone
        then (if io_readable io then read_last_hash (sk_file sk) else Inl (OtherError (str ''OSError'')))
        else Inr (sk_last sk)) = Inr (VStr p)" using es(4) read by (auto simp: p_def)
    have run: "?r = (case chain_hash sha ?a of Inl _ \<Rightarrow> sk\<lparr>sk_last := VStr p\<rparr>
      | Inr h \<Rightarrow> (let line = entry_line (AList.update (str ''record_hash'') (VStr h) ?a)
         in case io_append io of Appended \<Rightarrow> sk\<lparr>sk_last := VStr h, sk_file := Some (file_text (sk_file sk) @ line)\<rparr>
           | Not_opened \<Rightarrow> sk\<lparr>sk_last := VStr p\<rparr>
           | Cut_off n \<Rightarrow> sk\<lparr>sk_last := VStr p, sk_file := Some (file_text (sk_file sk) @ take n line)\<rparr>))"
      by (simp only: file_record_def latest sum.case Let_def)
    show ?thesis
    proof (cases "\<exists>h. chain_hash sha ?a = Inr h \<and> io_append io = Appended")
      case True
      then obtain h where h: "chain_hash sha ?a = Inr h" "io_append io = Appended" by blast
      define e where "e = AList.update (str ''record_hash'') (VStr h) ?a"
      note w = written_entry [OF sha ev hex h(1), folded e_def]
      have r: "?r = sk\<lparr>sk_last := VStr h, sk_file := Some (file_text (sk_file sk) @ entry_line e)\<rparr>"
        by (simp add: run h e_def)
      have "sink_inv sha ?r"
        using es(1-3) w unfolding sink_inv_def r
        by (intro exI [of _ "es @ [e]"]) (simp add: chained_append file_text_def p_def)
      with w(1) r e_def show ?thesis by (intro appended) simp_all
    next
      case False
      then have "file_text (sk_file ?r) = file_text (sk_file sk)" "sk_last ?r = VStr p"
        using io by (auto simp: run clean_io_def file_text_def Let_def split: sum.splits)
      moreover from this have "sink_inv sha ?r" by (intro keep) simp_all
      moreover have "all_well io \<longrightarrow> (\<exists>p. is_sha256_hex p \<and> (\<forall>h. chain_hash sha (audit_entry stamp (VStr p) event) \<noteq> Inr h))"
        using False hex by (auto simp: all_well_def)
      ultimately show ?thesis by (intro unchanged)
    qed
  qed
qed

end
