(* ===== verification/JsonValues.thy ===== *)
theory JsonValues
  imports Json
begin

text \<open>What \<open>json.loads\<close> returns for a text of code points is a well-formed value: keys are distinct and floats are doubles.\<close>

lemma wf_str_simps [simp]: "wf_str []" "wf_str (c # s) \<longleftrightarrow> 0 \<le> c \<and> c < 1114112 \<and> wf_str s"
  by (simp_all add: wf_str_def)

lemma wf_str_drop: "wf_str s \<Longrightarrow> wf_str (drop n s)"
  by (auto simp: wf_str_def list_all_iff dest: in_set_dropD)

lemma wf_str_dropWhile: "wf_str s \<Longrightarrow> wf_str (dropWhile P s)"
  by (auto simp: wf_str_def list_all_iff dest: set_dropWhileD)

lemma wf_skip_ws [simp]: "wf_str s \<Longrightarrow> wf_str (skip_ws s)"
  by (simp add: skip_ws_def wf_str_dropWhile)

lemma hex_val_bound: "hex_val c = Some v \<Longrightarrow> 0 \<le> v \<and> v < 16"
  by (auto simp: hex_val_def split: if_splits)

lemma hex4_bound:
  assumes "hex4 s = Some (u, r)" "wf_str s"
  shows "0 \<le> u \<and> u < 65536 \<and> wf_str r"
proof -
  obtain a b c d where s: "s = a # b # c # d # r" using assms(1) by (induction s rule: hex4.induct) (auto split: option.splits)
  with assms(1) obtain w x y z where "hex_val a = Some w" "hex_val b = Some x" "hex_val c = Some y" "hex_val d = Some z"
    "u = 4096 * w + 256 * x + 16 * y + z" by (auto split: option.splits)
  with assms(2) s show ?thesis using hex_val_bound [of a w] hex_val_bound [of b x] hex_val_bound [of c y] hex_val_bound [of d z] by simp
qed

lemma low_surrogate_bound: "low_surrogate s = Some (u, r) \<Longrightarrow> wf_str s \<Longrightarrow> 56320 \<le> u \<and> u \<le> 57343 \<and> wf_str r"
  by (auto simp: low_surrogate_def dest: hex4_bound split: list.splits if_splits option.splits)

lemma simple_escape_bound: "simple_escape e = Some d \<Longrightarrow> wf_str [e] \<Longrightarrow> wf_str [d]"
  by (auto simp: simple_escape_def split: if_splits)

lemma scan_string_wf: "scan_string n q = Inr (t, r) \<Longrightarrow> wf_str q \<Longrightarrow> wf_str t \<and> wf_str r"
proof (induction n arbitrary: q t r)
  case (Suc n)
  obtain c s where q: "q = c # s" using Suc.prems(1) by (cases q) simp_all
  note wf = Suc.prems(2)[unfolded q]
  from Suc.prems(1) consider
      "c = 34" "t = []" "r = s"
    | t' where "scan_string n s = Inr (t', r)" "t = c # t'" "c \<noteq> 34" "c \<noteq> 92" "\<not> c < 32"
    | e s' d t' where "c = 92" "s = e # s'" "e \<noteq> 117" "simple_escape e = Some d" "scan_string n s' = Inr (t', r)" "t = d # t'"
    | s' u s2 l s3 t' where "c = 92" "s = 117 # s'" "hex4 s' = Some (u, s2)" "55296 \<le> u" "u \<le> 56319"
        "low_surrogate s2 = Some (l, s3)" "scan_string n s3 = Inr (t', r)"
        "t = (65536 + 1024 * (u - 55296) + (l - 56320)) # t'"
    | s' u s2 t' where "c = 92" "s = 117 # s'" "hex4 s' = Some (u, s2)" "55296 \<le> u" "u \<le> 56319"
        "low_surrogate s2 = None" "scan_string n s2 = Inr (t', r)" "t = u # t'"
    | s' u s2 t' where "c = 92" "s = 117 # s'" "hex4 s' = Some (u, s2)" "\<not> (55296 \<le> u \<and> u \<le> 56319)"
        "scan_string n s2 = Inr (t', r)" "t = u # t'"
    by (auto simp: q rmap_eq_Inr split: if_splits list.splits option.splits)
  then show ?case
  proof cases
    case 2
    with Suc.IH [of s t' r] wf q show ?thesis by simp
  next
    case 3
    with Suc.IH [of s' t' r] wf q simple_escape_bound [of e d] show ?thesis by simp
  next
    case 4
    with wf hex4_bound [of s' u s2] low_surrogate_bound [of s2 l s3] have "wf_str s3" "56320 \<le> l" "l \<le> 57343" by simp_all
    with 4 wf q Suc.IH [of s3 t' r] show ?thesis by simp
  next
    case 5
    with wf q hex4_bound [of s' u s2] Suc.IH [of s2 t' r] show ?thesis by simp
  next
    case 6
    with wf q hex4_bound [of s' u s2] Suc.IH [of s2 t' r] show ?thesis by simp
  qed (use wf in simp)
qed simp_all

lemma float_of_str_wf: "float_of_str s = Inr f \<Longrightarrow> wf_val (VFloat f)"
  by (auto simp: float_of_str_def fl_is_double split: prod.splits if_splits option.splits pyfloat.splits)

lemma take_digits_wf: "take_digits s = (ds, r) \<Longrightarrow> wf_str s \<Longrightarrow> wf_str r"
  by (auto simp: take_digits_def wf_str_dropWhile)

lemma scan_number_wf:
  assumes "scan_number s = Inr (v, r)" "wf_str s"
  shows "wf_val v \<and> wf_str r"
proof -
  define sg r0 where "sg = fst (if s \<noteq> [] \<and> hd s = 45 then ([45 :: int], tl s) else ([], s))"
    and "r0 = snd (if s \<noteq> [] \<and> hd s = 45 then ([45 :: int], tl s) else ([], s))"
  then have pair: "(if s \<noteq> [] \<and> hd s = 45 then ([45 :: int], tl s) else ([], s)) = (sg, r0)" by simp
  have r0: "wf_str r0" using assms(2) by (cases s) (simp_all add: r0_def)
  from assms(1) obtain ip r1 where i: "scan_int r0 = Some (ip, r1)"
    unfolding scan_number_def pair by (auto split: option.splits)
  obtain fp r2 where f: "scan_fraction r1 = (fp, r2)" by (cases "scan_fraction r1")
  obtain ep r3 where e: "scan_exponent r2 = (ep, r3)" by (cases "scan_exponent r2")
  have r1: "wf_str r1"
    using i r0 take_digits_wf [of r0] by (auto simp: scan_int_def split: list.splits if_splits)
  then have r2: "wf_str r2"
    using f take_digits_wf by (auto simp: scan_fraction_def split: list.splits if_splits prod.splits)
  then have r3: "wf_str r3"
    using e take_digits_wf by (auto simp: scan_exponent_def split: list.splits if_splits prod.splits)
  from assms(1) have "r = r3" "(\<exists>n. v = VInt n) \<or> (\<exists>x f. float_of_str x = Inr f \<and> v = VFloat f)"
    unfolding scan_number_def pair by (auto simp: i f e rmap_eq_Inr split: if_splits)
  with r3 show ?thesis using float_of_str_wf by auto
qed

lemma scan_constant_wf:
  "scan_constant cs s = Some (v, r) \<Longrightarrow> wf_str s \<Longrightarrow> (\<forall>kv \<in> set cs. wf_val (snd kv)) \<Longrightarrow> wf_val v \<and> wf_str r"
  by (induction cs s rule: scan_constant.induct) (auto simp: wf_str_drop split: if_splits)

lemma json_constants_wf: "\<forall>kv \<in> set json_constants. wf_val (snd kv)"
  by (simp add: json_constants_def)

lemma wf_items_update: "wf_items d \<Longrightarrow> wf_str k \<Longrightarrow> wf_val v \<Longrightarrow> wf_items (AList.update k v d)"
  by (induction d) auto

definition scanned :: "('a \<Rightarrow> bool) \<Rightarrow> ('a \<times> pystr) res \<Rightarrow> bool" where
  "scanned P m \<longleftrightarrow> (\<forall>v r. m = Inr (v, r) \<longrightarrow> P v \<and> wf_str r)"

lemma scannedD: "scanned P m \<Longrightarrow> m = Inr (v, r) \<Longrightarrow> P v \<and> wf_str r"
  by (simp add: scanned_def)

lemma scanned_simps [simp]: "scanned P (Inl e)" "scanned P (Inr (v, r)) \<longleftrightarrow> P v \<and> wf_str r"
  by (auto simp: scanned_def)

lemma scanned_rmap: "scanned Q m \<Longrightarrow> (\<And>v. Q v \<Longrightarrow> P (f v)) \<Longrightarrow> scanned P (rmap (\<lambda>(v, r). (f v, r)) m)"
  by (auto simp: scanned_def rmap_eq_Inr)

lemma scanned_rbind:
  "scanned Q m \<Longrightarrow> (\<And>v r. m = Inr (v, r) \<Longrightarrow> Q v \<Longrightarrow> wf_str r \<Longrightarrow> scanned P (f (v, r))) \<Longrightarrow> scanned P (rbind m f)"
  by (cases m) (auto simp: scanned_def)

lemma scanned_parts: "wf_str s \<Longrightarrow> scanned wf_str (scan_string n s)" "wf_str s \<Longrightarrow> scanned wf_val (scan_number s)"
  using scan_string_wf scan_number_wf unfolding scanned_def by blast+

lemma scan_wf:
  "wf_str s \<Longrightarrow> scanned wf_val (scan_value n s)" "wf_str s \<Longrightarrow> scanned wf_list (scan_array n s)"
  "wf_str s \<Longrightarrow> wf_val (VDict d) \<Longrightarrow> scanned (\<lambda>d. wf_val (VDict d)) (scan_object n d s)"
proof (induction n s and n s and n d s rule: scan_value_scan_array_scan_object.induct)
  case (2 n s)
  show ?case
  proof (cases s)
    case (Cons c r)
    have r: "wf_str r" "wf_str (skip_ws r)" using "2.prems" Cons by simp_all
    consider "c = 34" | "c = 123" | "c = 91" | "c \<noteq> 34 \<and> c \<noteq> 123 \<and> c \<noteq> 91" by blast
    then show ?thesis
    proof cases
      case 1
      then show ?thesis using r scanned_parts(1) by (auto simp: Cons intro!: scanned_rmap)
    next
      case 2
      then show ?thesis using "2.IH"(1) [OF Cons] r by (cases "skip_ws r") (auto simp: Cons dict_ok_def intro!: scanned_rmap)
    next
      case 3
      then show ?thesis using "2.IH"(2) [OF Cons] r by (cases "skip_ws r") (auto simp: Cons intro!: scanned_rmap)
    next
      case 4
      then show ?thesis using scan_constant_wf [OF _ "2.prems" json_constants_wf] scanned_parts(2) [OF "2.prems"]
        by (auto simp: Cons split: option.split)
    qed
  qed simp
next
  case (4 n s)
  show ?case unfolding scan_array.simps
  proof (rule scanned_rbind [OF "4.IH"(1) [OF "4.prems"]])
    fix v r assume v: "scan_value n s = Inr (v, r)" "wf_val v" "wf_str r"
    show "scanned wf_list (case (v, r) of (v, r) \<Rightarrow> (case skip_ws r of [] \<Rightarrow> Inl JSONDecodeError
        | c # r' \<Rightarrow> if c = 93 then Inr ([v], r')
            else if c = 44 then rmap (\<lambda>(vs, r2). (v # vs, r2)) (scan_array n (skip_ws r')) else Inl JSONDecodeError))"
    proof (cases "skip_ws r")
      case (Cons c r')
      then have "wf_str r'" using v(3) wf_skip_ws [of r] by simp
      then show ?thesis using "4.IH"(2) [OF Cons] v(2) by (auto simp: Cons intro!: scanned_rmap)
    qed simp
  qed
next
  case (6 n d s)
  show ?case unfolding scanned_def
  proof (intro allI impI)
    fix d' t assume eq: "scan_object (Suc n) d s = Inr (d', t)"
    obtain s' where s: "s = 34 # s'" using eq by (cases s) (simp_all split: if_splits)
    obtain k r where sc: "scan_string (Suc (length s')) s' = Inr (k, r)"
      using eq s by (cases "scan_string (Suc (length s')) s'") auto
    obtain r' where c: "skip_ws r = 58 # r'" using eq s sc by (cases "skip_ws r") (simp_all split: if_splits)
    obtain v r2 where sv: "scan_value n (skip_ws r') = Inr (v, r2)"
      using eq s sc c by (cases "scan_value n (skip_ws r')") auto
    obtain e r3 where e: "skip_ws r2 = e # r3" using eq s sc c sv by (cases "skip_ws r2") simp_all
    note o = s sc c sv e
    have last_item: "e = 125 \<and> d' = AList.update k v d \<and> t = r3
        \<or> e = 44 \<and> scan_object n (AList.update k v d) (skip_ws r3) = Inr (d', t)"
      using eq by (simp add: o split: if_splits)
    have k: "wf_str k" "wf_str r" using scan_string_wf [OF o(2)] "6.prems"(1) o(1) by simp_all
    then have r': "wf_str (skip_ws r')" using wf_skip_ws [of r] o(3) by simp
    have v: "wf_val v" "wf_str r2" using scannedD [OF "6.IH"(1) [OF o(1) _ o(3) _ r'] o(4)] by simp_all
    have r3: "wf_str r3" using wf_skip_ws [OF v(2)] o(5) by simp
    have d: "wf_val (VDict (AList.update k v d))" using "6.prems"(2) k v by (simp add: dict_ok_update wf_items_update)
    from last_item show "wf_val (VDict d') \<and> wf_str t"
    proof (elim disjE conjE)
      assume "e = 44" "scan_object n (AList.update k v d) (skip_ws r3) = Inr (d', t)"
      with "6.IH"(2) [OF o(1) _ o(3) _ o(5) _ _ wf_skip_ws [OF r3] d] show ?thesis using scannedD by simp
    qed (use d r3 in simp)
  qed
qed simp_all

lemma json_loads_wf:
  assumes "json_loads s = Inr v" "wf_str s"
  shows "wf_val v"
proof -
  define m where "m = scan_value (Suc (2 * length s)) (skip_ws s)"
  have "\<exists>r. m = Inr (v, r)"
    using assms(1) unfolding json_loads_def m_def [symmetric] by (cases m) (auto split: if_splits)
  then obtain r where "m = Inr (v, r)" ..
  from scannedD [OF scan_wf(1) [OF wf_skip_ws [OF assms(2)]] this [unfolded m_def]] show ?thesis ..
qed

section \<open>The values that have a canonical hash\<close>

text \<open>Finite numbers, and no lone surrogate in any string.\<close>

definition plain :: "pystr \<Rightarrow> bool" where
  "plain s \<longleftrightarrow> \<not> list_ex is_surrogate s"

lemma plain_simps [simp]:
  "plain []" "plain (c # s) \<longleftrightarrow> \<not> is_surrogate c \<and> plain s" "plain (s @ t) \<longleftrightarrow> plain s \<and> plain t"
  by (simp_all add: plain_def)

fun canonizable :: "pyval \<Rightarrow> bool"
  and canonizable_list :: "pyval list \<Rightarrow> bool"
  and canonizable_items :: "pydict \<Rightarrow> bool" where
  "canonizable (VInt n) \<longleftrightarrow> (\<exists>q. fl (of_int n) = Fin q)"
| "canonizable (VFloat f) \<longleftrightarrow> (\<exists>q. f = Fin q)"
| "canonizable (VStr s) \<longleftrightarrow> plain s"
| "canonizable (VList xs) \<longleftrightarrow> canonizable_list xs"
| "canonizable (VDict d) \<longleftrightarrow> canonizable_items d"
| "canonizable _ \<longleftrightarrow> True"
| "canonizable_list [] \<longleftrightarrow> True"
| "canonizable_list (x # xs) \<longleftrightarrow> canonizable x \<and> canonizable_list xs"
| "canonizable_items [] \<longleftrightarrow> True"
| "canonizable_items (kv # d) \<longleftrightarrow> plain (fst kv) \<and> canonizable (snd kv) \<and> canonizable_items d"

lemma canonizable_list_iff: "canonizable_list xs \<longleftrightarrow> (\<forall>x \<in> set xs. canonizable x)"
  by (induction xs) simp_all

lemma canonizable_items_iff: "canonizable_items d \<longleftrightarrow> (\<forall>kv \<in> set d. plain (fst kv) \<and> canonizable (snd kv))"
  by (induction d) auto

lemma canonizable_renderable: "canonizable v \<Longrightarrow> renderable v"
proof (induction v)
  case (VDict d)
  then show ?case by (auto simp: canonizable_items_iff renderable_items_iff plain_def snds_snd)
qed (auto simp: canonizable_list_iff renderable_list_iff)

lemma number_chars_plain: "list_all number_char s \<Longrightarrow> plain s"
  by (induction s) (auto simp: number_char_def is_digit_def is_surrogate_def)

lemma json_string_plain: "plain s \<Longrightarrow> plain (json_string s)"
proof -
  have "plain (json_escape c)" if "\<not> is_surrogate c" for c
  proof (cases "c < 32")
    case True
    have "\<not> is_surrogate (hex_digit (c div 16))" "\<not> is_surrogate (hex_digit (c mod 16))"
      using True by (auto simp: hex_digit_def is_surrogate_def)
    with True show ?thesis by (simp add: json_escape_def) (simp add: is_surrogate_def)
  qed (use that in \<open>simp add: json_escape_def, simp add: is_surrogate_def\<close>)
  then show "plain s \<Longrightarrow> plain (json_string s)"
    by (induction s) (simp_all add: json_string_def, simp_all add: is_surrogate_def)
qed

lemma plain_join: "plain sep \<Longrightarrow> (\<And>p. p \<in> set ps \<Longrightarrow> plain p) \<Longrightarrow> plain (join sep ps)"
  by (induction sep ps rule: join.induct) simp_all

lemma mapM_source: "mapM f xs = Inr ts \<Longrightarrow> u \<in> set ts \<Longrightarrow> \<exists>x \<in> set xs. f x = Inr u"
  by (induction xs arbitrary: ts) (auto simp: rbind_eq_Inr rmap_eq_Inr)

lemma canonical_json_plain: "canonizable v \<Longrightarrow> canonical_json v = Inr t \<Longrightarrow> plain t"
proof (induction v arbitrary: t)
  case (VInt n)
  then show ?case using es_number_chars int_str_chars
    by (auto simp: number_chars_plain rbind_eq_Inr split: if_splits)
next
  case (VFloat f)
  then show ?case using es_number_chars by (simp add: number_chars_plain)
next
  case (VList xs)
  then obtain ts where ts: "mapM canonical_json xs = Inr ts" "t = [91] @ join [44] ts @ [93]"
    by (auto simp: canonical_list_map rmap_eq_Inr)
  have "plain u" if "u \<in> set ts" for u
  proof -
    from mapM_source [OF ts(1) that] obtain x where "x \<in> set xs" "canonical_json x = Inr u" by blast
    with VList show ?thesis by (simp add: canonizable_list_iff)
  qed
  then show ?case unfolding ts(2) by (simp add: plain_join is_surrogate_def)
next
  case (VDict d)
  then obtain ts where ts: "mapM item_text (sort_by_key d) = Inr ts" "t = [123] @ join [44] ts @ [125]"
    unfolding canonical_dict by blast
  have "plain u" if "u \<in> set ts" for u
  proof -
    from mapM_source [OF ts(1) that] obtain kv where kv: "kv \<in> set d" "item_text kv = Inr u"
      by (auto simp: sort_by_key_def)
    with VDict.IH [OF kv(1), of "snd kv"] VDict.prems(1) show ?thesis
      by (auto simp: item_text_def rmap_eq_Inr canonizable_items_iff snds_snd json_string_plain is_surrogate_def)
  qed
  then show ?case unfolding ts(2) by (simp add: plain_join is_surrogate_def)
qed (auto simp: json_string_plain str_def is_surrogate_def split: if_splits)

lemma canonizable_hash:
  assumes "wf_val v" "canonizable v"
  obtains h where "canonical_hash sha v = Inr h"
proof -
  from canonical_json_total [OF assms(1)] canonizable_renderable [OF assms(2)] obtain t where t: "canonical_json v = Inr t" by blast
  with canonical_json_plain [OF assms(2)] show ?thesis
    by (intro that) (simp add: canonical_hash_def encode_utf8_def plain_def)
qed

lemma canonizable_update: "canonizable_items d \<Longrightarrow> plain k \<Longrightarrow> canonizable v \<Longrightarrow> canonizable_items (AList.update k v d)"
  by (induction d) auto

end
