(* ===== verification/AuditLog.thy ===== *)
theory AuditLog
  imports AuditChain JsonValues
begin

text \<open>
  The properties of the audit log: what the sink writes verifies and reads back, a changed log shows in
  its last hash, and the webhook gives up after its attempts.
\<close>

section \<open>Runs of the sink\<close>

text \<open>
  A life of the log: calls of \<open>record\<close>, each with its file system and clock, and process restarts. A
  call keeps its line whole when the log has no line separator that JSON leaves unescaped (U+0085, U+2028,
  U+2029) and a failing append leaves no part of the line.
\<close>

datatype sink_event = Written sink_io pystr pydict | Restarted

fun sink_step :: "(int list \<Rightarrow> pystr) \<Rightarrow> sink_event \<Rightarrow> file_sink \<Rightarrow> file_sink" where
  "sink_step sha (Written io stamp event) sk = file_record sha io stamp sk event"
| "sink_step sha Restarted sk = sk\<lparr>sk_last := VNone\<rparr>"

fun step_ok :: "sink_event \<Rightarrow> bool" where
  "step_ok (Written io stamp event) \<longleftrightarrow> event_ok stamp event \<and> clean_io io"
| "step_ok Restarted \<longleftrightarrow> True"

definition new_log :: file_sink where
  "new_log = \<lparr>sk_last = VNone, sk_file = None\<rparr>"

lemma new_log_inv: "sink_inv sha new_log"
  unfolding sink_inv_def new_log_def by (intro exI [of _ "[]"]) (simp add: file_text_def)

lemma sink_step_inv: "sink_inv sha sk \<Longrightarrow> hex_sha sha \<Longrightarrow> step_ok ev \<Longrightarrow> sink_inv sha (sink_step sha ev sk)"
proof (cases ev)
  case (Written io stamp event)
  assume "sink_inv sha sk" "hex_sha sha" "step_ok ev"
  with Written show ?thesis by (auto elim: file_record_step)
qed (auto simp: sink_inv_def)

lemma sink_runs_inv: "sink_inv sha sk \<Longrightarrow> hex_sha sha \<Longrightarrow> list_all step_ok evs \<Longrightarrow> sink_inv sha (fold (sink_step sha) evs sk)"
  by (induction evs arbitrary: sk) (simp_all add: sink_step_inv)

lemma sink_inv_verifies: "sink_inv sha sk \<Longrightarrow> verify_audit_chain sha (file_text (sk_file sk)) = Inr (True, None)"
  by (auto simp: sink_inv_def verify_audit_chain_def split_entries verify_entries)

lemma file_record_appends:
  "\<exists>more. file_text (sk_file (file_record sha io stamp sk d)) = file_text (sk_file sk) @ more"
  by (auto simp: file_record_def Let_def file_text_def split: sum.splits append_outcome.splits)

lemma sink_runs_append: "\<exists>more. file_text (sk_file (fold (sink_step sha) evs sk)) = file_text (sk_file sk) @ more"
proof (induction evs arbitrary: sk)
  case (Cons ev evs)
  have "\<exists>more. file_text (sk_file (sink_step sha ev sk)) = file_text (sk_file sk) @ more"
    by (cases ev) (simp_all add: file_record_appends)
  with Cons.IH [of "sink_step sha ev sk"] show ?case by auto
qed simp

text \<open>
  C14. The file the sink leaves, in one process or over restarts, passes the chain verification, whichever
  reads and appends failed, as long as every call kept its line whole: no log with U+0085, U+2028 or U+2029 and
  no append that failed in the middle of a line. Whatever is recorded afterwards, whole or not, only ever
  extends the file.
\<close>

theorem audit_log_verifies:
  assumes "hex_sha sha" "list_all step_ok evs" "sk = fold (sink_step sha) evs new_log"
  shows "verify_audit_chain sha (file_text (sk_file sk)) = Inr (True, None)
    \<and> (\<forall>later. \<exists>more. file_text (sk_file (fold (sink_step sha) later sk)) = file_text (sk_file sk) @ more)"
  using assms sink_runs_inv [OF new_log_inv] sink_inv_verifies sink_runs_append by blast

definition example_sha :: "int list \<Rightarrow> pystr" where
  "example_sha bs = replicate 64 (97 + int (length bs) mod 6)"

lemma example_sha_hex: "hex_sha example_sha"
proof -
  have "97 \<le> 97 + x mod 6 \<and> 97 + x mod 6 \<le> 102" for x :: int by simp
  then show ?thesis unfolding hex_sha_def example_sha_def is_sha256_hex_def is_hex_char_def
    by (simp add: list_all_iff)
qed

definition example_io :: sink_io where
  "example_io = \<lparr>io_readable = True, io_append = Appended\<rparr>"

definition example_events :: "sink_event list" where
  "example_events = [Written example_io (str ''t1'') [(str ''decision'', VStr (str ''ALLOW''))],
     Written (example_io\<lparr>io_append := Not_opened\<rparr>) (str ''t2'') [], Restarted,
     Written (example_io\<lparr>io_readable := False\<rparr>) (str ''t2'') [],
     Written example_io (str ''t3'') [(str ''decision'', VStr (str ''DENY''))]]"

lemma example_events_ok: "list_all step_ok example_events"
  by (simp add: example_events_def example_io_def clean_io_def event_ok_def wf_dict_def dict_ok_def str_def wf_str_def tidy_str_def)

lemma audit_log_verifies_witness:
  "verify_audit_chain example_sha (file_text (sk_file (fold (sink_step example_sha) example_events new_log))) = Inr (True, None)"
  using audit_log_verifies [OF example_sha_hex example_events_ok refl] by blast

text \<open>
  Neither condition can go: a line cut off by a failing append swallows the next record, and a log with a line
  separator splits its own line. The file is intact in both cases and no longer verifies.
\<close>

lemma cut_off_line_breaks_log:
  "verify_audit_chain example_sha (file_text (sk_file (fold (sink_step example_sha)
     [Written (example_io\<lparr>io_append := Cut_off 5\<rparr>) (str ''t1'') [], Written example_io (str ''t2'') []] new_log)))
   = Inr (False, Some 1)"
  by code_simp

lemma line_separator_breaks_log:
  "verify_audit_chain example_sha (file_text (sk_file (fold (sink_step example_sha)
     [Written example_io (str ''t1'') [(str ''source'', VStr [8232])]] new_log))) = Inr (False, Some 1)"
  by code_simp

lemma canonizable_entry:
  assumes "event_ok stamp event" "canonizable (VDict event)" "plain stamp" "is_sha256_hex p"
  obtains h where "chain_hash sha (audit_entry stamp (VStr p) event) = Inr h"
proof -
  let ?a = "audit_entry stamp (VStr p) event" and ?P = "\<lambda>kv. fst kv \<noteq> str ''record_hash''"
  have p: "wf_str p" "plain p" using hex_str [OF assms(4)] by (simp_all add: plain_def)
  have k: "plain (str ''timestamp'')" "plain (str ''prev_hash'')" by (simp_all add: str_def is_surrogate_def)
  have "wf_dict ?a" "canonizable_items ?a"
    using assms p by (auto simp: audit_entry_def event_ok_def intro!: wf_dict_update canonizable_update key_strs k)
  then have "wf_val (VDict (filter ?P ?a))" "canonizable (VDict (filter ?P ?a))"
    by (simp_all add: wf_dict_def dict_ok_def distinct_map_filter wf_items_iff canonizable_items_iff)
  from canonizable_hash [OF this] show thesis using that unfolding chain_hash_def by blast
qed

text \<open>
  Recording loses nothing: a call whose read and append succeed on a log with a canonical form appends exactly
  one line, and that line reads back as the log with its time stamp, the hash of the line before and its own.
\<close>

theorem audit_entry_roundtrip:
  assumes "sink_inv sha sk" "hex_sha sha" "event_ok stamp event" "canonizable (VDict event)" "plain stamp"
  shows "\<exists>p h line. sk_file (file_record sha \<lparr>io_readable = True, io_append = Appended\<rparr> stamp sk event) = Some (file_text (sk_file sk) @ line @ [10])
    \<and> json_loads line = Inr (sorted_val (VDict (AList.update (str ''record_hash'') (VStr h) (audit_entry stamp (VStr p) event))))
    \<and> 10 \<notin> set line"
proof -
  let ?io = "\<lparr>io_readable = True, io_append = Appended\<rparr>"
  have "clean_io ?io" by (simp add: clean_io_def)
  with assms(1-3) show ?thesis
  proof (cases rule: file_record_step)
    case unchanged
    then obtain p where p: "is_sha256_hex p" "\<forall>h. chain_hash sha (audit_entry stamp (VStr p) event) \<noteq> Inr h" by (auto simp: all_well_def)
    with canonizable_entry [OF assms(3-5) p(1)] show ?thesis by blast
  next
    case (appended p h e)
    have "10 \<notin> set (entry_text e)"
      using writable_loads(2) [OF appended(2)] by (auto simp: one_line_def list_all_iff is_break_def)
    with appended writable_loads(1) [OF appended(2)] show ?thesis
      by (intro exI [of _ p] exI [of _ h] exI [of _ "entry_text e"]) (simp add: entry_line_text read_back_def)
  qed
qed

lemma audit_entry_roundtrip_witness:
  "\<exists>p h line. sk_file (file_record example_sha \<lparr>io_readable = True, io_append = Appended\<rparr> (str ''t1'') new_log [(str ''decision'', VStr (str ''ALLOW''))]) = Some (line @ [10])
    \<and> json_loads line = Inr (sorted_val (VDict (AList.update (str ''record_hash'') (VStr h)
        (audit_entry (str ''t1'') (VStr p) [(str ''decision'', VStr (str ''ALLOW''))]))))
    \<and> 10 \<notin> set line"
proof -
  let ?e = "[(str ''decision'', VStr (str ''ALLOW''))]"
  have "event_ok (str ''t1'') ?e" using example_events_ok by (simp add: example_events_def)
  moreover have "canonizable (VDict ?e)" "plain (str ''t1'')" by (simp_all add: str_def is_surrogate_def)
  ultimately show ?thesis
    using audit_entry_roundtrip [OF new_log_inv example_sha_hex] by (simp only: new_log_def file_text_def append_Nil
        option.case file_sink.simps)
qed

section \<open>Changes to a log\<close>

text \<open>The entries of a file, and the last hash they lead to.\<close>

fun parse_entries :: "pystr list \<Rightarrow> pydict list" where
  "parse_entries [] = []"
| "parse_entries (line # lines) =
     (if blank line then parse_entries lines
      else (case json_loads line of Inr (VDict e) \<Rightarrow> e # parse_entries lines | _ \<Rightarrow> parse_entries lines))"

definition log_entries :: "pystr \<Rightarrow> pydict list" where
  "log_entries content = parse_entries (split_lines content)"

definition log_head :: "pystr \<Rightarrow> pystr" where
  "log_head content = last_link entry_link GENESIS_HASH (log_entries content)"

lemma set_lines_from: "l \<in> set (lines_from cur s) \<Longrightarrow> set l \<subseteq> set cur \<union> set s"
  by (induction cur s rule: lines_from.induct) (fastforce split: if_splits)+

lemma split_lines_wf: "wf_str content \<Longrightarrow> \<forall>l \<in> set (split_lines content). wf_str l"
  using set_lines_from unfolding split_lines_def wf_str_def list_all_iff by fastforce

lemma verified_chain:
  assumes "verify_lines sha p n lines = Inr (True, None)" "\<forall>l \<in> set lines. wf_str l"
  shows "entry_chain p (parse_entries lines) \<and> list_all (good_entry sha) (parse_entries lines)"
  using assms
proof (induction sha p n lines rule: verify_lines.induct)
  case (2 sha previous number line lines)
  show ?case
  proof (cases "blank line")
    case False
    with "2.prems"(1) obtain e where e: "json_loads line = Inr (VDict e)"
      by (simp split: sum.splits pyval.splits if_splits)
    from "2.prems"(1) False e have p: "dget e ''prev_hash'' = VStr previous" by (simp split: if_splits)
    with "2.prems"(1) False e obtain h where h: "chain_hash sha e = Inr h" by (cases "chain_hash sha e") simp_all
    with "2.prems"(1) False e p have r: "dget e ''record_hash'' = VStr h"
      and rest: "verify_lines sha h (number + 1) lines = Inr (True, None)" by (simp_all split: if_splits)
    have "wf_dict e" using json_loads_wf [OF e] "2.prems"(2) by (simp add: wf_dict_def)
    with p h r have "good_entry sha e" "entry_prev e = previous" "entry_link e = h"
      by (simp_all add: good_entry_def entry_prev_def entry_link_def str_val_def)
    moreover have "entry_chain h (parse_entries lines) \<and> list_all (good_entry sha) (parse_entries lines)"
      using "2.IH"(2) [OF False e refl _ _ rest] p r "2.prems"(2) by simp
    ultimately show ?thesis using False e by simp
  qed (use 2 in simp)
qed simp

text \<open>Two entries say the same: same hash, same predecessor, and equal content up to key order and number representation.\<close>

definition hashed_part :: "pydict \<Rightarrow> pyval" where
  "hashed_part e = VDict (filter (\<lambda>kv. fst kv \<noteq> str ''record_hash'') e)"

definition same_entry :: "pydict \<Rightarrow> pydict \<Rightarrow> bool" where
  "same_entry e f \<longleftrightarrow> normal (hashed_part e) = normal (hashed_part f)
     \<and> entry_link e = entry_link f \<and> entry_prev e = entry_prev f"

text \<open>What would break the chain's hash on given entries.\<close>

definition hash_broken :: "(int list \<Rightarrow> pystr) \<Rightarrow> pydict set \<Rightarrow> bool" where
  "hash_broken sha E \<longleftrightarrow> (\<exists>e \<in> E. sha (canonical_bytes (hashed_part e)) = GENESIS_HASH)
     \<or> (\<exists>e \<in> E. \<exists>f \<in> E. collides sha (canonical_bytes (hashed_part e)) (canonical_bytes (hashed_part f)))"

lemma hashed_part_wf: "good_entry sha e \<Longrightarrow> wf_val (hashed_part e)"
  by (simp add: hashed_part_def good_entry_def wf_dict_def dict_ok_def distinct_map_filter wf_items_iff)

lemma good_entry_hash: "good_entry sha e \<Longrightarrow> canonical_hash sha (hashed_part e) = Inr (entry_link e)"
  by (simp add: good_entry_def chain_hash_def hashed_part_def)

lemma good_entry_bytes: "good_entry sha e \<Longrightarrow> sha (canonical_bytes (hashed_part e)) = entry_link e"
  using good_entry_hash [of sha e] by (auto simp: canonical_hash_def canonical_bytes_def rbind_eq_Inr rmap_eq_Inr)

lemma normal_str: "normal w = VStr s \<longleftrightarrow> w = VStr s"
  by (cases w) simp_all

lemma normal_dict_str:
  assumes "dict_ok d'" "normal (VDict d) = normal (VDict d')" "dget d k = VStr s"
  shows "dget d' k = VStr s"
proof -
  have "set (normal_items d) = set (normal_items d')"
    using assms(2) unfolding normal.simps sort_by_key_def by (metis pyval.inject(6) set_sort)
  moreover have "(str k, VStr s) \<in> set d"
    using assms(3) by (auto simp: dget_def split: option.splits dest: map_of_SomeD)
  then have "(str k, VStr s) \<in> set (normal_items d)" by (force simp: normal_items_map)
  ultimately obtain w where "(str k, w) \<in> set d'" "normal w = VStr s" by (auto simp: normal_items_map)
  then show ?thesis using assms(1) by (simp add: normal_str dget_def dict_ok_def)
qed

lemma hashed_part_prev: "dget (filter (\<lambda>kv. fst kv \<noteq> str ''record_hash'') e) ''prev_hash'' = dget e ''prev_hash''"
proof -
  have "map_of (filter (\<lambda>kv. fst kv \<noteq> str ''record_hash'') e) (str ''prev_hash'') = map_of e (str ''prev_hash'')"
    by (induction e) (auto simp: str_def)
  then show ?thesis by (simp add: dget_def)
qed

lemma entry_binding:
  assumes "good_entry sha e" "good_entry sha f" "entry_link e = entry_link f" "\<not> hash_broken sha E" "e \<in> E" "f \<in> E"
  shows "same_entry e f"
proof -
  have "normal (hashed_part e) = normal (hashed_part f)"
    using canonical_hash_binds [OF hashed_part_wf [OF assms(1)] hashed_part_wf [OF assms(2)]
        good_entry_hash [OF assms(1)] good_entry_hash [OF assms(2), folded assms(3)]] assms(4-6)
    unfolding hash_broken_def by blast
  moreover have "dget f ''prev_hash'' = VStr (entry_prev e)"
    using normal_dict_str [OF _ calculation [unfolded hashed_part_def], of "''prev_hash''" "entry_prev e"]
      hashed_part_wf [OF assms(2)] assms(1) by (simp add: hashed_part_def hashed_part_prev good_entry_def)
  ultimately show ?thesis using assms(3) by (simp add: same_entry_def entry_prev_def [of f] str_val_def)
qed

text \<open>The code's entries are a hash chain, on every set of entries that does not break the hash.\<close>

interpretation audit: hash_chain entry_link entry_prev
  "\<lambda>e. good_entry sha e \<and> e \<in> E \<and> \<not> hash_broken sha E" same_entry GENESIS_HASH
  for sha :: "int list \<Rightarrow> pystr" and E :: "pydict set"
proof unfold_locales
  fix e f assume "good_entry sha e \<and> e \<in> E \<and> \<not> hash_broken sha E" "good_entry sha f \<and> f \<in> E \<and> \<not> hash_broken sha E"
    "entry_link e = entry_link f"
  then show "same_entry e f" using entry_binding by blast
next
  fix e assume "good_entry sha e \<and> e \<in> E \<and> \<not> hash_broken sha E"
  then show "entry_link e \<noteq> GENESIS_HASH" using good_entry_bytes unfolding hash_broken_def by metis
qed (simp add: same_entry_def)

text \<open>
  C13. Tampering shows: two logs that both verify and end in the same hash hold the same entries, unless
  two of these very entries collide under SHA-256 or one hashes to the genesis hash. Whoever keeps the
  last hash therefore sees every edit, deletion, insertion and reordering.
\<close>

theorem audit_tampering_shows:
  assumes "verify_audit_chain sha a = Inr (True, None)" "verify_audit_chain sha b = Inr (True, None)"
    and "wf_str a" "wf_str b" "log_head a = log_head b"
  shows "list_all2 same_entry (log_entries a) (log_entries b)
    \<or> hash_broken sha (set (log_entries a) \<union> set (log_entries b))"
proof -
  let ?E = "set (log_entries a) \<union> set (log_entries b)"
  have c: "entry_chain GENESIS_HASH (log_entries t) \<and> list_all (good_entry sha) (log_entries t)"
    if "verify_audit_chain sha t = Inr (True, None)" "wf_str t" for t
    using verified_chain [OF that(1)[unfolded verify_audit_chain_def] split_lines_wf [OF that(2)]] by (simp only: log_entries_def)
  show ?thesis
  proof (cases "hash_broken sha ?E")
    case False
    then have g: "list_all (\<lambda>e. good_entry sha e \<and> e \<in> ?E \<and> \<not> hash_broken sha ?E) (log_entries a)"
      "list_all (\<lambda>e. good_entry sha e \<and> e \<in> ?E \<and> \<not> hash_broken sha ?E) (log_entries b)"
      using c [OF assms(1,3)] c [OF assms(2,4)] by (simp_all add: list_all_iff)
    from c [OF assms(1,3)] c [OF assms(2,4)] show ?thesis
      by (intro disjI1 audit.last_determines [OF _ _ g assms(5)[unfolded log_head_def]]) simp_all
  qed simp
qed

definition example_log :: pystr where
  "example_log = file_text (sk_file (fold (sink_step example_sha) example_events new_log))"

lemma example_log_inv: "sink_inv example_sha (fold (sink_step example_sha) example_events new_log)"
  by (rule sink_runs_inv [OF new_log_inv example_sha_hex example_events_ok])

lemma example_log_text: "wf_str example_log" "length (split_lines example_log) = 2"
  by code_simp+

lemma audit_tampering_shows_witness:
  "list_all2 same_entry (log_entries example_log) (log_entries (10 # example_log))
    \<or> hash_broken example_sha (set (log_entries example_log) \<union> set (log_entries (10 # example_log)))"
proof -
  obtain es where es: "list_all (writable example_sha) es" "entry_chain GENESIS_HASH es" "example_log = concat (map entry_line es)"
    using example_log_inv by (auto simp: sink_inv_def example_log_def)
  have v: "verify_audit_chain example_sha example_log = Inr (True, None)"
    using sink_inv_verifies [OF example_log_inv] by (simp only: example_log_def)
  have lines: "split_lines (10 # example_log) = [] # split_lines example_log"
    using split_lines_entry [of "[]"] by simp
  then have "verify_audit_chain example_sha (10 # example_log) = Inr (True, None)"
    using split_entries [OF es(1)] verify_entries [OF es(1,2)] es(3) by (simp add: verify_audit_chain_def blank_def py_strip_def)
  moreover have "log_head example_log = log_head (10 # example_log)"
    by (simp add: log_head_def log_entries_def lines blank_def py_strip_def)
  ultimately show ?thesis using audit_tampering_shows [OF v] example_log_text(1) by simp
qed

text \<open>Verification is of the lines: a prefix of a verified log verifies.\<close>

lemma verify_prefix:
  "verify_lines sha p n (ls @ ms) = Inr (True, None) \<Longrightarrow> verify_lines sha p n ls = Inr (True, None)"
proof (induction sha p n ls rule: verify_lines.induct)
  case (2 sha previous number line lines)
  show ?case
  proof (cases "blank line")
    case True
    with "2.IH"(1) "2.prems" show ?thesis by simp
  next
    case False
    with "2.prems" obtain e where e: "json_loads line = Inr (VDict e)"
      by (simp split: sum.splits pyval.splits if_splits)
    with "2.prems" False obtain h where "chain_hash sha e = Inr h"
      by (cases "chain_hash sha e") (simp_all split: if_splits)
    with "2.prems" False e "2.IH"(2) [OF False e refl] show ?thesis by (simp split: if_splits)
  qed
qed simp

lemma lines_from_break: "lines_from cur (a @ 10 # b) = lines_from cur (a @ [10]) @ lines_from [] b"
proof (induction a arbitrary: cur rule: length_induct)
  case (1 a)
  show ?case
  proof (cases a)
    case Nil
    then show ?thesis by (cases b) (simp_all add: is_break_def)
  next
    case (Cons c a')
    show ?thesis
    proof (cases a')
      case Nil
      with Cons show ?thesis by (cases b) (simp_all add: is_break_def)
    next
      case (Cons d a'')
      then have "lines_from cur' (d # (a'' @ 10 # b)) = lines_from cur' (d # (a'' @ [10])) @ lines_from [] b"
        "lines_from cur' (a'' @ 10 # b) = lines_from cur' (a'' @ [10]) @ lines_from [] b" for cur'
        using 1 [rule_format, of "d # a''" cur'] 1 [rule_format, of a'' cur'] \<open>a = c # a'\<close> by simp_all
      with Cons \<open>a = c # a'\<close> show ?thesis by simp
    qed
  qed
qed

text \<open>
  What the chain does not show: a verified log cut after any of its lines verifies as well, so the
  deletion of the last records is only visible to who kept the last hash.
\<close>

theorem truncated_log_verifies:
  assumes "verify_audit_chain sha (a @ [10] @ b) = Inr (True, None)"
  shows "verify_audit_chain sha (a @ [10]) = Inr (True, None)"
  using assms verify_prefix by (simp add: verify_audit_chain_def split_lines_def lines_from_break [of "[]" a b])

lemma truncated_log_verifies_witness:
  "\<exists>kept lost. example_log = (kept @ [10]) @ lost \<and> lost \<noteq> []
     \<and> verify_audit_chain example_sha (kept @ [10]) = Inr (True, None)"
proof -
  obtain es where es: "list_all (writable example_sha) es" "example_log = concat (map entry_line es)"
    using example_log_inv by (auto simp: sink_inv_def example_log_def)
  have "length es = 2" using example_log_text(2) split_entries [OF es(1)] es(2) by simp
  then obtain e f where "es = [e, f]" by (auto simp: numeral_2_eq_2 length_Suc_conv)
  then have l: "example_log = entry_text e @ [10] @ entry_line f" by (simp add: es(2) entry_line_text)
  have "verify_audit_chain example_sha example_log = Inr (True, None)"
    using sink_inv_verifies [OF example_log_inv] by (simp only: example_log_def)
  from truncated_log_verifies [OF this [unfolded l]] l show ?thesis
    by (intro exI [of _ "entry_text e"] exI [of _ "entry_line f"]) (simp add: entry_line_text)
qed

section \<open>The webhook\<close>

lemma deliver_steps:
  "deliver post 3 = \<lparr>dv_delivered = post 3, dv_requests = 1, dv_pauses = []\<rparr>"
  "deliver post 2 = (if post 2 then \<lparr>dv_delivered = True, dv_requests = 1, dv_pauses = []\<rparr>
     else \<lparr>dv_delivered = post 3, dv_requests = 2, dv_pauses = [1000]\<rparr>)"
  "deliver post 1 = (if post 1 then \<lparr>dv_delivered = True, dv_requests = 1, dv_pauses = []\<rparr>
     else if post 2 then \<lparr>dv_delivered = True, dv_requests = 2, dv_pauses = [500]\<rparr>
     else \<lparr>dv_delivered = post 3, dv_requests = 3, dv_pauses = [500, 1000]\<rparr>)"
proof -
  have eqs: "deliver post k =
     (if post k then \<lparr>dv_delivered = True, dv_requests = 1, dv_pauses = []\<rparr>
      else if 3 \<le> k then \<lparr>dv_delivered = False, dv_requests = 1, dv_pauses = []\<rparr>
      else (deliver post (k + 1))\<lparr>dv_requests := Suc (dv_requests (deliver post (k + 1))),
         dv_pauses := 500 * k # dv_pauses (deliver post (k + 1))\<rparr>)" for k
    by (subst deliver.simps) (simp add: WEBHOOK_ATTEMPTS_def Let_def)
  show d3: "deliver post 3 = \<lparr>dv_delivered = post 3, dv_requests = 1, dv_pauses = []\<rparr>"
    by (subst eqs) simp
  show d2: "deliver post 2 = (if post 2 then \<lparr>dv_delivered = True, dv_requests = 1, dv_pauses = []\<rparr>
     else \<lparr>dv_delivered = post 3, dv_requests = 2, dv_pauses = [1000]\<rparr>)"
    by (subst eqs) (simp add: d3)
  show "deliver post 1 = (if post 1 then \<lparr>dv_delivered = True, dv_requests = 1, dv_pauses = []\<rparr>
     else if post 2 then \<lparr>dv_delivered = True, dv_requests = 2, dv_pauses = [500]\<rparr>
     else \<lparr>dv_delivered = post 3, dv_requests = 3, dv_pauses = [500, 1000]\<rparr>)"
    by (subst eqs) (simp add: d2 one_add_one del: One_nat_def)
qed

text \<open>
  C25. Delivery ends: a webhook call makes at most three requests with pauses of at most 0.5 and 1 second, stops at the
  first that succeeds, and reports delivery exactly when one of the three succeeds.
\<close>

theorem webhook_attempts:
  "(let d = snd (webhook_record post stamp w event)
    in 1 \<le> dv_requests d \<and> dv_requests d \<le> WEBHOOK_ATTEMPTS
     \<and> (dv_delivered d \<longleftrightarrow> post 1 \<or> post 2 \<or> post 3) \<and> (dv_delivered d \<longrightarrow> post (dv_requests d))
     \<and> (\<forall>k \<in> {1..<dv_requests d}. \<not> post k) \<and> dv_pauses d = take (dv_requests d - 1) [500, 1000])"
proof -
  have "{1..<2} = {1 :: nat}" "{1..<3} = {1, 2 :: nat}" by (auto simp: numeral_eq_Suc)
  then show ?thesis unfolding webhook_record_def snd_conv deliver_steps(3) Let_def
    by (simp add: WEBHOOK_ATTEMPTS_def del: One_nat_def)
qed

lemma webhook_attempts_witness:
  "dv_delivered (snd (webhook_record (\<lambda>k. k = 2) (str ''t'') \<lparr>wh_url = str ''https://siem'', wh_token = None\<rparr> []))"
proof -
  define d where "d = snd (webhook_record (\<lambda>k. k = 2) (str ''t'') \<lparr>wh_url = str ''https://siem'', wh_token = None\<rparr> [])"
  from webhook_attempts [of "\<lambda>k. k = 2" "str ''t''" "\<lparr>wh_url = str ''https://siem'', wh_token = None\<rparr>" "[]"]
  have "dv_delivered d \<longleftrightarrow> (1 = (2 :: nat)) \<or> (2 = (2 :: nat)) \<or> (3 = (2 :: nat))"
    unfolding Let_def d_def [symmetric] by (elim conjE)
  then show ?thesis unfolding d_def by blast
qed

end
