(* ===== verification/Sdk.thy ===== *)
theory Sdk
  imports Crypto PyInt
begin

text \<open>
  \<open>axg_python_sdk/__init__.py\<close>: how a service that executes actions checks Passports, its replay cache,
  the check inside an MCP tool, and the client for approvals. PyJWT is the library of \<open>Crypto\<close>; the JWKS
  client and HTTP are arguments. Messages for people are left out of the verification errors: a code
  stands for the exception. Integers that \<open>json.dumps\<close> prints have at most 4300 digits.
\<close>

section \<open>Verifying a Passport\<close>

definition compact_style :: json_style where
  "compact_style = \<lparr>ensure_ascii = True, sort_keys = True, item_separator = str '','', key_separator = str '':''\<rparr>"

definition legacy_hash_payload :: "crypto_lib \<Rightarrow> pydict \<Rightarrow> pystr res" where
  "legacy_hash_payload lib payload = rmap (sha_hex lib) (encode_utf8 (json_dumps compact_style (VDict payload)))"

text \<open>\<open>AxgVerificationError\<close> with its code, or any other exception.\<close>

datatype verify_exc = VerificationError pystr | Other_exc pyexc

definition check :: "bool \<Rightarrow> string \<Rightarrow> verify_exc + unit" where
  "check ok code = (if ok then Inr () else Inl (VerificationError (str code)))"

fun lift_exc :: "'a res \<Rightarrow> verify_exc + 'a" where
  "lift_exc (Inl e) = Inl (Other_exc e)"
| "lift_exc (Inr x) = Inr x"

text \<open>The final \<open>except\<close> clauses: every exception becomes an \<open>AxgVerificationError\<close>.\<close>

fun error_code :: "verify_exc \<Rightarrow> pystr" where
  "error_code (VerificationError code) = code"
| "error_code (Other_exc e) = (if is_jwt_error e then str ''JWT_ERROR'' else str ''VERIFICATION_FAILED'')"

text \<open>
  Where the key comes from. A JWKS client maps a token to the key its header names; \<open>make_client\<close> is
  \<open>PyJWKClient(url)\<close>.
\<close>

type_synonym jwks_client = "pyval \<Rightarrow> pystr res"

record key_source =
  ks_public_key :: "pystr option"
  ks_jwks_url :: "pystr option"
  ks_signing_key :: "pystr option"
  ks_jwks_client :: "jwks_client option"

definition is_given :: "pystr option \<Rightarrow> bool" where
  "is_given s \<longleftrightarrow> s \<noteq> None \<and> s \<noteq> Some []"

definition passport_key :: "(pystr \<Rightarrow> jwks_client) \<Rightarrow> key_source \<Rightarrow> pyval \<Rightarrow> pystr res" where
  "passport_key make_client ks token =
     (if is_given (ks_public_key ks) then Inr (the (ks_public_key ks))
      else if is_given (ks_signing_key ks) then Inr (the (ks_signing_key ks))
      else (case ks_jwks_client ks of
          Some client \<Rightarrow> client token
        | None \<Rightarrow>
            if \<not> is_given (ks_jwks_url ks) then Inl (ValueError (str ''Either public_key or jwks_url must be provided.''))
            else make_client (the (ks_jwks_url ks)) token))"

definition sdk_options :: "pystr \<Rightarrow> decode_options" where
  "sdk_options app_id = \<lparr>do_algorithms = [str ''RS256''], do_issuer = str ''axg-engine'', do_audience = Some app_id,
     do_leeway = 0, do_require = []\<rparr>"

text \<open>\<open>jwt.decode\<close> of something that is not a string is a \<open>DecodeError\<close>.\<close>

definition decode_token :: "crypto_lib \<Rightarrow> decode_options \<Rightarrow> int \<Rightarrow> pyval \<Rightarrow> pystr \<Rightarrow> pydict res" where
  "decode_token lib opts now token key =
     (case token of VStr t \<Rightarrow> jwt_decode lib opts now t key | _ \<Rightarrow> Inl (JwtError (str ''DecodeError'')))"

record passport_check =
  pk_token :: pyval
  pk_payload :: pydict
  pk_app_id :: pystr
  pk_tenant_id :: "pystr option"
  pk_allowed_action_types :: "pystr list option"
  pk_keys :: key_source

definition expected_hash :: "crypto_lib \<Rightarrow> pydict \<Rightarrow> pydict \<Rightarrow> pystr res" where
  "expected_hash lib claims payload =
     (if py_eq (dget claims ''ver'') (VInt 2) then hash_payload lib payload else legacy_hash_payload lib payload)"

text \<open>Checks 1 to 4, without replay protection.\<close>

definition passport_claims_of ::
    "crypto_lib \<Rightarrow> (pystr \<Rightarrow> jwks_client) \<Rightarrow> int \<Rightarrow> passport_check \<Rightarrow> verify_exc + pydict" where
  "passport_claims_of lib make_client now pk =
     rbind (lift_exc (passport_key make_client (pk_keys pk) (pk_token pk))) (\<lambda>key.
       rbind (lift_exc (decode_token lib (sdk_options (pk_app_id pk)) now (pk_token pk) key)) (\<lambda>claims.
         rbind (check (dget claims ''decision'' = VStr (str ''ALLOW'')) ''DECISION_NOT_ALLOWED'') (\<lambda>_.
           rbind (check (\<not> (is_given (pk_tenant_id pk) \<and> dget claims ''tenant_id'' \<noteq> opt_str (pk_tenant_id pk))) ''TENANT_ID_MISMATCH'') (\<lambda>_.
             rbind (check (or_empty (pk_allowed_action_types pk) = []
                        \<or> py_in (dget claims ''action_type'') (map VStr (or_empty (pk_allowed_action_types pk))))
                      ''ACTION_TYPE_MISMATCH'') (\<lambda>_.
               rbind (check (map_of claims (str ''payload_hash'') \<noteq> None) ''MISSING_PAYLOAD_HASH'') (\<lambda>_.
                 rbind (lift_exc (expected_hash lib claims (pk_payload pk))) (\<lambda>hash.
                   rmap (\<lambda>_. claims) (check (dget claims ''payload_hash'' = VStr hash) ''PAYLOAD_TAMPERED''))))))))"

section \<open>Replay protection\<close>

text \<open>\<open>claims["exp"]\<close>.\<close>

definition item :: "pydict \<Rightarrow> string \<Rightarrow> pyval res" where
  "item d k = (case map_of d (str k) of None \<Rightarrow> Inl (KeyError (str k)) | Some v \<Rightarrow> Inr v)"

text \<open>A cache's \<open>check_and_store(jti, expires_at)\<close> at a time: whether the \<open>jti\<close> is new, and the cache after it.\<close>

type_synonym 'c replay_cache = "int \<Rightarrow> pyval \<Rightarrow> int \<Rightarrow> 'c \<Rightarrow> bool res \<times> 'c"

definition replay_check :: "'c replay_cache \<Rightarrow> int \<Rightarrow> pydict \<Rightarrow> 'c \<Rightarrow> (verify_exc + unit) \<times> 'c" where
  "replay_check check_and_store now claims c =
     (let jti = dget claims ''jti''
      in if \<not> truthy jti then (Inl (VerificationError (str ''MISSING_JTI'')), c)
         else (case rbind (item claims ''exp'') py_int of
             Inl e \<Rightarrow> (Inl (Other_exc e), c)
           | Inr expires_at \<Rightarrow>
               (case check_and_store now jti expires_at c of (fresh, c') \<Rightarrow>
                  (rbind (lift_exc fresh) (\<lambda>new. check new ''PASSPORT_REPLAYED''), c'))))"

text \<open>
  \<open>verify_passport\<close>: PyJWT reads the clock, and later the cache reads it again. The result is the
  claims or the code of the error; the cache is \<open>None\<close> when there is no replay protection.
\<close>

definition verify_passport ::
    "crypto_lib \<Rightarrow> (pystr \<Rightarrow> jwks_client) \<Rightarrow> 'c replay_cache \<Rightarrow> int \<Rightarrow> int \<Rightarrow> passport_check \<Rightarrow> 'c option
       \<Rightarrow> (pystr + pydict) \<times> 'c option" where
  "verify_passport lib make_client check_and_store now cache_now pk cache =
     (case passport_claims_of lib make_client now pk of
        Inl e \<Rightarrow> (Inl (error_code e), cache)
      | Inr claims \<Rightarrow>
          (case cache of
             None \<Rightarrow> (Inr claims, None)
           | Some c \<Rightarrow>
               (case replay_check check_and_store cache_now claims c of
                  (Inl e, c') \<Rightarrow> (Inl (error_code e), Some c')
                | (Inr _, c') \<Rightarrow> (Inr claims, Some c'))))"

section \<open>The cache in memory\<close>

text \<open>The dictionary \<open>_seen\<close>, whose keys are compared with \<open>==\<close>; an unhashable \<open>jti\<close> raises.\<close>

type_synonym memory_cache = "(pyval \<times> int) list"

definition memory_check_and_store :: "memory_cache replay_cache" where
  "memory_check_and_store now jti expires_at seen =
     (let kept = filter (\<lambda>e. now < snd e) seen
      in if \<not> Auth.hashable jti then (Inl TypeError, kept)
         else if list_ex (\<lambda>e. py_eq jti (fst e)) kept then (Inr False, kept)
         else (Inr True, kept @ [(jti, expires_at)]))"

section \<open>Inside an MCP tool\<close>

definition PASSPORT_META_KEY :: string where
  "PASSPORT_META_KEY = ''io.axg/passport''"

definition PAYLOAD_META_KEY :: string where
  "PAYLOAD_META_KEY = ''io.axg/actionable_payload''"

definition APPROVAL_META_KEY :: string where
  "APPROVAL_META_KEY = ''io.axg/approval''"

definition argument_ok :: "pydict \<Rightarrow> pystr list \<Rightarrow> pystr \<times> pyval \<Rightarrow> bool" where
  "argument_ok authorized ignored kv \<longleftrightarrow> fst kv \<in> set ignored
     \<or> (case map_of authorized (fst kv) of None \<Rightarrow> False | Some v \<Rightarrow> py_eq v (snd kv))"

record tool_call =
  tl_meta :: "pydict option"
  tl_tool_name :: pystr
  tl_arguments :: pydict
  tl_app_id :: pystr
  tl_tenant_id :: "pystr option"
  tl_keys :: key_source
  tl_ignored_arguments :: "pystr list"

definition tool_check :: "tool_call \<Rightarrow> pyval \<Rightarrow> pydict \<Rightarrow> passport_check" where
  "tool_check call passport authorized =
     \<lparr>pk_token = passport, pk_payload = authorized, pk_app_id = tl_app_id call, pk_tenant_id = tl_tenant_id call,
      pk_allowed_action_types = Some [tl_tool_name call], pk_keys = tl_keys call\<rparr>"

definition verify_mcp_tool_call ::
    "crypto_lib \<Rightarrow> (pystr \<Rightarrow> jwks_client) \<Rightarrow> 'c replay_cache \<Rightarrow> int \<Rightarrow> int \<Rightarrow> tool_call \<Rightarrow> 'c option
       \<Rightarrow> (pystr + pydict) \<times> 'c option" where
  "verify_mcp_tool_call lib make_client check_and_store now cache_now call cache =
     (let meta = or_empty (tl_meta call); passport = dget meta PASSPORT_META_KEY
      in case dget meta PAYLOAD_META_KEY of
           VDict authorized \<Rightarrow>
             if \<not> truthy passport then (Inl (str ''MISSING_PASSPORT''), cache)
             else (case verify_passport lib make_client check_and_store now cache_now (tool_check call passport authorized) cache of
                 (Inl code, cache') \<Rightarrow> (Inl code, cache')
               | (Inr claims, cache') \<Rightarrow>
                   (if list_all (argument_ok authorized (tl_ignored_arguments call)) (tl_arguments call)
                    then Inr claims else Inl (str ''ARGUMENTS_MISMATCH''), cache'))
         | _ \<Rightarrow> (Inl (str ''MISSING_PASSPORT''), cache))"

section \<open>Submitting approvals\<close>

text \<open>
  An HTTP response as httpx gives it; a request fails with the class name of an \<open>httpx.HTTPError\<close>. The
  exceptions are \<open>AxgApprovalError\<close> with its message and status, or any other.
\<close>

record http_response =
  hr_status :: int
  hr_text :: pystr
  hr_json :: "pyval res"

record http_post =
  po_url :: pystr
  po_json :: pydict
  po_authorization :: pystr

datatype approval_exc = AxgApprovalError pystr int | Api_exc pyexc

definition approval_body :: "pystr \<Rightarrow> pydict \<Rightarrow> pystr \<Rightarrow> pystr \<Rightarrow> pystr \<Rightarrow> approval_exc + pydict" where
  "approval_body ticket payload approver_id approver_role outcome =
     (if outcome \<noteq> str ''approve'' \<and> outcome \<noteq> str ''deny''
      then Inl (Api_exc (ValueError (str ''outcome must be '' @ quoted (str ''approve'') @ str '' or '' @ quoted (str ''deny''))))
      else Inr [(str ''ticket'', VStr ticket), (str ''actionable_payload'', VDict payload),
        (str ''approver'', VDict [(str ''id'', VStr approver_id), (str ''role'', VStr approver_role)]),
        (str ''outcome'', VStr outcome)])"

definition approval_result :: "http_response \<Rightarrow> approval_exc + pyval" where
  "approval_result r =
     (if hr_status r = 200 then (case hr_json r of Inl e \<Rightarrow> Inl (Api_exc e) | Inr v \<Rightarrow> Inr v)
      else (let refuse = (\<lambda>detail. Inl (AxgApprovalError (str ''AXG refused the approval: '' @ py_str detail) (hr_status r)))
        in case hr_json r of
             Inl e \<Rightarrow> if is_value_error e then refuse (VStr (hr_text r)) else Inl (Api_exc e)
           | Inr (VDict d) \<Rightarrow> refuse (if truthy (dget d ''detail'') then dget d ''detail'' else VStr (hr_text r))
           | Inr _ \<Rightarrow> Inl (Api_exc AttributeError)))"

type_synonym http = "http_post \<Rightarrow> pystr + http_response"

definition submit_approval ::
    "http \<Rightarrow> pystr \<Rightarrow> pystr \<Rightarrow> pystr \<Rightarrow> pydict \<Rightarrow> pystr \<Rightarrow> pystr \<Rightarrow> pystr \<Rightarrow> approval_exc + pyval" where
  "submit_approval http axg_url api_key ticket payload approver_id approver_role outcome =
     rbind (approval_body ticket payload approver_id approver_role outcome) (\<lambda>body.
       (case http \<lparr>po_url = rstrip_char 47 axg_url @ str ''/v1/approvals'', po_json = body,
                  po_authorization = str ''Bearer '' @ api_key\<rparr> of
          Inl name \<Rightarrow> Inl (AxgApprovalError (str ''AXG is unavailable: '' @ name) 503)
        | Inr r \<Rightarrow> approval_result r))"

record axg_client =
  ac_base_url :: pystr
  ac_api_key :: "pystr option"
  ac_jwks_url :: pystr

definition make_axg_client :: "pystr \<Rightarrow> pystr option \<Rightarrow> axg_client" where
  "make_axg_client base_url api_key =
     \<lparr>ac_base_url = rstrip_char 47 base_url, ac_api_key = api_key,
      ac_jwks_url = rstrip_char 47 base_url @ str ''/.well-known/jwks.json''\<rparr>"

text \<open>The client's \<open>verify_passport\<close> uses the JWKS client it was made with.\<close>

definition client_verify_passport ::
    "axg_client \<Rightarrow> crypto_lib \<Rightarrow> (pystr \<Rightarrow> jwks_client) \<Rightarrow> 'c replay_cache \<Rightarrow> int \<Rightarrow> int \<Rightarrow> passport_check \<Rightarrow> 'c option
       \<Rightarrow> (pystr + pydict) \<times> 'c option" where
  "client_verify_passport ac lib make_client cs now cache_now pk cache =
     verify_passport lib make_client cs now cache_now
       (pk\<lparr>pk_keys := (pk_keys pk)\<lparr>ks_jwks_url := None, ks_jwks_client := Some (make_client (ac_jwks_url ac))\<rparr>\<rparr>) cache"

definition client_submit_approval ::
    "axg_client \<Rightarrow> http \<Rightarrow> pystr \<Rightarrow> pydict \<Rightarrow> pystr \<Rightarrow> pystr \<Rightarrow> pystr \<Rightarrow> approval_exc + pyval" where
  "client_submit_approval ac http ticket payload approver_id approver_role outcome =
     (if \<not> is_given (ac_api_key ac) then Inl (Api_exc (ValueError (str ''AxgClient needs an api_key to submit approvals'')))
      else rbind (approval_body ticket payload approver_id approver_role outcome) (\<lambda>body.
        (case http \<lparr>po_url = ac_base_url ac @ str ''/v1/approvals'', po_json = body,
                   po_authorization = str ''Bearer '' @ the (ac_api_key ac)\<rparr> of
           Inl name \<Rightarrow> Inl (AxgApprovalError (str ''AXG is unavailable: '' @ name) 503)
         | Inr r \<Rightarrow> approval_result r)))"

end
