(* ===== verification/SdkFacts.thy ===== *)
theory SdkFacts
  imports Sdk Approvals
begin

text \<open>
  What a service gets from the SDK: the claims it accepts were issued for exactly its call, a Passport is
  accepted once while it is valid, and what AXG signs verifies.
\<close>

section \<open>The contract of a replay cache\<close>

text \<open>
  The interface \<open>ReplayCache\<close>. \<open>remembers c jti now\<close> says that the cache refuses \<open>jti\<close> at \<open>now\<close>. A store
  accepts what is not remembered, remembers it until it expires, and forgets nothing that has not expired.
\<close>

locale replay_guard =
  fixes check_and_store :: "'c replay_cache" and remembers :: "'c \<Rightarrow> pystr \<Rightarrow> int \<Rightarrow> bool"
  assumes answer: "check_and_store now (VStr jti) expires c = (Inr fresh, c') \<Longrightarrow> fresh \<longleftrightarrow> \<not> remembers c jti now"
    and stored: "check_and_store now (VStr jti) expires c = (Inr True, c') \<Longrightarrow> now' < expires \<Longrightarrow> remembers c' jti now'"
    and kept: "check_and_store now j expires c = (r, c') \<Longrightarrow> now \<le> now' \<Longrightarrow> remembers c jti now' \<Longrightarrow> remembers c' jti now'"
begin

text \<open>The states a cache goes through under calls with a clock that does not run back.\<close>

inductive later :: "int \<Rightarrow> 'c \<Rightarrow> int \<Rightarrow> 'c \<Rightarrow> bool" where
  later_refl: "later now c now c"
| later_wait: "later now c now' c' \<Longrightarrow> now' \<le> now'' \<Longrightarrow> later now c now'' c'"
| later_call: "later now c now' c' \<Longrightarrow> check_and_store now' j expires c' = (r, c'') \<Longrightarrow> later now c now' c''"

lemma later_remembers: "later now c now' c' \<Longrightarrow> now' \<le> t \<Longrightarrow> remembers c jti t \<Longrightarrow> remembers c' jti t"
proof (induction rule: later.induct)
  case (later_call now c now' c' j expires r c'')
  then show ?case using kept [OF later_call.hyps(2)] by simp
qed simp_all

text \<open>A \<open>jti\<close> that was accepted is refused until the expiry it was stored with.\<close>

lemma accepted_once:
  assumes "check_and_store now (VStr jti) expires c = (Inr True, c1)" "later now c1 now' c2"
    and "check_and_store now'' (VStr jti) expires' c2 = (Inr True, c3)" "now' \<le> now''"
  shows "expires \<le> now''"
proof (rule ccontr)
  assume "\<not> expires \<le> now''"
  then have "remembers c1 jti now''" using stored [OF assms(1)] by simp
  then have "remembers c2 jti now''" using later_remembers [OF assms(2,4)] by simp
  with answer [OF assms(3)] show False by simp
qed

end

definition memory_remembers :: "memory_cache \<Rightarrow> pystr \<Rightarrow> int \<Rightarrow> bool" where
  "memory_remembers seen jti now \<longleftrightarrow> (\<exists>e \<in> set seen. now < snd e \<and> fst e = VStr jti)"

lemma py_eq_VStr_left [simp]: "py_eq (VStr s) w \<longleftrightarrow> w = VStr s"
  by simp

interpretation memory: replay_guard memory_check_and_store memory_remembers
proof unfold_locales
  fix now jti expires fresh and c c' :: memory_cache
  assume "memory_check_and_store now (VStr jti) expires c = (Inr fresh, c')"
  then show "fresh \<longleftrightarrow> \<not> memory_remembers c jti now"
    by (force simp: memory_check_and_store_def memory_remembers_def Let_def list_ex_iff split: if_splits)
next
  fix now jti expires now' and c c' :: memory_cache
  assume "memory_check_and_store now (VStr jti) expires c = (Inr True, c')" "now' < expires"
  then show "memory_remembers c' jti now'"
    by (auto simp: memory_check_and_store_def memory_remembers_def Let_def split: if_splits)
next
  fix now j expires r now' jti and c c' :: memory_cache
  assume "memory_check_and_store now j expires c = (r, c')" "now \<le> now'" "memory_remembers c jti now'"
  then show "memory_remembers c' jti now'"
    by (fastforce simp: memory_check_and_store_def memory_remembers_def Let_def split: if_splits)
qed

section \<open>Accepted Passports\<close>

lemma check_eq [simp]: "check ok code = Inr u \<longleftrightarrow> ok" "check ok code = Inl e \<longleftrightarrow> \<not> ok \<and> e = VerificationError (str code)"
  by (auto simp: check_def)

lemma lift_exc_Inr [simp]: "lift_exc m = Inr x \<longleftrightarrow> m = Inr x"
  by (cases m) auto

text \<open>What the claims of an accepted Passport say.\<close>

definition claims_authorize :: "crypto_lib \<Rightarrow> (pystr \<Rightarrow> jwks_client) \<Rightarrow> int \<Rightarrow> passport_check \<Rightarrow> pydict \<Rightarrow> bool" where
  "claims_authorize lib make_client now pk claims \<longleftrightarrow>
     (\<exists>key token hash. passport_key make_client (pk_keys pk) (pk_token pk) = Inr key \<and> pk_token pk = VStr token
        \<and> jwt_decode lib (sdk_options (pk_app_id pk)) now token key = Inr claims
        \<and> expected_hash lib claims (pk_payload pk) = Inr hash \<and> dget claims ''payload_hash'' = VStr hash)
     \<and> dget claims ''decision'' = VStr (str ''ALLOW'')
     \<and> (is_given (pk_tenant_id pk) \<longrightarrow> dget claims ''tenant_id'' = opt_str (pk_tenant_id pk))
     \<and> (or_empty (pk_allowed_action_types pk) \<noteq> [] \<longrightarrow>
          (\<exists>a \<in> set (or_empty (pk_allowed_action_types pk)). dget claims ''action_type'' = VStr a))"

lemma passport_claims_of_iff:
  "passport_claims_of lib make_client now pk = Inr claims \<longleftrightarrow> claims_authorize lib make_client now pk claims"
proof -
  have tok: "decode_token lib opts now v key = Inr c \<longleftrightarrow> (\<exists>t. v = VStr t \<and> jwt_decode lib opts now t key = Inr c)" for opts v key c
    by (cases v) (simp_all add: decode_token_def)
  have act: "py_in v (map VStr as) \<longleftrightarrow> (\<exists>a \<in> set as. v = VStr a)" for v as
    by (auto simp: py_in_def list_ex_iff)
  have ph: "\<exists>y. map_of claims (str ''payload_hash'') = Some y" if "dget claims ''payload_hash'' = VStr h" for h
    using that
    by (auto simp: dget_def split: option.splits)
  have "passport_claims_of lib make_client now pk = Inr claims \<longleftrightarrow> (\<exists>key token hash.
      passport_key make_client (pk_keys pk) (pk_token pk) = Inr key \<and> pk_token pk = VStr token
      \<and> jwt_decode lib (sdk_options (pk_app_id pk)) now token key = Inr claims
      \<and> dget claims ''decision'' = VStr (str ''ALLOW'')
      \<and> \<not> (is_given (pk_tenant_id pk) \<and> dget claims ''tenant_id'' \<noteq> opt_str (pk_tenant_id pk))
      \<and> (or_empty (pk_allowed_action_types pk) = []
          \<or> (\<exists>a \<in> set (or_empty (pk_allowed_action_types pk)). dget claims ''action_type'' = VStr a))
      \<and> map_of claims (str ''payload_hash'') \<noteq> None
      \<and> expected_hash lib claims (pk_payload pk) = Inr hash \<and> dget claims ''payload_hash'' = VStr hash)"
    unfolding passport_claims_of_def by (simp only: rbind_eq_Inr rmap_eq_Inr lift_exc_Inr check_eq tok act) blast
  then show ?thesis using ph unfolding claims_authorize_def by auto
qed

lemma verify_passport_accepts:
  assumes "verify_passport lib make_client cs now cache_now pk cache = (Inr claims, cache')"
  shows "claims_authorize lib make_client now pk claims"
  using assms by (auto simp: verify_passport_def passport_claims_of_iff [symmetric] split: sum.splits option.splits prod.splits)

lemma verify_passport_stores:
  assumes "verify_passport lib make_client cs now cache_now pk (Some c) = (Inr claims, cache')"
  obtains expires c' where "truthy (dget claims ''jti'')" "rbind (item claims ''exp'') py_int = Inr expires"
    "cs cache_now (dget claims ''jti'') expires c = (Inr True, c')" "cache' = Some c'"
proof -
  from assms obtain u c' where "passport_claims_of lib make_client now pk = Inr claims"
    "replay_check cs cache_now claims c = (Inr u, c')" "cache' = Some c'"
    by (auto simp: verify_passport_def split: sum.splits prod.splits)
  then show thesis using that
    by (auto simp: replay_check_def Let_def rbind_eq_Inr split: sum.splits prod.splits if_splits)
qed

text \<open>The cache after a series of verifications, each with the two readings of the clock.\<close>

fun cache_after ::
    "crypto_lib \<Rightarrow> (pystr \<Rightarrow> jwks_client) \<Rightarrow> 'c replay_cache \<Rightarrow> (int \<times> int \<times> passport_check) list \<Rightarrow> 'c option \<Rightarrow> 'c option" where
  "cache_after lib make_client cs [] cache = cache"
| "cache_after lib make_client cs ((now, cache_now, pk) # calls) cache =
     cache_after lib make_client cs calls (snd (verify_passport lib make_client cs now cache_now pk cache))"

context replay_guard
begin

lemma verify_later:
  assumes "later t c now c1" "now \<le> cache_now"
  shows "\<exists>c2. snd (verify_passport lib make_client check_and_store n cache_now pk (Some c1)) = Some c2 \<and> later t c cache_now c2"
proof -
  have w: "later t c cache_now c1" by (rule later_wait [OF assms])
  show ?thesis
  proof (cases "passport_claims_of lib make_client n pk")
    case (Inr claims)
    obtain r c2 where rc: "replay_check check_and_store cache_now claims c1 = (r, c2)"
      by (cases "replay_check check_and_store cache_now claims c1")
    then have "later t c cache_now c2"
      using w later_call [OF w] by (auto simp: replay_check_def Let_def split: sum.splits prod.splits if_splits)
    with Inr rc show ?thesis by (cases r) (simp_all add: verify_passport_def)
  qed (use w in \<open>simp add: verify_passport_def\<close>)
qed

lemma series_later:
  assumes "later t c now c1" "sorted (map (\<lambda>(n, cn, pk). cn) calls)" "\<forall>(n, cn, pk) \<in> set calls. now \<le> cn \<and> cn \<le> stop" "now \<le> stop"
  shows "\<exists>c2. cache_after lib make_client check_and_store calls (Some c1) = Some c2 \<and> later t c stop c2"
  using assms
proof (induction calls arbitrary: now c1)
  case (Cons call calls)
  obtain n cn pk where call: "call = (n, cn, pk)" by (cases call)
  have "now \<le> cn" using Cons.prems(3) call by simp
  from verify_later [OF Cons.prems(1) this] obtain c2 where
    c2: "snd (verify_passport lib make_client check_and_store n cn pk (Some c1)) = Some c2" "later t c cn c2" by blast
  have "\<forall>(n', cn', pk') \<in> set calls. cn \<le> cn' \<and> cn' \<le> stop" using Cons.prems(2,3) call by fastforce
  with Cons.IH [OF c2(2)] Cons.prems(2,3) call c2(1) show ?case by auto
qed (auto intro: later_wait)

lemma accepted_passport_once:
  assumes "verify_passport lib make_client check_and_store n1 t1 pk1 (Some c) = (Inr claims1, cache1)"
    and "sorted (map (\<lambda>(n, cn, pk). cn) calls)" "\<forall>(n, cn, pk) \<in> set calls. t1 \<le> cn \<and> cn \<le> t2" "t1 \<le> t2"
    and "verify_passport lib make_client check_and_store n2 t2 pk2 (cache_after lib make_client check_and_store calls cache1)
      = (Inr claims2, cache2)"
    and "dget claims1 ''jti'' = VStr jti" "dget claims2 ''jti'' = VStr jti" "dget claims1 ''exp'' = VInt expires"
  shows "expires \<le> t2"
proof -
  obtain e c1 where raw: "rbind (item claims1 ''exp'') py_int = Inr e"
    "check_and_store t1 (dget claims1 ''jti'') e c = (Inr True, c1)" "cache1 = Some c1"
    by (rule verify_passport_stores [OF assms(1)])
  note c1 = raw [unfolded assms(6)]
  have e: "e = expires" using c1(1) assms(8) by (auto simp: item_def dget_def split: option.splits)
  from series_later [OF later_refl [of t1 c1] assms(2,3,4)] c1(3) obtain c2 where
    c2: "cache_after lib make_client check_and_store calls cache1 = Some c2" "later t1 c1 t2 c2" by blast
  obtain e2 c3 where "check_and_store t2 (dget claims2 ''jti'') e2 c2 = (Inr True, c3)"
    by (rule verify_passport_stores [OF assms(5)[unfolded c2(1)]])
  from accepted_once [OF c1(2) c2(2) this [unfolded assms(7)]] e show ?thesis by simp
qed

end

section \<open>Properties\<close>

text \<open>
  C6. A tool acts only on what AXG authorized: when the check inside an MCP tool accepts, the Passport
  decodes under the service's key for its audience, is current, says ALLOW for this very tool and tenant,
  carries the hash of the payload in the call, and every argument equals that payload's field.
\<close>

theorem mcp_call_is_authorized:
  assumes "current_law lib"
    and "verify_mcp_tool_call lib make_client cs now cache_now call cache = (Inr claims, cache')"
  shows "\<exists>key token hash authorized.
    dget (or_empty (tl_meta call)) PASSPORT_META_KEY = VStr token
    \<and> dget (or_empty (tl_meta call)) PAYLOAD_META_KEY = VDict authorized
    \<and> passport_key make_client (tl_keys call) (VStr token) = Inr key
    \<and> jwt_decode lib (sdk_options (tl_app_id call)) now token key = Inr claims
    \<and> claims_current (sdk_options (tl_app_id call)) now claims
    \<and> dget claims ''decision'' = VStr (str ''ALLOW'') \<and> dget claims ''action_type'' = VStr (tl_tool_name call)
    \<and> (is_given (tl_tenant_id call) \<longrightarrow> dget claims ''tenant_id'' = opt_str (tl_tenant_id call))
    \<and> expected_hash lib claims authorized = Inr hash \<and> dget claims ''payload_hash'' = VStr hash
    \<and> (\<forall>(k, v) \<in> set (tl_arguments call). k \<notin> set (tl_ignored_arguments call)
         \<longrightarrow> (\<exists>w. map_of authorized k = Some w \<and> py_eq w v))"
proof -
  from assms(2) obtain authorized where a: "dget (or_empty (tl_meta call)) PAYLOAD_META_KEY = VDict authorized"
    "verify_passport lib make_client cs now cache_now
       (tool_check call (dget (or_empty (tl_meta call)) PASSPORT_META_KEY) authorized) cache = (Inr claims, cache')"
    and args: "list_all (argument_ok authorized (tl_ignored_arguments call)) (tl_arguments call)"
    by (auto simp: verify_mcp_tool_call_def Let_def split: pyval.splits if_splits prod.splits sum.splits)
  from verify_passport_accepts [OF a(2)] obtain key token hash where
    c: "dget (or_empty (tl_meta call)) PASSPORT_META_KEY = VStr token"
    "passport_key make_client (tl_keys call) (VStr token) = Inr key"
    "jwt_decode lib (sdk_options (tl_app_id call)) now token key = Inr claims"
    "dget claims ''decision'' = VStr (str ''ALLOW'')" "dget claims ''action_type'' = VStr (tl_tool_name call)"
    "is_given (tl_tenant_id call) \<longrightarrow> dget claims ''tenant_id'' = opt_str (tl_tenant_id call)"
    "expected_hash lib claims authorized = Inr hash" "dget claims ''payload_hash'' = VStr hash"
    by (auto simp: claims_authorize_def tool_check_def or_empty_def)
  have cur: "claims_current (sdk_options (tl_app_id call)) now claims"
    using assms(1) c(3) unfolding current_law_def by blast
  have eq: "\<forall>(k, v) \<in> set (tl_arguments call). k \<notin> set (tl_ignored_arguments call)
      \<longrightarrow> (\<exists>w. map_of authorized k = Some w \<and> py_eq w v)"
    using args by (fastforce simp: list_all_iff argument_ok_def split: option.splits)
  show ?thesis by (intro exI conjI) (rule c a(1) cur eq)+
qed

definition example_keys_source :: key_source where
  "example_keys_source = \<lparr>ks_public_key = Some (str ''pk''), ks_jwks_url = None, ks_signing_key = None, ks_jwks_client = None\<rparr>"

definition sdk_lib :: crypto_lib where
  "sdk_lib = example_lib [example_token example_args 1000 (str ''u1'') (str ''tok''),
     example_token example_args 1300 (str ''u1'') (str ''tok2'')] []"

definition example_call :: tool_call where
  "example_call = \<lparr>tl_meta = Some [(str PASSPORT_META_KEY, VStr (str ''tok'')),
       (str PAYLOAD_META_KEY, VDict [(str ''amount'', VInt 5)])],
     tl_tool_name = str ''pay'', tl_arguments = [(str ''amount'', VFloat (Fin 5)), (str ''axg'', VNone)], tl_app_id = str ''app'',
     tl_tenant_id = Some (str ''t1''), tl_keys = example_keys_source, tl_ignored_arguments = [str ''axg'']\<rparr>"

definition example_pk :: "string \<Rightarrow> passport_check" where
  "example_pk token = \<lparr>pk_token = VStr (str token), pk_payload = [(str ''amount'', VInt 5)], pk_app_id = str ''app'',
     pk_tenant_id = None, pk_allowed_action_types = None, pk_keys = example_keys_source\<rparr>"

definition example_claims :: "int \<Rightarrow> pydict" where
  "example_claims issued = passport_dump (passport_of example_args example_hash issued (str ''u1''))"

definition no_client :: "pystr \<Rightarrow> jwks_client" where
  "no_client url token = Inl (JwtError (str ''PyJWKClientError''))"

lemma sdk_lib_laws: "current_law sdk_lib" "encode_law sdk_lib" "round_trip_law sdk_lib"
  unfolding sdk_lib_def by (rule example_lib_laws; simp add: example_token_def)+

lemma mcp_call_is_authorized_witness:
  "\<exists>authorized. dget (or_empty (tl_meta example_call)) PAYLOAD_META_KEY = VDict authorized
    \<and> (\<exists>w. map_of authorized (str ''amount'') = Some w \<and> py_eq w (VFloat (Fin 5)))"
proof -
  have "verify_mcp_tool_call sdk_lib no_client memory_check_and_store 1000 1000 example_call (Some [])
      = (Inr (example_claims 1000), Some [(VStr (str ''u1''), 1300)])"
    by code_simp
  from mcp_call_is_authorized [OF sdk_lib_laws(1) this] show ?thesis
    by (auto simp: example_call_def)
qed

text \<open>
  C16. Single use: with the replay cache in memory and a clock that does not run back, once a Passport is
  accepted no later verification, whatever happened in between, accepts a Passport with the same \<open>jti\<close>
  before the expiry of the first.
\<close>

theorem passport_single_use:
  assumes "verify_passport lib make_client memory_check_and_store n1 t1 pk1 (Some seen) = (Inr claims1, cache1)"
    and "sorted (map (\<lambda>(n, cn, pk). cn) calls)" "\<forall>(n, cn, pk) \<in> set calls. t1 \<le> cn \<and> cn \<le> t2" "t1 \<le> t2"
    and "verify_passport lib make_client memory_check_and_store n2 t2 pk2
      (cache_after lib make_client memory_check_and_store calls cache1) = (Inr claims2, cache2)"
    and "dget claims1 ''jti'' = VStr jti" "dget claims2 ''jti'' = VStr jti" "dget claims1 ''exp'' = VInt expires"
  shows "expires \<le> t2"
  using assms by (rule memory.accepted_passport_once)

lemma example_verifications:
  "verify_passport sdk_lib no_client memory_check_and_store 1000 1000 (example_pk ''tok'') (Some [])
     = (Inr (example_claims 1000), Some [(VStr (str ''u1''), 1300)])"
  "cache_after sdk_lib no_client memory_check_and_store [(1299, 1299, example_pk ''tok'')] (Some [(VStr (str ''u1''), 1300)])
     = Some [(VStr (str ''u1''), 1300)]"
  "verify_passport sdk_lib no_client memory_check_and_store 1300 1300 (example_pk ''tok2'') (Some [(VStr (str ''u1''), 1300)])
     = (Inr (example_claims 1300), Some [(VStr (str ''u1''), 1600)])"
  by code_simp+

lemma passport_single_use_witness: "pc_exp (passport_of example_args example_hash 1000 (str ''u1'')) \<le> (1300 :: int)"
proof -
  have "dget (example_claims issued) ''jti'' = VStr (str ''u1'')" "dget (example_claims 1000) ''exp'' = VInt 1300" for issued
    by (simp_all add: example_claims_def passport_dump_get passport_of_def example_args_def)
  from passport_single_use [OF example_verifications(1) _ _ _ _ this(1) this(1) this(2), of "[(1299, 1299, example_pk ''tok'')]" 1300]
  show ?thesis using example_verifications(2,3) by (simp add: passport_of_def example_args_def)
qed

text \<open>What AXG signs, the SDK accepts.\<close>

lemma signed_claims_accepted:
  assumes "encode_law lib" "round_trip_law lib" "derive_public lib (km_private km) = Inr (km_public km)"
    and "sign_decision lib km issued uuid a = Inr (token, jti)" "issued \<le> now" "now < issued + 60 * da_expires_in_minutes a"
    and "pk_token pk = VStr token" "pk_payload pk = da_payload a" "pk_app_id pk = da_app_id a" "ks_public_key (pk_keys pk) = Some (km_public km)"
    and "km_public km \<noteq> []" "pk_tenant_id pk = Some (da_tenant_id a) \<or> pk_tenant_id pk = None"
    and "pk_allowed_action_types pk = None \<or> da_action_type a \<in> set (or_empty (pk_allowed_action_types pk))"
  obtains hash where "passport_claims_of lib make_client now pk = Inr (passport_dump (passport_of a hash issued jti))"
proof -
  from assms(4) obtain hash k where s: "hash_payload lib (da_payload a) = Inr hash"
    "jwt_encode lib (passport_dump (passport_of a hash issued jti)) (km_private km) [(str ''kid'', VStr k)] = Inr token"
    by (rule sign_decisionD)
  let ?c = "passport_dump (passport_of a hash issued jti)"
  have cur: "claims_current (sdk_options (da_app_id a)) now ?c"
    using assms(5,6) by (intro passport_current) (simp_all add: passport_of_def sdk_options_def ISSUER_def)
  have dec: "jwt_decode lib (sdk_options (da_app_id a)) now token (km_public km) = Inr ?c"
    using assms(2) s(2) assms(3) _ cur by (rule decode_signed) (simp add: sdk_options_def)
  have key: "passport_key make_client (pk_keys pk) (VStr token) = Inr (km_public km)"
    using assms(10,11) by (simp add: passport_key_def is_given_def)
  have "expected_hash lib ?c (da_payload a) = Inr hash"
    using s(1) by (simp add: expected_hash_def passport_dump_get num_eq_def)
  then have "claims_authorize lib make_client now pk ?c"
    using key dec assms(7-9,12,13) unfolding claims_authorize_def
    by (auto simp: passport_dump_get passport_of_def opt_str_def or_empty_def is_given_def)
  with that show thesis unfolding passport_claims_of_iff by blast
qed

lemma accept_unseen:
  assumes "passport_claims_of lib make_client now pk = Inr (passport_dump c)" "pc_jti c \<noteq> []"
    and "\<not> memory_remembers seen (pc_jti c) cache_now"
  shows "verify_passport lib make_client memory_check_and_store now cache_now pk (Some seen)
    = (Inr (passport_dump c), Some (filter (\<lambda>e. cache_now < snd e) seen @ [(VStr (pc_jti c), pc_exp c)]))"
proof -
  have "\<not> list_ex (\<lambda>e. py_eq (VStr (pc_jti c)) (fst e)) (filter (\<lambda>e. cache_now < snd e) seen)"
    using assms(3) by (auto simp: memory_remembers_def list_ex_iff)
  with assms(1,2) show ?thesis
    by (simp add: verify_passport_def replay_check_def Let_def passport_dump_get item_def map_of_passport_dump
        memory_check_and_store_def check_def)
qed

text \<open>
  End to end: a Passport that AXG signed is accepted by a service of its audience for the payload that
  was signed, with AXG's public key, at any time of its validity, unless its \<open>jti\<close> was used before.
\<close>

theorem signed_passport_verifies:
  assumes "encode_law lib" "round_trip_law lib" "derive_public lib (km_private km) = Inr (km_public km)"
    and "sign_decision lib km issued uuid a = Inr (token, jti)" "issued \<le> now" "now < issued + 60 * da_expires_in_minutes a"
    and "pk_token pk = VStr token" "pk_payload pk = da_payload a" "pk_app_id pk = da_app_id a" "ks_public_key (pk_keys pk) = Some (km_public km)"
    and "km_public km \<noteq> []" "pk_tenant_id pk = Some (da_tenant_id a) \<or> pk_tenant_id pk = None"
    and "pk_allowed_action_types pk = None \<or> da_action_type a \<in> set (or_empty (pk_allowed_action_types pk))"
    and "jti \<noteq> []" "\<not> memory_remembers seen jti cache_now"
  shows "\<exists>hash cache'. verify_passport lib make_client memory_check_and_store now cache_now pk (Some seen)
    = (Inr (passport_dump (passport_of a hash issued jti)), cache')"
proof -
  obtain hash where "passport_claims_of lib make_client now pk = Inr (passport_dump (passport_of a hash issued jti))"
    by (rule signed_claims_accepted [OF assms(1-13)])
  from accept_unseen [OF this] assms(14,15) show ?thesis by (auto simp: passport_of_def)
qed

lemma sdk_lib_signs:
  "sign_decision sdk_lib example_keys 1000 (str ''u1'') example_args = Inr (str ''tok'', str ''u1'')"
  "derive_public sdk_lib (km_private example_keys) = Inr (km_public example_keys)"
  by code_simp+

lemma signed_passport_verifies_witness:
  "\<exists>hash cache'. verify_passport sdk_lib no_client memory_check_and_store 1299 1299 (example_pk ''tok'') (Some [(VStr (str ''u1''), 1200)])
    = (Inr (passport_dump (passport_of example_args hash 1000 (str ''u1''))), cache')"
proof -
  have "\<not> memory_remembers [(VStr (str ''u1''), 1200)] (str ''u1'') 1299" by (simp add: memory_remembers_def)
  then show ?thesis
    by (intro signed_passport_verifies [OF sdk_lib_laws(2,3) sdk_lib_signs(2,1)])
      (simp_all add: example_args_def example_pk_def example_keys_source_def example_keys_def)
qed

text \<open>
  C39. The limit of single use: an approval ticket can be redeemed again. Two submissions of the same approval,
  at least five minutes apart and both before the ticket expires, are both accepted (the policy that decided
  is still the cached one, and neither signature fails); they yield two Passports with the ticket's id as \<open>jti\<close>,
  and a service that keeps one replay cache in memory accepts each of them when it is issued.
\<close>

theorem ticket_gives_two_passports:
  assumes "encode_law (en_lib en)" "round_trip_law (en_lib en)" "validate_law (en_lib en)"
    and "derive_public (en_lib en) (km_private (en_keys en)) = Inr (km_public (en_keys en))" "km_public (en_keys en) \<noteq> []"
    and "previous_public_keys (le_environ (en_loader en)) = Inr ps"
    and "sign_approval_ticket (en_lib en) (en_keys en) issued uuid a = Inr ch" "uuid \<noteq> []"
    and "issued \<le> mo_now m1" "mo_now m1 + 300 \<le> mo_now m2" "mo_now m2 < ch_expires_at ch"
    and "hash_payload (en_lib en) (ta_payload a) = Inr hash" "ticket = ticket_of a hash issued uuid"
    and "aq_ticket aq = ch_ticket ch" "aq_actionable_payload aq = ta_payload a" "aq_outcome aq = Approve"
    and "may_approve ticket c" "right_approver ticket (aq_approver aq)"
    and "map_of cache (ta_plugin_id a) = Some p" "version_label p = ta_policy a"
    and "sign_decision (en_lib en) (en_keys en) (mo_now m1) (mo_uuid m1) (approved_args ticket aq c) = Inr (token1, jti1)"
    and "sign_decision (en_lib en) (en_keys en) (mo_now m2) (mo_uuid m2) (approved_args ticket aq c) = Inr (token2, jti2)"
  defines "service \<equiv> \<lambda>token. \<lparr>pk_token = VStr token, pk_payload = ta_payload a, pk_app_id = ta_app_id a,
    pk_tenant_id = Some (ta_tenant_id a), pk_allowed_action_types = Some [ta_action_type a],
    pk_keys = \<lparr>ks_public_key = Some (km_public (en_keys en)), ks_jwks_url = None, ks_signing_key = None, ks_jwks_client = None\<rparr>\<rparr>"
  shows "\<exists>answer1 record1 answer2 record2 claims1 claims2 seen1 seen2.
    submit en m1 cache aq c = (Inr (answer1, record1), cache) \<and> submit en m2 cache aq c = (Inr (answer2, record2), cache)
    \<and> ar_passport answer1 = Some token1 \<and> ar_passport answer2 = Some token2
    \<and> verify_passport (en_lib en) make_client memory_check_and_store (mo_now m1) (mo_now m1) (service token1) (Some [])
        = (Inr claims1, seen1)
    \<and> verify_passport (en_lib en) make_client memory_check_and_store (mo_now m2) (mo_now m2) (service token2) seen1
        = (Inr claims2, seen2)
    \<and> dget claims1 ''jti'' = VStr uuid \<and> dget claims2 ''jti'' = VStr uuid"
proof -
  let ?a = "approved_args ticket aq c"
  have t: "tc_jti ticket = uuid" "tc_aud ticket = ta_app_id a" "tc_tenant_id ticket = ta_tenant_id a"
    "tc_action_type ticket = ta_action_type a" by (simp_all add: assms(13) ticket_of_def)
  have jti: "jti1 = uuid" "jti2 = uuid"
    using assms(21,22,8) t(1)
    by (auto simp: sign_decision_def approved_args_def or_else_def rbind_eq_Inr Let_def split: if_splits sum.splits)
  have sel: "da_payload ?a = ta_payload a" "da_app_id ?a = ta_app_id a" "da_tenant_id ?a = ta_tenant_id a"
    "da_action_type ?a = ta_action_type a" "da_expires_in_minutes ?a = 5" by (simp_all add: approved_args_def t assms(15))
  have submits: "submit en mo cache aq c = (Inr (approval_answer mo ticket aq c (Some (token, jti))), cache)"
    if "issued \<le> mo_now mo" "mo_now mo < ch_expires_at ch"
      "sign_decision (en_lib en) (en_keys en) (mo_now mo) (mo_uuid mo) ?a = Inr (token, jti)" for mo token jti
    using fresh_ticket_submits [OF assms(1-4,6,7) that(1,2) assms(12-15,17,18) load_hit [OF assms(19)] assms(20)] that(3) assms(16)
    by (simp add: issue_def)
  have s1: "submit en m1 cache aq c = (Inr (approval_answer m1 ticket aq c (Some (token1, jti1))), cache)"
    using assms(9-11,21) by (intro submits) simp_all
  have s2: "submit en m2 cache aq c = (Inr (approval_answer m2 ticket aq c (Some (token2, jti2))), cache)"
    using assms(9-11,22) by (intro submits) simp_all
  obtain h1 where p1: "passport_claims_of (en_lib en) make_client (mo_now m1) (service token1)
      = Inr (passport_dump (passport_of ?a h1 (mo_now m1) jti1))"
    by (rule signed_claims_accepted [OF assms(1,2,4,21), of "mo_now m1" "service token1"])
      (use assms(5) in \<open>simp_all add: service_def sel or_empty_def\<close>)
  obtain h2 where p2: "passport_claims_of (en_lib en) make_client (mo_now m2) (service token2)
      = Inr (passport_dump (passport_of ?a h2 (mo_now m2) jti2))"
    by (rule signed_claims_accepted [OF assms(1,2,4,22), of "mo_now m2" "service token2"])
      (use assms(5) in \<open>simp_all add: service_def sel or_empty_def\<close>)
  have v1: "verify_passport (en_lib en) make_client memory_check_and_store (mo_now m1) (mo_now m1) (service token1) (Some [])
      = (Inr (passport_dump (passport_of ?a h1 (mo_now m1) jti1)), Some [(VStr jti1, mo_now m1 + 300)])"
    using accept_unseen [OF p1, of "[]"] jti assms(8) by (simp add: passport_of_def memory_remembers_def sel)
  have v2: "verify_passport (en_lib en) make_client memory_check_and_store (mo_now m2) (mo_now m2) (service token2)
      (Some [(VStr jti1, mo_now m1 + 300)])
      = (Inr (passport_dump (passport_of ?a h2 (mo_now m2) jti2)), Some [(VStr jti2, mo_now m2 + 300)])"
    using accept_unseen [OF p2, of "[(VStr jti1, mo_now m1 + 300)]" "mo_now m2"] jti assms(8,10)
    by (simp add: passport_of_def memory_remembers_def sel)
  from s1 s2 v1 v2 jti show ?thesis by (simp add: approval_answer_def passport_dump_get passport_of_def)
qed

definition redeeming_engine :: engine_env where
  "redeeming_engine = example_engine\<lparr>en_lib := (example_lib (example_tokens @ map (\<lambda>(t, now). (t, str ''k'',
     passport_dump (passport_of (approved_args (ticket_of example_approving example_payload_hash 1000 (str ''u1''))
       example_approval example_approver) example_payload_hash now (str ''u1'')), [(str ''kid'', VStr example_kid)]))
       [(str ''p1'', 1000), (str ''p2'', 1300)]) [])\<lparr>validate_ticket := parse_ticket\<rparr>\<rparr>"

lemma redeeming_laws: "encode_law (en_lib redeeming_engine)" "round_trip_law (en_lib redeeming_engine)"
  "validate_law (en_lib redeeming_engine)"
proof -
  let ?table = "example_tokens @ map (\<lambda>(t, now). (t, str ''k'',
     passport_dump (passport_of (approved_args (ticket_of example_approving example_payload_hash 1000 (str ''u1''))
       example_approval example_approver) example_payload_hash now (str ''u1'')), [(str ''kid'', VStr example_kid)]))
       [(str ''p1'', 1000), (str ''p2'', 1300)]"
  have "distinct (map fst ?table)" by (simp add: example_tokens_def)
  from example_lib_laws(3,4) [OF this, of "[]"]
  show "encode_law (en_lib redeeming_engine)" "round_trip_law (en_lib redeeming_engine)"
    by (simp_all add: redeeming_engine_def encode_law_def round_trip_law_def)
  show "validate_law (en_lib redeeming_engine)" by (simp add: redeeming_engine_def validate_law_def parse_ticket_dump)
qed

lemma redeeming_signs:
  "sign_approval_ticket (en_lib redeeming_engine) (en_keys redeeming_engine) 1000 (str ''u1'') example_approving
     = Inr \<lparr>ch_ticket = str ''tik'', ch_ticket_id = str ''u1'', ch_required_role = str ''treasury'', ch_expires_at = 4600\<rparr>"
  "sign_decision (en_lib redeeming_engine) (en_keys redeeming_engine) 1000 (str ''u1'')
     (approved_args (ticket_of example_approving example_payload_hash 1000 (str ''u1'')) example_approval example_approver)
     = Inr (str ''p1'', str ''u1'')"
  "sign_decision (en_lib redeeming_engine) (en_keys redeeming_engine) 1300 (str ''u2'')
     (approved_args (ticket_of example_approving example_payload_hash 1000 (str ''u1'')) example_approval example_approver)
     = Inr (str ''p2'', str ''u1'')"
  "hash_payload (en_lib redeeming_engine) (ta_payload example_approving) = Inr example_payload_hash"
  by code_simp+

lemma ticket_gives_two_passports_witness:
  "\<exists>answer1 record1 answer2 record2. submit redeeming_engine example_moment [(str ''demo'', example_plugin)] example_approval
       example_approver = (Inr (answer1, record1), [(str ''demo'', example_plugin)])
    \<and> submit redeeming_engine (example_moment\<lparr>mo_now := 1300, mo_uuid := str ''u2''\<rparr>) [(str ''demo'', example_plugin)]
       example_approval example_approver = (Inr (answer2, record2), [(str ''demo'', example_plugin)])
    \<and> ar_passport answer1 = Some (str ''p1'') \<and> ar_passport answer2 = Some (str ''p2'')"
proof -
  let ?m2 = "example_moment\<lparr>mo_now := 1300, mo_uuid := str ''u2''\<rparr>" and ?cache = "[(str ''demo'', example_plugin)]"
  let ?ch = "\<lparr>ch_ticket = str ''tik'', ch_ticket_id = str ''u1'', ch_required_role = str ''treasury'', ch_expires_at = 4600\<rparr>"
  have keys: "derive_public (en_lib redeeming_engine) (km_private (en_keys redeeming_engine)) = Inr (km_public (en_keys redeeming_engine))"
    "km_public (en_keys redeeming_engine) \<noteq> []" "previous_public_keys (le_environ (en_loader redeeming_engine)) = Inr []"
    by code_simp+
  have now: "1000 \<le> mo_now example_moment" "mo_now example_moment + 300 \<le> mo_now ?m2" "mo_now ?m2 < ch_expires_at ?ch"
    "str ''u1'' \<noteq> []" by (simp_all add: example_moment_def str_def)
  have q: "aq_ticket example_approval = ch_ticket ?ch" "aq_actionable_payload example_approval = ta_payload example_approving"
    "aq_outcome example_approval = Approve"
    by (simp_all add: example_approval_def example_approving_def approval_args_def)
  have l: "map_of ?cache (ta_plugin_id example_approving) = Some example_plugin" "version_label example_plugin = ta_policy example_approving"
    by (simp_all add: example_approving_def approval_args_def example_request_def)
  have s: "sign_decision (en_lib redeeming_engine) (en_keys redeeming_engine) (mo_now example_moment) (mo_uuid example_moment)
      (approved_args (ticket_of example_approving example_payload_hash 1000 (str ''u1'')) example_approval example_approver)
      = Inr (str ''p1'', str ''u1'')"
    "sign_decision (en_lib redeeming_engine) (en_keys redeeming_engine) (mo_now ?m2) (mo_uuid ?m2)
      (approved_args (ticket_of example_approving example_payload_hash 1000 (str ''u1'')) example_approval example_approver)
      = Inr (str ''p2'', str ''u1'')" using redeeming_signs(2,3) by (simp_all add: example_moment_def)
  from ticket_gives_two_passports [OF redeeming_laws keys redeeming_signs(1) now(4,1-3) redeeming_signs(4) refl q approving_parties l s,
      of no_client] show ?thesis by blast
qed

end
