(* ===== verification/RequestLimits.thy ===== *)
theory RequestLimits
  imports PyInt
begin

text \<open>
  \<open>axg/limits.py\<close>: the cap on request bodies and the rate limiter with its fixed one-minute window per
  caller. \<open>time.time()\<close> is a rational number of seconds; \<open>(window + 1) * 60 - now\<close> is exact in doubles,
  since both are within a factor of two. The lock serialises the calls of \<open>check\<close>.
\<close>

section \<open>Configuration\<close>

definition DEFAULT_MAX_BODY_BYTES :: int where
  "DEFAULT_MAX_BODY_BYTES = 256 * 1024"

definition DEFAULT_RATE_LIMIT_PER_MINUTE :: int where
  "DEFAULT_RATE_LIMIT_PER_MINUTE = 600"

definition env_int :: "environ \<Rightarrow> string \<Rightarrow> int \<Rightarrow> int res" where
  "env_int env name dflt = (case env name of None \<Rightarrow> Inr dflt | Some s \<Rightarrow> int_of_str s)"

definition max_body_bytes :: "environ \<Rightarrow> int res" where
  "max_body_bytes env = env_int env ''AXG_MAX_BODY_BYTES'' DEFAULT_MAX_BODY_BYTES"

definition rate_limit_per_minute :: "environ \<Rightarrow> int res" where
  "rate_limit_per_minute env = env_int env ''AXG_RATE_LIMIT_PER_MINUTE'' DEFAULT_RATE_LIMIT_PER_MINUTE"

section \<open>Body size\<close>

text \<open>
  An ASGI message is a piece of the body with its \<open>more_body\<close> flag, or any other message. \<open>incoming\<close> is
  what \<open>receive\<close> yields; a middleware call hands the app a stream of messages, answers 413, waits for
  messages that do not come, or raises.
\<close>

datatype asgi_message = Body "int list" bool | Other_message

datatype body_outcome = To_app "asgi_message list" | Too_large | Waiting | Crashed pyexc

record asgi_scope =
  sp_http :: bool
  sp_headers :: "(pystr \<times> pystr) list"

fun read_body :: "int \<Rightarrow> asgi_message list \<Rightarrow> int \<Rightarrow> asgi_message list \<Rightarrow> body_outcome" where
  "read_body limit buffered received [] = Waiting"
| "read_body limit buffered received (Other_message # rest) = To_app ((buffered @ [Other_message]) @ rest)"
| "read_body limit buffered received (Body bs cont # rest) =
     (let received' = received + int (length bs); buffered' = buffered @ [Body bs cont]
      in if limit < received' then Too_large
         else if \<not> cont then To_app (buffered' @ rest)
         else read_body limit buffered' received' rest)"

text \<open>\<open>dict(headers)[b"content-length"]\<close>: the last one counts.\<close>

definition content_length :: "asgi_scope \<Rightarrow> pystr option" where
  "content_length sp = map_of (rev (sp_headers sp)) (str ''content-length'')"

definition body_limit :: "environ \<Rightarrow> asgi_scope \<Rightarrow> asgi_message list \<Rightarrow> body_outcome" where
  "body_limit env sp incoming =
     (if \<not> sp_http sp then To_app incoming
      else (case max_body_bytes env of
          Inl e \<Rightarrow> Crashed e
        | Inr limit \<Rightarrow>
            (case content_length sp of
               None \<Rightarrow> read_body limit [] 0 incoming
             | Some declared \<Rightarrow>
                 if declared \<noteq> [] \<and> list_all is_digit declared
                 then (case int_of_str declared of
                         Inl e \<Rightarrow> Crashed e
                       | Inr n \<Rightarrow> if limit < n then Too_large else read_body limit [] 0 incoming)
                 else read_body limit [] 0 incoming)))"

text \<open>The bytes of the body a stream of messages carries, up to its last piece.\<close>

fun body_bytes :: "asgi_message list \<Rightarrow> int" where
  "body_bytes [] = 0"
| "body_bytes (Other_message # ms) = 0"
| "body_bytes (Body bs cont # ms) = int (length bs) + (if cont then body_bytes ms else 0)"

fun body_ends :: "asgi_message list \<Rightarrow> bool" where
  "body_ends [] \<longleftrightarrow> False"
| "body_ends (Other_message # ms) \<longleftrightarrow> True"
| "body_ends (Body bs cont # ms) \<longleftrightarrow> \<not> cont \<or> body_ends ms"

lemma body_bytes_nonneg [simp]: "0 \<le> body_bytes ms"
  by (induction ms rule: body_bytes.induct) simp_all

lemma read_body_iff:
  assumes "received \<le> limit"
  shows "read_body limit buffered received ms =
    (if limit < received + body_bytes ms then Too_large
     else if body_ends ms then To_app (buffered @ ms) else Waiting)"
  using assms
proof (induction limit buffered received ms rule: read_body.induct)
  case (3 limit buffered received bs cont rest)
  show ?case
  proof (cases "limit < received + int (length bs)")
    case True
    have "int (length bs) \<le> body_bytes (Body bs cont # rest)" by simp
    with True have "limit < received + body_bytes (Body bs cont # rest)" by linarith
    with True show ?thesis by simp
  next
    case False
    with "3.IH" [OF refl refl] show ?thesis by (cases cont) (simp_all add: Let_def add.assoc)
  qed
qed simp_all

section \<open>The rate limiter\<close>

text \<open>Per caller, the window of its last admitted call and the calls admitted in it.\<close>

type_synonym rate_windows = "(pystr \<times> int \<times> int) list"

definition window_of :: "rat \<Rightarrow> int" where
  "window_of now = \<lfloor>now / 60\<rfloor>"

definition check_window :: "int \<Rightarrow> rat \<Rightarrow> pystr \<Rightarrow> rate_windows \<Rightarrow> int option \<times> rate_windows" where
  "check_window limit now caller_id windows =
     (if limit \<le> 0 then (None, windows)
      else (let window = window_of now;
                (start, count) = (case map_of windows caller_id of None \<Rightarrow> (window, 0) | Some sc \<Rightarrow> sc);
                (start, count) = (if start \<noteq> window then (window, 0) else (start, count))
            in if limit \<le> count then (Some (max 1 \<lfloor>of_int ((window + 1) * 60) - now\<rfloor>), windows)
               else (None, AList.update caller_id (start, count + 1) windows)))"

definition rate_check :: "environ \<Rightarrow> rat \<Rightarrow> pystr \<Rightarrow> rate_windows \<Rightarrow> int option res \<times> rate_windows" where
  "rate_check env now caller_id windows =
     (case rate_limit_per_minute env of
        Inl e \<Rightarrow> (Inl e, windows)
      | Inr limit \<Rightarrow> (case check_window limit now caller_id windows of (r, ws) \<Rightarrow> (Inr r, ws)))"

definition rate_reset :: "rate_windows \<Rightarrow> rate_windows" where
  "rate_reset windows = []"

text \<open>A series of calls, in the order the lock admits them: who was admitted, and in which window.\<close>

fun rate_run :: "int \<Rightarrow> (rat \<times> pystr) list \<Rightarrow> rate_windows \<Rightarrow> (pystr \<times> int) list" where
  "rate_run limit [] windows = []"
| "rate_run limit ((now, caller_id) # calls) windows =
     (case check_window limit now caller_id windows of (r, ws) \<Rightarrow>
        (if r = None then [(caller_id, window_of now)] else []) @ rate_run limit calls ws)"

definition tally :: "(pystr \<times> int) list \<Rightarrow> pystr \<times> int \<Rightarrow> int" where
  "tally xs x = int (count_list xs x)"

definition call_slots :: "(rat \<times> pystr) list \<Rightarrow> (pystr \<times> int) list" where
  "call_slots calls = map (\<lambda>(now, c). (c, window_of now)) calls"

text \<open>What is stored for a caller counts in its window only.\<close>

definition stored :: "rate_windows \<Rightarrow> pystr \<times> int \<Rightarrow> int" where
  "stored windows cw = (case map_of windows (fst cw) of None \<Rightarrow> 0 | Some (start, count) \<Rightarrow> if start = snd cw then count else 0)"

definition windows_up_to :: "int \<Rightarrow> int \<Rightarrow> rate_windows \<Rightarrow> bool" where
  "windows_up_to limit w windows \<longleftrightarrow>
     (\<forall>c start count. map_of windows c = Some (start, count) \<longrightarrow> start \<le> w \<and> 0 \<le> count \<and> count \<le> limit)"

lemma check_window_step:
  assumes "0 < limit" "check_window limit now c windows = (r, windows')"
  shows "r = None \<longleftrightarrow> stored windows (c, window_of now) < limit"
    "r \<noteq> None \<Longrightarrow> windows' = windows"
    "r = None \<Longrightarrow> windows' = AList.update c (window_of now, stored windows (c, window_of now) + 1) windows"
  using assms by (auto simp: check_window_def stored_def Let_def split: option.splits if_splits)

lemma windows_up_to_step:
  assumes "0 < limit" "check_window limit now c windows = (r, windows')" "windows_up_to limit w windows" "w \<le> window_of now"
  shows "windows_up_to limit (window_of now) windows'"
proof (cases "r = None")
  case True
  have "0 \<le> stored windows (c, window_of now)"
    using assms(3) by (auto simp: windows_up_to_def stored_def split: option.splits)
  with True check_window_step [OF assms(1,2)] assms(3,4) show ?thesis
    by (fastforce simp: windows_up_to_def map_of_update split: if_splits)
next
  case False
  with check_window_step [OF assms(1,2)] assms(3,4) show ?thesis by (fastforce simp: windows_up_to_def)
qed

lemma tally_simps [simp]:
  "tally [] x = 0" "tally (y # ys) x = (if y = x then 1 else 0) + tally ys x" "tally (xs @ ys) x = tally xs x + tally ys x"
  by (simp_all add: tally_def)

lemma tally_nonneg [simp]: "0 \<le> tally xs x"
  by (simp add: tally_def)

lemma call_slots_Cons [simp]: "call_slots ((now, c) # calls) = (c, window_of now) # call_slots calls"
  by (simp add: call_slots_def)

lemma tally_later: "\<forall>call \<in> set calls. v < window_of (fst call) \<Longrightarrow> tally (call_slots calls) (c, v) = 0"
  by (induction calls) (auto simp: call_slots_def)

lemma rate_run_tally_le: "tally (rate_run limit calls windows) x \<le> tally (call_slots calls) x"
proof (induction limit calls windows rule: rate_run.induct)
  case (2 limit now c calls windows)
  obtain r ws where r: "check_window limit now c windows = (r, ws)" by (cases "check_window limit now c windows")
  from 2 [OF r [symmetric]] r show ?case by simp
qed (simp add: call_slots_def)

lemma stored_le: "windows_up_to limit w windows \<Longrightarrow> 0 < limit \<Longrightarrow> stored windows cw \<le> limit"
  by (auto simp: windows_up_to_def stored_def split: option.splits)

lemma stored_later: "windows_up_to limit w windows \<Longrightarrow> w < v \<Longrightarrow> stored windows (c, v) = 0"
  by (fastforce simp: windows_up_to_def stored_def split: option.splits)

lemma rate_run_tally:
  assumes "0 < limit" "windows_up_to limit w windows" "sorted (map (\<lambda>call. window_of (fst call)) calls)"
    and "\<forall>call \<in> set calls. w \<le> window_of (fst call)" "w \<le> v"
  shows "tally (rate_run limit calls windows) (c, v) = min (limit - stored windows (c, v)) (tally (call_slots calls) (c, v))"
  using assms(2-)
proof (induction calls arbitrary: windows w)
  case Nil
  then show ?case using stored_le [OF Nil.prems(1) assms(1), of "(c, v)"] by (simp add: call_slots_def)
next
  case (Cons call calls)
  obtain now d where call: "call = (now, d)" by (cases call)
  define x where "x = window_of now"
  obtain r ws where r: "check_window limit now d windows = (r, ws)" by (cases "check_window limit now d windows")
  note le = stored_le [OF Cons.prems(1) assms(1), of "(c, v)"]
  show ?case
  proof (cases "v < x")
    case True
    then have later: "\<forall>call' \<in> set (call # calls). v < window_of (fst call')"
      using Cons.prems(2) call by (auto simp: x_def)
    show ?thesis using tally_later [OF later, of c] rate_run_tally_le [of limit "call # calls" windows "(c, v)"] le
      tally_nonneg [of "rate_run limit (call # calls) windows" "(c, v)"] by linarith
  next
    case False
    have w: "w \<le> x" using Cons.prems(3) call by (simp add: x_def)
    have IH: "tally (rate_run limit calls ws) (c, v) = min (limit - stored ws (c, v)) (tally (call_slots calls) (c, v))"
      using windows_up_to_step [OF assms(1) r Cons.prems(1)] Cons.prems(2,3) False w call
      by (intro Cons.IH [of x]) (auto simp: x_def)
    note step = check_window_step [OF assms(1) r, folded x_def]
    show ?thesis
    proof (cases "d = c \<and> v = x")
      case True
      have "stored ws (c, v) = stored windows (c, v) + (if r = None then 1 else 0)"
        using step(2,3) True by (auto simp: stored_def map_of_update)
      moreover have "check_window limit now c windows = (r, ws)" using r True by simp
      ultimately show ?thesis using IH True step(1) le by (cases "r = None") (simp_all add: call x_def)
    next
      case other: False
      have "stored ws (c, v) = stored windows (c, v)"
      proof (cases "d = c")
        case True
        with other False have "x < v" by simp
        with step(2,3) True stored_later [OF Cons.prems(1), of v c] w show ?thesis
          by (cases "r = None") (simp_all add: stored_def map_of_update)
      next
        case False
        then show ?thesis using step(2,3) by (cases "r = None") (simp_all add: stored_def map_of_update)
      qed
      with IH other show ?thesis by (auto simp: call r x_def)
    qed
  qed
qed

section \<open>Properties\<close>

text \<open>
  C36. The rate limiter is exact: in a series of calls with a clock that does not run back, each caller
  is admitted in each minute as often as it calls, up to the limit and no further, whatever others do.
\<close>

theorem rate_limit_exact:
  assumes "0 < limit" "sorted (map fst calls)"
  shows "tally (rate_run limit calls []) (c, w) = min limit (tally (call_slots calls) (c, w))"
proof -
  have "window_of a \<le> window_of b" if "a \<le> b" for a b
    using that unfolding window_of_def by (intro floor_mono divide_right_mono) simp_all
  then have s: "sorted (map (\<lambda>call. window_of (fst call)) calls)"
    using sorted_wrt_mono_rel [of calls "\<lambda>x y. fst x \<le> fst y" "\<lambda>x y. window_of (fst x) \<le> window_of (fst y)"] assms(2)
    by (simp add: sorted_map)
  define w0 where "w0 = Min (insert w (window_of ` fst ` set calls))"
  have "w0 \<le> w" "\<forall>call \<in> set calls. w0 \<le> window_of (fst call)" by (auto simp: w0_def)
  with rate_run_tally [OF assms(1) _ s, of w0 "[]" w c] show ?thesis
    by (simp add: windows_up_to_def stored_def)
qed

lemma rate_limit_exact_witness:
  "tally (rate_run 2 [(0, str ''a''), (1, str ''a''), (1, str ''b''), (59, str ''a''), (60, str ''a'')] []) (str ''a'', 0) = 2"
proof -
  have "tally (call_slots [(0, str ''a''), (1, str ''a''), (1, str ''b''), (59, str ''a''), (60, str ''a'')]) (str ''a'', 0) = 3"
    by (simp add: call_slots_def window_of_def floor_divide_of_int_eq floor_eq_iff)
  then show ?thesis
    using rate_limit_exact [of 2 "[(0, str ''a''), (1, str ''a''), (1, str ''b''), (59, str ''a''), (60, str ''a'')]" "str ''a''" 0] by simp
qed

text \<open>A refused caller is told a wait within the minute, after which its next call is admitted.\<close>

lemma retry_after_bounds:
  assumes "check_window limit now c windows = (Some s, windows')"
  shows "1 \<le> s \<and> s \<le> 60"
proof -
  have "now / 60 < of_int \<lfloor>now / 60\<rfloor> + 1" "of_int \<lfloor>now / 60\<rfloor> \<le> now / 60" by linarith+
  then have "of_int ((window_of now + 1) * 60) - now \<le> 60" by (simp add: window_of_def field_simps)
  then have "\<lfloor>of_int ((window_of now + 1) * 60) - now\<rfloor> \<le> 60" by (metis floor_mono floor_numeral)
  with assms show ?thesis by (auto simp: check_window_def Let_def split: if_splits option.splits)
qed

text \<open>
  C37. The body limit: an HTTP request reaches the app exactly when its declared length, if it is a
  number, and its actual body are within the limit; the app then receives the very messages that came in.
\<close>

theorem body_limit_exact:
  assumes "max_body_bytes env = Inr limit" "0 \<le> limit" "sp_http sp" "body_ends incoming"
    and "case content_length sp of Some s \<Rightarrow> length s \<le> 4300 | None \<Rightarrow> True"
  shows "body_limit env sp incoming =
    (if body_bytes incoming \<le> limit
        \<and> (case content_length sp of Some s \<Rightarrow> s \<noteq> [] \<and> list_all is_digit s \<longrightarrow> digits_val 0 s \<le> limit | None \<Rightarrow> True)
     then To_app incoming else Too_large)"
proof -
  have r: "read_body limit [] 0 incoming = (if body_bytes incoming \<le> limit then To_app incoming else Too_large)"
    using read_body_iff [of 0 limit "[]" incoming] assms(2,4) by simp
  show ?thesis
  proof (cases "content_length sp")
    case None
    with assms(1,3) r show ?thesis by (simp add: body_limit_def)
  next
    case (Some s)
    with assms(1,3,5) r int_of_digits [of s] show ?thesis by (simp add: body_limit_def)
  qed
qed

lemma body_limit_exact_witness:
  "body_limit (\<lambda>_. Some (str ''2'')) \<lparr>sp_http = True, sp_headers = [(str ''content-length'', str ''2'')]\<rparr> [Body [1, 2] True, Body [3] False]
     = Too_large"
proof -
  have "max_body_bytes (\<lambda>_. Some (str ''2'')) = Inr 2" by code_simp
  moreover have "content_length \<lparr>sp_http = True, sp_headers = [(str ''content-length'', str ''2'')]\<rparr> = Some (str ''2'')"
    by (simp add: content_length_def)
  ultimately show ?thesis
    using body_limit_exact [of "\<lambda>_. Some (str ''2'')" 2 "\<lparr>sp_http = True, sp_headers = [(str ''content-length'', str ''2'')]\<rparr>"
        "[Body [1, 2] True, Body [3] False]"] by simp
qed

end
