(* ===== verification/Telemetry.thy ===== *)
theory Telemetry
  imports EngineExample
begin

text \<open>
  \<open>axg/telemetry.py\<close>: the span and the metrics around one decision, and the engine's \<open>decide\<close>. OpenTelemetry
  is not under the sources: a span is what was set on it, and a metric the list of what was added to it,
  without the measured times; what OpenTelemetry itself records of an exception is its own. Trace context and
  set-up of the exporters are left to the library.
\<close>

definition SPAN_NAME :: pystr where
  "SPAN_NAME = str ''axg.decide''"

definition RULE_EVENT :: pystr where
  "RULE_EVENT = str ''axg.rule.triggered''"

definition FAILURE_FLAGS :: "pystr list" where
  "FAILURE_FLAGS = [str ''plugin_load_failed'', str ''passport_signing_failed'']"

section \<open>Spans\<close>

record span =
  span_name :: pystr
  span_attributes :: pydict
  span_events :: "(pystr \<times> pydict) list"
  span_error :: "pystr option"

definition set_attributes :: "pydict \<Rightarrow> span \<Rightarrow> span" where
  "set_attributes attrs sp = sp\<lparr>span_attributes := dmerge (span_attributes sp) attrs\<rparr>"

definition response_attributes :: "decision_response \<Rightarrow> pydict" where
  "response_attributes rs =
    [(str ''axg.decision'', VStr (decision_value (rs_decision rs))),
     (str ''axg.policy'', VStr (rs_plugin_version rs)),
     (str ''axg.risk.score'', VFloat (sc_risk_score (rs_scores rs))),
     (str ''axg.risk.level'', VStr (sc_risk_level (rs_scores rs))),
     (str ''axg.confidence.final'', VFloat (sc_final_confidence (rs_scores rs))),
     (str ''axg.uncertainty.score'', VFloat (sc_uncertainty_score (rs_scores rs))),
     (str ''axg.rules.triggered'', str_list (map tr_id (rs_rules_triggered rs))),
     (str ''axg.audit.flags'', str_list (rs_audit_flags rs)),
     (str ''axg.context.verified'', str_list (rs_verified_context rs))]
    @ (case nonempty (rs_passport_id rs) of None \<Rightarrow> [] | Some i \<Rightarrow> [(str ''axg.passport.id'', VStr i)])"

definition rule_event :: "triggered_rule \<Rightarrow> pystr \<times> pydict" where
  "rule_event r = (RULE_EVENT, [(str ''axg.rule.id'', VStr (tr_id r)),
     (str ''axg.rule.decision'', VStr (decision_value (tr_decision r)))])"

definition record_response :: "decision_response \<Rightarrow> span \<Rightarrow> span" where
  "record_response rs sp =
     (let failures = filter (\<lambda>flag. flag \<in> set FAILURE_FLAGS) (rs_audit_flags rs)
      in (set_attributes (response_attributes rs) sp)
         \<lparr>span_events := span_events sp @ map rule_event (rs_rules_triggered rs),
          span_error := (if failures = [] then span_error sp else Some (join (str '', '') failures))\<rparr>)"

definition request_attributes :: "decision_request \<Rightarrow> caller \<Rightarrow> pydict" where
  "request_attributes rq c =
    [(str ''axg.execution.id'', VStr (rq_execution_id rq)), (str ''axg.tenant.id'', VStr (rq_tenant_id rq)),
     (str ''axg.app.id'', VStr (rq_app_id rq)), (str ''axg.plugin.id'', VStr (rq_plugin_id rq)),
     (str ''axg.action.type'', VStr (rq_action_type rq)), (str ''axg.source'', VStr (rq_source rq)),
     (str ''axg.client.id'', VStr (cl_client_id c)), (str ''axg.shadow_mode'', VBool (rq_shadow_mode rq)),
     (str ''axg.proposal.confidence'', VFloat (llm_confidence (rq_llm rq)))]
    @ (case nonempty (llm_model (rq_llm rq)) of None \<Rightarrow> [] | Some m \<Rightarrow> [(str ''axg.proposal.model'', VStr m)])
    @ (case rq_agent rq of None \<Rightarrow> [] | Some a \<Rightarrow> [(str ''gen_ai.agent.id'', VStr (ag_id a))])"

definition metric_attributes :: "decision_request \<Rightarrow> caller \<Rightarrow> pydict" where
  "metric_attributes rq c =
    [(str ''axg.plugin.id'', VStr (rq_plugin_id rq)), (str ''axg.action.type'', VStr (rq_action_type rq)),
     (str ''axg.client.id'', VStr (cl_client_id c)), (str ''axg.shadow_mode'', VBool (rq_shadow_mode rq))]"

section \<open>Observation\<close>

text \<open>
  What one observation leaves: the span, and the attributes of each addition to the three metrics. The
  class name of an exception is an argument.
\<close>

record observation =
  ob_span :: span
  ob_decisions :: "pydict list"
  ob_rules :: "pydict list"
  ob_durations :: "pydict list"

definition rule_metric :: "decision_request \<Rightarrow> triggered_rule \<Rightarrow> pydict" where
  "rule_metric rq r = [(str ''axg.plugin.id'', VStr (rq_plugin_id rq)), (str ''axg.rule.id'', VStr (tr_id r)),
     (str ''axg.rule.decision'', VStr (decision_value (tr_decision r)))]"

definition observe_decision :: "(pyexc \<Rightarrow> pystr) \<Rightarrow> decision_request \<Rightarrow> caller \<Rightarrow> decision_response res \<Rightarrow> observation" where
  "observe_decision class_name rq c outcome =
     (let started = \<lparr>span_name = SPAN_NAME, span_attributes = request_attributes rq c, span_events = [], span_error = None\<rparr>
      in case outcome of
           Inl e \<Rightarrow> \<lparr>ob_span = started, ob_decisions = [], ob_rules = [],
             ob_durations = [AList.update (str ''error.type'') (VStr (class_name e)) (metric_attributes rq c)]\<rparr>
         | Inr rs \<Rightarrow>
             (let attrs = AList.update (str ''axg.decision'') (VStr (decision_value (rs_decision rs))) (metric_attributes rq c)
              in \<lparr>ob_span = record_response rs started, ob_decisions = [attrs],
                  ob_rules = map (rule_metric rq) (rs_rules_triggered rs), ob_durations = [attrs]\<rparr>))"

text \<open>\<open>DecisionEngine.decide\<close>.\<close>

definition decide ::
    "(pyexc \<Rightarrow> pystr) \<Rightarrow> engine_env \<Rightarrow> moment \<Rightarrow> plugin_cache \<Rightarrow> decision_request \<Rightarrow> caller
       \<Rightarrow> (decision_response res \<times> observation) \<times> plugin_cache" where
  "decide class_name en mo cache rq c =
     (case evaluate en mo cache rq c of
        (outcome, cache') \<Rightarrow> ((outcome, observe_decision class_name rq c outcome), cache'))"

definition observe_approval :: "caller \<Rightarrow> pydict \<Rightarrow> span \<times> pydict" where
  "observe_approval c filled =
     (let outcome = dmerge [(str ''axg.approval.outcome'', VStr (str ''rejected''))] filled
      in (\<lparr>span_name = str ''axg.approve'', span_attributes = dmerge [(str ''axg.client.id'', VStr (cl_client_id c))] outcome,
           span_events = [], span_error = None\<rparr>,
          [(str ''axg.client.id'', VStr (cl_client_id c)), (str ''axg.approval.outcome'', dget outcome ''axg.approval.outcome'')]))"

definition observe_introspection :: "caller \<Rightarrow> bool option \<Rightarrow> span" where
  "observe_introspection c active =
     \<lparr>span_name = str ''axg.introspect'', span_attributes = [(str ''axg.client.id'', VStr (cl_client_id c)),
        (str ''axg.introspection.active'', VBool (active = Some True))], span_events = [], span_error = None\<rparr>"

text \<open>Whether the server installs exporters: the conditions of \<open>configure_from_env\<close> in their order.\<close>

definition OTLP_ENDPOINT_VARIABLES :: "string list" where
  "OTLP_ENDPOINT_VARIABLES = [''OTEL_EXPORTER_OTLP_ENDPOINT'', ''OTEL_EXPORTER_OTLP_TRACES_ENDPOINT'',
     ''OTEL_EXPORTER_OTLP_METRICS_ENDPOINT'']"

definition configure_from_env :: "environ \<Rightarrow> bool \<Rightarrow> bool \<Rightarrow> bool" where
  "configure_from_env env provider_installed sdk_importable \<longleftrightarrow>
     py_lower (py_strip (env_get env ''OTEL_SDK_DISABLED'' [])) \<noteq> str ''true''
     \<and> list_ex (\<lambda>v. nonempty (env v) \<noteq> None) OTLP_ENDPOINT_VARIABLES
     \<and> \<not> provider_installed \<and> sdk_importable"

definition current_trace_id :: "int option \<Rightarrow> pystr option" where
  "current_trace_id context = map_option (\<lambda>trace_id. hex_bytes
     (map (\<lambda>k. trace_id div 256 ^ k mod 256) (rev [0..<16]))) context"

section \<open>What telemetry carries\<close>

text \<open>Two requests, and two responses, that differ at most in what must not leave the process.\<close>

definition same_metadata :: "decision_request \<Rightarrow> decision_request \<Rightarrow> bool" where
  "same_metadata rq rq' \<longleftrightarrow> rq' = rq\<lparr>rq_payload := rq_payload rq', rq_context := rq_context rq', rq_intent := rq_intent rq',
     rq_signed_context := rq_signed_context rq', rq_metadata := rq_metadata rq', rq_user_id := rq_user_id rq',
     rq_llm := (rq_llm rq)\<lparr>llm_raw_output := llm_raw_output (rq_llm rq')\<rparr>\<rparr>"

definition same_rules :: "triggered_rule list \<Rightarrow> triggered_rule list \<Rightarrow> bool" where
  "same_rules rs rs' \<longleftrightarrow> map (\<lambda>r. (tr_id r, tr_decision r)) rs = map (\<lambda>r. (tr_id r, tr_decision r)) rs'"

definition same_verdict :: "decision_response \<Rightarrow> decision_response \<Rightarrow> bool" where
  "same_verdict rs rs' \<longleftrightarrow> same_rules (rs_rules_triggered rs) (rs_rules_triggered rs')
     \<and> rs' = rs\<lparr>rs_passport := rs_passport rs', rs_actionable_payload := rs_actionable_payload rs', rs_reason := rs_reason rs',
       rs_metadata := rs_metadata rs', rs_approval := rs_approval rs', rs_rules_triggered := rs_rules_triggered rs'\<rparr>"

lemma same_rules_map:
  assumes "same_rules rs rs'" "\<And>r r'. tr_id r = tr_id r' \<Longrightarrow> tr_decision r = tr_decision r' \<Longrightarrow> f r = f r'"
  shows "map f rs = map f rs'"
proof (rule nth_equalityI)
  have eq: "map (\<lambda>r. (tr_id r, tr_decision r)) rs = map (\<lambda>r. (tr_id r, tr_decision r)) rs'"
    using assms(1) by (simp only: same_rules_def)
  show len: "length (map f rs) = length (map f rs')" using map_eq_imp_length_eq [OF eq] by simp
  fix i assume "i < length (map f rs)"
  then have i: "i < length rs" "i < length rs'" using len by simp_all
  then have "(tr_id (rs ! i), tr_decision (rs ! i)) = (tr_id (rs' ! i), tr_decision (rs' ! i))"
    using arg_cong [OF eq, of "\<lambda>xs. xs ! i"] by simp
  then have "f (rs ! i) = f (rs' ! i)" by (intro assms(2)) simp_all
  with i show "map f rs ! i = map f rs' ! i" by simp
qed

text \<open>
  C38. Telemetry carries decision metadata only: what an observation records does not depend on payloads,
  context, intent, signed context, request metadata, the user, reasons, Passports or approval tickets.
\<close>

theorem telemetry_hides_payload:
  assumes "same_metadata rq rq'" "same_verdict rs rs'"
  shows "observe_decision class_name rq' c (Inr rs') = observe_decision class_name rq c (Inr rs)"
proof -
  have rq: "request_attributes rq' c = request_attributes rq c" "metric_attributes rq' c = metric_attributes rq c"
    "rq_plugin_id rq' = rq_plugin_id rq"
    by (subst assms(1)[unfolded same_metadata_def], simp add: request_attributes_def metric_attributes_def)+
  have r: "same_rules (rs_rules_triggered rs) (rs_rules_triggered rs')" using assms(2) by (simp add: same_verdict_def)
  have sel: "rs_decision rs' = rs_decision rs" "rs_plugin_version rs' = rs_plugin_version rs" "rs_scores rs' = rs_scores rs"
    "rs_audit_flags rs' = rs_audit_flags rs" "rs_verified_context rs' = rs_verified_context rs" "rs_passport_id rs' = rs_passport_id rs"
    by (subst assms(2)[unfolded same_verdict_def, THEN conjunct2], simp)+
  have maps: "map tr_id (rs_rules_triggered rs') = map tr_id (rs_rules_triggered rs)"
    "map rule_event (rs_rules_triggered rs') = map rule_event (rs_rules_triggered rs)"
    "map (rule_metric rq) (rs_rules_triggered rs') = map (rule_metric rq) (rs_rules_triggered rs)"
    by (rule same_rules_map [OF r, symmetric], simp add: rule_event_def rule_metric_def)+
  have m: "rule_metric rq' = rule_metric rq" by (simp add: fun_eq_iff rule_metric_def rq(3))
  have "response_attributes rs' = response_attributes rs" by (simp add: response_attributes_def sel maps)
  then show ?thesis unfolding observe_decision_def record_response_def by (simp add: rq sel maps m Let_def)
qed

lemma telemetry_hides_payload_witness:
  "observe_decision (\<lambda>_. [])
     (example_request\<lparr>rq_payload := [(str ''iban'', VStr (str ''secret''))], rq_user_id := Some (str ''ana'')\<rparr>) example_caller
     (Inr ((fail_safe example_request (str ''down''))\<lparr>rs_reason := str ''private'', rs_passport := Some (str ''token'')\<rparr>))
   = observe_decision (\<lambda>_. []) example_request example_caller (Inr (fail_safe example_request (str ''down'')))"
proof (rule telemetry_hides_payload)
  show "same_metadata example_request (example_request\<lparr>rq_payload := [(str ''iban'', VStr (str ''secret''))], rq_user_id := Some (str ''ana'')\<rparr>)"
    by (simp add: same_metadata_def)
  show "same_verdict (fail_safe example_request (str ''down''))
     ((fail_safe example_request (str ''down''))\<lparr>rs_reason := str ''private'', rs_passport := Some (str ''token'')\<rparr>)"
    by (simp add: same_verdict_def same_rules_def)
qed

end
