(* ===== verification/Api.thy ===== *)
theory Api
  imports Telemetry Approvals AuditSink RequestLimits
begin

text \<open>
  \<open>axg/api.py\<close>: the HTTP endpoints over the engine, the approval service, the rate limiter and the audit
  log. FastAPI's routing and its parsing of bodies into the models are not under the sources: an endpoint
  is given its parsed request. The background task of a request runs after its response; logging has no
  result. \<open>Http\<close> is an \<open>HTTPException\<close>, \<open>Crash\<close> an exception that escapes (a 500).
\<close>

section \<open>State and outcomes\<close>

record api_state =
  st_cache :: plugin_cache
  st_windows :: rate_windows
  st_audit :: audit_manager

record api_call =
  hc_moment :: moment
  hc_time :: rat
  hc_audit :: audit_moment
  hc_class_name :: "pyexc \<Rightarrow> pystr"

datatype http_error = Http int pystr "(pystr \<times> pystr) list" | Crash pyexc

abbreviation api_environ :: "engine_env \<Rightarrow> environ" where
  "api_environ en \<equiv> le_environ (en_loader en)"

definition BEARER_CHALLENGE :: "(pystr \<times> pystr) list" where
  "BEARER_CHALLENGE = [(str ''WWW-Authenticate'', str ''Bearer'')]"

section \<open>Callers\<close>

definition resolve_caller :: "engine_env \<Rightarrow> pystr option \<Rightarrow> http_error + caller" where
  "resolve_caller en authorization =
     (case nonempty authorization of
        Some header \<Rightarrow>
          (case partition_at 32 header of (scheme, _, rest) \<Rightarrow>
             let api_key = py_strip rest
             in if py_lower scheme = str ''bearer'' \<and> api_key \<noteq> []
                then (case authenticate (sha_hex (en_lib en)) (api_environ en) api_key of
                        Inl e \<Rightarrow> Inl (Crash e)
                      | Inr None \<Rightarrow> Inl (Http 401 (str ''Invalid API key'') BEARER_CHALLENGE)
                      | Inr (Some c) \<Rightarrow> Inr c)
                else Inl (Http 401 (str ''Invalid API key'') BEARER_CHALLENGE))
      | None \<Rightarrow>
          (case auth_mode (api_environ en) of
             Inl e \<Rightarrow> Inl (Crash e)
           | Inr Optional_mode \<Rightarrow> Inr ANONYMOUS
           | Inr Required \<Rightarrow> Inl (Http 401 (str ''API key required'') BEARER_CHALLENGE)))"

definition rate_limited :: "engine_env \<Rightarrow> rat \<Rightarrow> caller \<Rightarrow> api_state \<Rightarrow> (http_error + unit) \<times> api_state" where
  "rate_limited en now c st =
     (case rate_check (api_environ en) now (cl_client_id c) (st_windows st) of (r, ws) \<Rightarrow>
        (case r of
           Inl e \<Rightarrow> Inl (Crash e)
         | Inr None \<Rightarrow> Inr ()
         | Inr (Some s) \<Rightarrow> Inl (Http 429 (str ''Rate limit exceeded'') [(str ''Retry-After'', int_str s)]),
         st\<lparr>st_windows := ws\<rparr>))"

section \<open>Audit records\<close>

fun status_value :: "execution_status \<Rightarrow> pystr" where
  "status_value PENDING = str ''pending''"
| "status_value RUNNING = str ''running''"
| "status_value COMPLETED = str ''completed''"
| "status_value FAILED = str ''failed''"

definition execution_record_dump :: "execution_record \<Rightarrow> pydict" where
  "execution_record_dump er =
    [(str ''schema_version'', VStr (str ''axg.execution_record.v2'')),
     (str ''execution_id'', VStr (er_execution_id er)), (str ''tenant_id'', VStr (er_tenant_id er)),
     (str ''app_id'', VStr (er_app_id er)), (str ''plugin_id'', VStr (er_plugin_id er)),
     (str ''source'', VStr (er_source er)), (str ''requested_by'', opt_str (er_requested_by er)),
     (str ''agent_id'', opt_str (er_agent_id er)), (str ''input_hash'', opt_str (er_input_hash er)),
     (str ''action_type'', VStr (er_action_type er)), (str ''proposal_model'', opt_str (er_proposal_model er)),
     (str ''proposal_confidence'', VFloat (er_proposal_confidence er)),
     (str ''intent_fallback_used'', VBool (er_intent_fallback_used er)),
     (str ''decision'', VStr (decision_value (er_decision er))), (str ''policy'', VStr (er_policy er)),
     (str ''risk_score'', VFloat (er_risk_score er)), (str ''risk_level'', VStr (er_risk_level er)),
     (str ''rules_triggered'', str_list (er_rules_triggered er)), (str ''audit_flags'', str_list (er_audit_flags er)),
     (str ''passport_id'', opt_str (er_passport_id er)),
     (str ''human_confirmation_required'', VBool (er_human_confirmation_required er)),
     (str ''shadow_mode'', VBool (er_shadow_mode er)), (str ''verified_context'', str_list (er_verified_context er)),
     (str ''execution_status'', VStr (status_value (er_execution_status er))), (str ''execution_result'', VNone),
     (str ''error'', VNone), (str ''created_at'', VStr (er_created_at er)), (str ''metadata'', VDict (er_metadata er)),
     (str ''trace_id'', opt_str (er_trace_id er))]"

definition approval_record_dump :: "approval_record \<Rightarrow> pydict" where
  "approval_record_dump al =
    [(str ''schema_version'', VStr (str ''axg.approval_record.v1'')),
     (str ''execution_id'', VStr (al_execution_id al)), (str ''tenant_id'', VStr (al_tenant_id al)),
     (str ''app_id'', VStr (al_app_id al)), (str ''action_type'', VStr (al_action_type al)),
     (str ''policy'', VStr (al_policy al)), (str ''ticket_id'', VStr (al_ticket_id al)),
     (str ''payload_hash'', VStr (al_payload_hash al)), (str ''approver_id'', VStr (al_approver_id al)),
     (str ''approver_role'', VStr (al_approver_role al)), (str ''outcome'', VStr (al_outcome al)),
     (str ''client_id'', VStr (al_client_id al)), (str ''passport_id'', opt_str (al_passport_id al)),
     (str ''created_at'', VStr (al_created_at al)), (str ''trace_id'', opt_str (al_trace_id al))]"

definition audit :: "engine_env \<Rightarrow> api_call \<Rightarrow> pydict \<Rightarrow> api_state \<Rightarrow> api_state" where
  "audit en hc event st =
     st\<lparr>st_audit := fst (record_decision (sha_hex (en_lib en)) (hc_audit hc) (st_audit st) event)\<rparr>"

section \<open>Endpoints\<close>

text \<open>\<open>POST /v1/decisions\<close>. The last component is the log given to the audit sinks, if any.\<close>

definition decide_endpoint ::
    "engine_env \<Rightarrow> api_call \<Rightarrow> decision_request \<Rightarrow> caller \<Rightarrow> api_state \<Rightarrow> (http_error + decision_response) \<times> api_state \<times> pydict option" where
  "decide_endpoint en hc rq c st =
     (if \<not> may_act_for c (rq_app_id rq)
      then (Inl (Http 403 (str ''Caller is not allowed to request decisions for this app'') []), st, None)
      else (case rate_limited en (hc_time hc) c st of
          (Inl e, st') \<Rightarrow> (Inl e, st', None)
        | (Inr _, st') \<Rightarrow>
            (case decide (hc_class_name hc) en (hc_moment hc) (st_cache st') rq c of ((outcome, _), cache') \<Rightarrow>
               (case rbind outcome (\<lambda>rs. rmap (Pair rs) (get_execution_record en (hc_moment hc) rq rs)) of
                  Inl e \<Rightarrow> (Inl (Crash e), st'\<lparr>st_cache := cache'\<rparr>, None)
                | Inr (rs, er) \<Rightarrow>
                    (Inr rs, audit en hc (execution_record_dump er) (st'\<lparr>st_cache := cache'\<rparr>),
                     Some (execution_record_dump er))))))"

definition create_decision ::
    "engine_env \<Rightarrow> api_call \<Rightarrow> pystr option \<Rightarrow> decision_request \<Rightarrow> api_state \<Rightarrow> (http_error + decision_response) \<times> api_state \<times> pydict option" where
  "create_decision en hc authorization rq st =
     (case resolve_caller en authorization of
        Inl e \<Rightarrow> (Inl e, st, None)
      | Inr c \<Rightarrow> decide_endpoint en hc rq c st)"

text \<open>\<open>POST /v1/approvals\<close>.\<close>

definition submit_endpoint ::
    "engine_env \<Rightarrow> api_call \<Rightarrow> pystr option \<Rightarrow> approval_request \<Rightarrow> api_state \<Rightarrow> (http_error + approval_response) \<times> api_state \<times> pydict option" where
  "submit_endpoint en hc authorization aq st =
     (case resolve_caller en authorization of
        Inl e \<Rightarrow> (Inl e, st, None)
      | Inr c \<Rightarrow>
          (case rate_limited en (hc_time hc) c st of
             (Inl e, st') \<Rightarrow> (Inl e, st', None)
           | (Inr _, st') \<Rightarrow>
               (case submit en (hc_moment hc) (st_cache st') aq c of
                  (Inl (Rejected status detail), cache') \<Rightarrow> (Inl (Http status detail []), st'\<lparr>st_cache := cache'\<rparr>, None)
                | (Inl (Raised e), cache') \<Rightarrow> (Inl (Crash e), st'\<lparr>st_cache := cache'\<rparr>, None)
                | (Inr (answer, al), cache') \<Rightarrow>
                    (Inr answer, audit en hc (approval_record_dump al) (st'\<lparr>st_cache := cache'\<rparr>),
                     Some (approval_record_dump al)))))"

text \<open>\<open>POST /v1/passports/introspect\<close>.\<close>

record introspection_request =
  iq_passport :: pystr
  iq_action_type :: "pystr option"
  iq_actionable_payload :: "pydict option"

text \<open>\<open>caller.may_act_for(claims["aud"])\<close>: a claim that is not a string is no app id.\<close>

definition may_act_for_claim :: "caller \<Rightarrow> pydict \<Rightarrow> bool res" where
  "may_act_for_claim c claims =
     (case map_of claims (str ''aud'') of
        None \<Rightarrow> Inl (KeyError (str ''aud''))
      | Some (VStr a) \<Rightarrow> Inr (may_act_for c a)
      | Some v \<Rightarrow> if WILDCARD \<in> cl_app_ids c then Inr True else if hashable v then Inr False else Inl TypeError)"

definition introspect_endpoint ::
    "engine_env \<Rightarrow> api_call \<Rightarrow> pystr option \<Rightarrow> introspection_request \<Rightarrow> api_state \<Rightarrow> (http_error + introspection_response) \<times> api_state" where
  "introspect_endpoint en hc authorization iq st =
     (case resolve_caller en authorization of
        Inl e \<Rightarrow> (Inl e, st)
      | Inr c \<Rightarrow>
          if \<not> cl_authenticated c
          then (Inl (Http 401 (str ''Introspection requires an authenticated caller'') BEARER_CHALLENGE), st)
          else (case rate_limited en (hc_time hc) c st of
              (Inl e, st') \<Rightarrow> (Inl e, st')
            | (Inr _, st') \<Rightarrow>
                (case introspect_passport (en_lib en) (api_environ en) (en_keys en) (mo_now (hc_moment hc)) (iq_passport iq)
                        (iq_action_type iq) (iq_actionable_payload iq) of
                   Inl e \<Rightarrow> (Inl (Crash e), st')
                 | Inr (Inactive why) \<Rightarrow> (Inr \<lparr>in_active = False, in_reason = Some why, in_claims = None\<rparr>, st')
                 | Inr (Active claims) \<Rightarrow>
                     (case may_act_for_claim c claims of
                        Inl e \<Rightarrow> Inl (Crash e)
                      | Inr ok \<Rightarrow> Inr (if ok then \<lparr>in_active = True, in_reason = None, in_claims = Some claims\<rparr>
                                      else \<lparr>in_active = False, in_reason = None, in_claims = None\<rparr>), st'))))"

text \<open>\<open>GET /health\<close> does not depend on the state.\<close>

definition health_check :: pydict where
  "health_check = [(str ''status'', VStr (str ''ok'')), (str ''service'', VStr (str ''axg''))]"

text \<open>\<open>POST /v1/plugins/reload\<close>, \<open>GET /v1/certs\<close> and \<open>GET /.well-known/jwks.json\<close>.\<close>

definition reload_plugins :: "engine_env \<Rightarrow> pystr option \<Rightarrow> api_state \<Rightarrow> (http_error + unit) \<times> api_state" where
  "reload_plugins en authorization st =
     (case nonempty (api_environ en ''AXG_ADMIN_TOKEN'') of
        None \<Rightarrow> (Inl (Http 401 (str ''AXG_ADMIN_TOKEN is not configured'') []), st)
      | Some expected \<Rightarrow>
          (case nonempty authorization of
             None \<Rightarrow> (Inl (Http 401 (str ''Unauthorized'') []), st)
           | Some presented \<Rightarrow>
               (case compare_digest presented (str ''Bearer '' @ expected) of
                  Inl e \<Rightarrow> (Inl (Crash e), st)
                | Inr same \<Rightarrow>
                    if same then (Inr (), st\<lparr>st_cache := clear_cache (st_cache st)\<rparr>)
                    else (Inl (Http 401 (str ''Unauthorized'') []), st))))"

definition get_certs :: "engine_env \<Rightarrow> http_error + pydict" where
  "get_certs en =
     (case kid (en_lib en) (en_keys en) of
        Inl e \<Rightarrow> Inl (Crash e)
      | Inr k \<Rightarrow> Inr [(str ''public_key'', VStr (km_public (en_keys en))), (str ''kid'', VStr k), (str ''alg'', VStr (str ''RS256''))])"

definition get_jwks_endpoint :: "engine_env \<Rightarrow> http_error + jwk list" where
  "get_jwks_endpoint en =
     (case get_jwks (en_lib en) (api_environ en) (en_keys en) of Inl e \<Rightarrow> Inl (Crash e) | Inr keys \<Rightarrow> Inr keys)"

end
