(* ===== verification/ApiFacts.thy ===== *)
theory ApiFacts
  imports Api Decisions
begin

text \<open>
  What holds of the API as a whole: who gets an ALLOW over the network, that every answer has its audit
  record and no refusal has one, and whom introspection tells what.
\<close>

section \<open>The caller of a request\<close>

lemma evaluate_ALLOW_authenticated:
  assumes "evaluate en mo cache rq c = (Inr rs, cache')" "rs_decision rs = ALLOW"
  shows "cl_authenticated c"
proof -
  obtain p where "evaluate_policy en mo p rq c = Inr rs" by (rule evaluate_ALLOW_loaded [OF assms])
  then obtain verified triggered sc v gate where e: "requires_confirmation p rq sc = Inr gate"
    "first_verdict p rq triggered sc c = Inr v" "rs = response_of en mo p rq c verified triggered sc v"
    by (rule evaluate_policyD)
  have "vd_decision (after_authentication c (after_context verified (missing_context p rq verified) v)) = ALLOW"
    using assms(2) unfolding e(3) by (cases rule: response_of_cases [of en mo p rq c verified triggered sc v]) simp_all
  then show ?thesis by (simp add: revised_decision [OF e(2,1)] spec_verdict_ALLOW)
qed

lemma resolve_caller_authenticated:
  assumes "resolve_caller en authorization = Inr c" "cl_authenticated c"
  obtains header scheme rest where "authorization = Some header" "partition_at 32 header = (scheme, True, rest)"
    "py_lower scheme = str ''bearer''" "py_strip rest \<noteq> []"
    "authenticate (sha_hex (en_lib en)) (api_environ en) (py_strip rest) = Inr (Some c)"
proof (cases "nonempty authorization")
  case None
  with assms show thesis by (auto simp: resolve_caller_def ANONYMOUS_def split: sum.splits auth_mode_kind.splits)
next
  case (Some header)
  obtain scheme found rest where p: "partition_at 32 header = (scheme, found, rest)" by (metis prod.exhaust)
  from Some assms p have a: "py_lower scheme = str ''bearer''" "py_strip rest \<noteq> []"
    "authenticate (sha_hex (en_lib en)) (api_environ en) (py_strip rest) = Inr (Some c)"
    by (auto simp: resolve_caller_def Let_def split: sum.splits option.splits if_splits)
  have "found"
    using p a(2) by (auto simp: partition_at_def py_strip_def split: if_splits)
  with p a that Some show thesis by (auto simp: nonempty_def split: option.splits if_splits)
qed

lemma create_decision_answer:
  assumes "create_decision en hc authorization rq st = (Inr rs, st', event)"
  obtains c ws cache' er where "resolve_caller en authorization = Inr c" "may_act_for c (rq_app_id rq)"
    "rate_limited en (hc_time hc) c st = (Inr (), st\<lparr>st_windows := ws\<rparr>)"
    "evaluate en (hc_moment hc) (st_cache st) rq c = (Inr rs, cache')"
    "get_execution_record en (hc_moment hc) rq rs = Inr er" "event = Some (execution_record_dump er)"
    "st' = audit en hc (execution_record_dump er) (st\<lparr>st_windows := ws, st_cache := cache'\<rparr>)"
  using assms
  by (auto simp: create_decision_def decide_endpoint_def rate_limited_def decide_def rbind_eq_Inr rmap_eq_Inr
      split: sum.splits if_splits prod.splits option.splits)

lemma create_decision_refusal:
  assumes "create_decision en hc authorization rq st = (Inl e, st', event)"
  shows "event = None \<and> st_audit st' = st_audit st"
  using assms
  by (auto simp: create_decision_def decide_endpoint_def rate_limited_def
      split: sum.splits if_splits prod.splits option.splits)

section \<open>An example service\<close>

definition service_environ :: environ where
  "service_environ = (\<lambda>n. if n = ''AXG_CLIENTS'' then
     Some (str (''[{'' @ [CHR 0x22] @ ''client_id'' @ [CHR 0x22] @ '':'' @ [CHR 0x22] @ ''orchestrator'' @ [CHR 0x22] @ '',''
       @ [CHR 0x22] @ ''key_sha256'' @ [CHR 0x22] @ '':'' @ [CHR 0x22]) @ hex_bytes (replicate 32 3)
       @ str ([CHR 0x22] @ '','' @ [CHR 0x22] @ ''app_ids'' @ [CHR 0x22] @ '':['' @ [CHR 0x22] @ ''*'' @ [CHR 0x22] @ ''],''
       @ [CHR 0x22] @ ''permissions'' @ [CHR 0x22] @ '':['' @ [CHR 0x22] @ ''pay:send'' @ [CHR 0x22] @ '']}]'')) else None)"

definition service_engine :: engine_env where
  "service_engine = example_engine\<lparr>en_loader := example_env\<lparr>le_environ := service_environ\<rparr>\<rparr>"

definition service_state :: api_state where
  "service_state = \<lparr>st_cache = [(str ''demo'', example_plugin)], st_windows = [],
     st_audit = \<lparr>am_file = None, am_webhook = None\<rparr>\<rparr>"

definition service_call :: api_call where
  "service_call = \<lparr>hc_moment = example_moment, hc_time = 0,
     hc_audit = \<lparr>au_stamp_file = [], au_stamp_webhook = [], au_io = \<lparr>io_readable = True, io_append = Appended\<rparr>, au_post = (\<lambda>_. True)\<rparr>, hc_class_name = (\<lambda>_. [])\<rparr>"

definition service_key :: pystr where
  "service_key = str ''Bearer key''"

lemma service_environ_simps: "api_environ service_engine = service_environ" "en_lib service_engine = en_lib example_engine"
  "en_context service_engine = en_context example_engine" "en_keys service_engine = en_keys example_engine"
  by (simp_all add: service_engine_def)

lemma service_authenticate:
  "authenticate (sha_hex (en_lib example_engine)) service_environ (str ''key'') = Inr (Some example_caller)"
proof -
  have "load_clients service_environ = Inr [[(str ''client_id'', VStr (str ''orchestrator'')),
      (str ''key_sha256'', VStr (hex_bytes (replicate 32 3))), (str ''app_ids'', VList [VStr (str ''*'')]),
      (str ''permissions'', VList [VStr (str ''pay:send'')])]]" by code_simp
  moreover have "sha_hex (en_lib example_engine) (str ''key'') = hex_bytes (replicate 32 3)"
    "py_lower (hex_bytes (replicate 32 3)) = hex_bytes (replicate 32 3)" "is_ascii (hex_bytes (replicate 32 3))"
    "encode_utf8 (str ''key'') = Inr (str ''key'')"
    by code_simp+
  ultimately show ?thesis
    by (simp add: authenticate_def hash_api_key_def client_caller_def dget_def compare_digest_def frozen_strings_def
        service_environ_simps example_caller_def WILDCARD_def)
qed

lemma service_resolve: "resolve_caller service_engine (Some service_key) = Inr example_caller"
proof -
  have "nonempty (Some service_key) = Some service_key" "partition_at 32 service_key = (str ''Bearer'', True, str ''key'')"
    "py_strip (str ''key'') = str ''key''" "py_lower (str ''Bearer'') = str ''bearer''" "str ''key'' \<noteq> []"
    by code_simp+
  then show ?thesis by (simp add: resolve_caller_def Let_def service_environ_simps service_authenticate)
qed

lemma service_evaluate:
  assumes "rq_plugin_id rq = str ''demo''"
  shows "evaluate service_engine example_moment (st_cache service_state) rq c
    = (fst (evaluate example_engine example_moment [] rq c), st_cache service_state)"
proof -
  have "response_of service_engine example_moment p rq c = response_of example_engine example_moment p rq c" for p
    by (intro ext) (simp only: response_of_def after_signing_def approval_challenge_for_def service_environ_simps)
  then have "evaluate_policy service_engine example_moment p rq c = evaluate_policy example_engine example_moment p rq c" for p
    by (simp add: evaluate_policy_def service_environ_simps)
  with assms example_load_local show ?thesis
    by (simp add: evaluate_def load_def service_state_def example_engine_def)
qed

lemma service_admits: "rate_limited service_engine 0 example_caller service_state
    = (Inr (), service_state\<lparr>st_windows := [(cl_client_id example_caller, 0, 1)]\<rparr>)"
proof -
  have "rate_limit_per_minute service_environ = Inr DEFAULT_RATE_LIMIT_PER_MINUTE" by code_simp
  moreover have "check_window DEFAULT_RATE_LIMIT_PER_MINUTE 0 (cl_client_id example_caller) []
      = (None, [(cl_client_id example_caller, 0, 1)])"
    by (simp add: check_window_def window_of_def DEFAULT_RATE_LIMIT_PER_MINUTE_def)
  ultimately show ?thesis
    by (simp add: rate_limited_def rate_check_def service_environ_simps service_state_def)
qed

lemma service_allows:
  obtains rs st' event where
    "create_decision service_engine service_call (Some service_key) example_request service_state = (Inr rs, st', event)"
    "rs_decision rs = ALLOW"
proof -
  obtain rs cache where e: "evaluate example_engine example_moment [] example_request example_caller = (Inr rs, cache)"
    "rs_decision rs = ALLOW" "rs_passport rs = Some (str ''tok'')" "rs_approval rs = None"
    by (rule example_outcomeD [OF example_allowed])
  have id: "rq_plugin_id example_request = str ''demo''" "may_act_for example_caller (rq_app_id example_request)"
    by (simp_all add: example_request_def may_act_for_def example_caller_def)
  have "isl (hash_payload (en_lib example_engine) (rq_payload example_request)) = False" by code_simp
  then obtain hash where h: "hash_payload (en_lib example_engine) (rq_payload example_request) = Inr hash"
    by (cases "hash_payload (en_lib example_engine) (rq_payload example_request)") simp_all
  have "\<exists>er. get_execution_record service_engine example_moment example_request rs = Inr er"
    by (simp add: get_execution_record_def service_environ_simps h)
  then obtain er where er: "get_execution_record service_engine example_moment example_request rs = Inr er" ..
  show thesis
    by (rule that [OF _ e(2)])
      (simp add: create_decision_def service_resolve decide_endpoint_def id service_call_def service_admits
        decide_def service_evaluate e(1) er service_state_def [symmetric])
qed

definition service_claims :: pydict where
  "service_claims = passport_dump (passport_of example_signing example_payload_hash 1000 (str ''u1''))"

definition service_question :: introspection_request where
  "service_question = \<lparr>iq_passport = str ''tok'', iq_action_type = Some (str ''pay''), iq_actionable_payload = None\<rparr>"

lemma service_introspects:
  obtains st' where "introspect_endpoint service_engine service_call (Some service_key) service_question service_state
    = (Inr \<lparr>in_active = True, in_reason = None, in_claims = Some service_claims\<rparr>, st')"
proof -
  have "introspect_passport (en_lib example_engine) service_environ (en_keys example_engine) 1000 (str ''tok'')
      (Some (str ''pay'')) None = Inr (Active service_claims)" by code_simp
  moreover have "map_of service_claims (str ''aud'') = Some (VStr (str ''app''))" by code_simp
  moreover have "cl_authenticated example_caller" "may_act_for example_caller (str ''app'')" "mo_now example_moment = 1000"
    by (simp_all add: example_caller_def may_act_for_def example_moment_def)
  ultimately show thesis
    by (intro that) (simp add: introspect_endpoint_def service_resolve service_call_def service_admits service_question_def
        service_environ_simps may_act_for_claim_def)
qed

section \<open>Properties\<close>

text \<open>
  C5. Over the network an ALLOW, and with it a Passport, is only given to a configured client: the request
  carried a bearer key that authenticates as a caller who may act for the request's app and had calls left.
\<close>

theorem network_allow_is_authenticated:
  assumes "create_decision en hc authorization rq st = (Inr rs, st', event)" "rs_decision rs = ALLOW"
  shows "\<exists>header scheme rest c. authorization = Some header \<and> partition_at 32 header = (scheme, True, rest)
    \<and> py_lower scheme = str ''bearer''
    \<and> authenticate (sha_hex (en_lib en)) (api_environ en) (py_strip rest) = Inr (Some c)
    \<and> cl_authenticated c \<and> may_act_for c (rq_app_id rq)
    \<and> fst (rate_check (api_environ en) (hc_time hc) (cl_client_id c) (st_windows st)) = Inr None"
proof -
  from assms(1) obtain c ws cache' er where c: "resolve_caller en authorization = Inr c" "may_act_for c (rq_app_id rq)"
    "rate_limited en (hc_time hc) c st = (Inr (), st\<lparr>st_windows := ws\<rparr>)"
    "evaluate en (hc_moment hc) (st_cache st) rq c = (Inr rs, cache')"
    by (rule create_decision_answer)
  have auth: "cl_authenticated c" by (rule evaluate_ALLOW_authenticated [OF c(4) assms(2)])
  have "fst (rate_check (api_environ en) (hc_time hc) (cl_client_id c) (st_windows st)) = Inr None"
    using c(3) by (auto simp: rate_limited_def split: prod.splits sum.splits option.splits)
  with resolve_caller_authenticated [OF c(1) auth] c(2) auth show ?thesis by metis
qed

lemma network_allow_is_authenticated_witness:
  "\<exists>rs st' event. create_decision service_engine service_call (Some service_key) example_request service_state
     = (Inr rs, st', event) \<and> rs_decision rs = ALLOW
   \<and> (\<exists>rest c. partition_at 32 service_key = (str ''Bearer'', True, rest)
       \<and> authenticate (sha_hex (en_lib service_engine)) service_environ (py_strip rest) = Inr (Some c)
       \<and> may_act_for c (rq_app_id example_request))"
proof -
  obtain rs st' event where d: "create_decision service_engine service_call (Some service_key) example_request service_state
      = (Inr rs, st', event)" "rs_decision rs = ALLOW" by (rule service_allows)
  have "fst (partition_at 32 service_key) = str ''Bearer''" by code_simp
  with network_allow_is_authenticated [OF d] d show ?thesis by (force simp: service_environ_simps)
qed

text \<open>
  C17. Every decision that is answered is audited, and nothing else is: the audit sinks are given exactly
  one record per answer, with the request's execution id, the decision, the policy, the Passport id and the
  hash of the request's payload; a refused or failed request changes no sink.
\<close>

theorem decision_is_audited:
  assumes "create_decision en hc authorization rq st = (r, st', event)"
  shows "case r of
      Inl e \<Rightarrow> event = None \<and> st_audit st' = st_audit st
    | Inr rs \<Rightarrow> (\<exists>d hash. event = Some d \<and> dget d ''execution_id'' = VStr (rq_execution_id rq)
        \<and> dget d ''decision'' = VStr (decision_value (rs_decision rs)) \<and> dget d ''policy'' = VStr (rs_plugin_version rs)
        \<and> dget d ''passport_id'' = opt_str (rs_passport_id rs)
        \<and> hash_payload (en_lib en) (rq_payload rq) = Inr hash \<and> dget d ''input_hash'' = VStr hash
        \<and> st_audit st' = fst (record_decision (sha_hex (en_lib en)) (hc_audit hc) (st_audit st) d))"
proof (cases r)
  case (Inl e)
  with assms create_decision_refusal show ?thesis by simp
next
  case (Inr rs)
  with assms obtain ws cache' er where e: "get_execution_record en (hc_moment hc) rq rs = Inr er"
    "event = Some (execution_record_dump er)"
    "st' = audit en hc (execution_record_dump er) (st\<lparr>st_windows := ws, st_cache := cache'\<rparr>)"
    by (metis create_decision_answer)
  from e(1) obtain hash where h: "hash_payload (en_lib en) (rq_payload rq) = Inr hash"
    and er: "er_execution_id er = rq_execution_id rq" "er_decision er = rs_decision rs" "er_policy er = rs_plugin_version rs"
      "er_passport_id er = rs_passport_id rs" "er_input_hash er = Some hash"
    by (auto simp: get_execution_record_def rmap_eq_Inr)
  have "dget (execution_record_dump er) ''execution_id'' = VStr (rq_execution_id rq)"
    "dget (execution_record_dump er) ''decision'' = VStr (decision_value (rs_decision rs))"
    "dget (execution_record_dump er) ''policy'' = VStr (rs_plugin_version rs)"
    "dget (execution_record_dump er) ''passport_id'' = opt_str (rs_passport_id rs)"
    "dget (execution_record_dump er) ''input_hash'' = VStr hash"
    by (simp_all add: execution_record_dump_def dget_Cons er opt_str_def)
  with h e(2,3) Inr show ?thesis by (auto simp: audit_def)
qed

lemma decision_is_audited_witness:
  "\<exists>d. snd (snd (create_decision service_engine service_call (Some service_key) example_request service_state)) = Some d
     \<and> dget d ''execution_id'' = VStr (str ''e1'') \<and> dget d ''decision'' = VStr (str ''ALLOW'')"
proof -
  obtain rs st' event where d: "create_decision service_engine service_call (Some service_key) example_request service_state
      = (Inr rs, st', event)" "rs_decision rs = ALLOW" by (rule service_allows)
  from decision_is_audited [OF d(1)] d show ?thesis by (auto simp: example_request_def)
qed

text \<open>
  Introspection is scoped: claims are returned only to an authenticated caller who may act for the
  Passport's audience.
\<close>

theorem introspection_is_scoped:
  assumes "introspect_endpoint en hc authorization iq st = (Inr answer, st')" "in_claims answer = Some claims"
  shows "\<exists>c. resolve_caller en authorization = Inr c \<and> cl_authenticated c
    \<and> (WILDCARD \<in> cl_app_ids c \<or> (\<exists>a. dget claims ''aud'' = VStr a \<and> a \<in> cl_app_ids c))
    \<and> introspect_passport (en_lib en) (api_environ en) (en_keys en) (mo_now (hc_moment hc)) (iq_passport iq)
        (iq_action_type iq) (iq_actionable_payload iq) = Inr (Active claims)"
  using assms
  by (auto simp: introspect_endpoint_def may_act_for_claim_def may_act_for_def dget_def
      split: sum.splits if_splits prod.splits introspection.splits option.splits pyval.splits)

lemma introspection_is_scoped_witness:
  "\<exists>c. resolve_caller service_engine (Some service_key) = Inr c \<and> cl_authenticated c
     \<and> (WILDCARD \<in> cl_app_ids c \<or> str ''app'' \<in> cl_app_ids c)"
proof -
  obtain st' where i: "introspect_endpoint service_engine service_call (Some service_key) service_question service_state
    = (Inr \<lparr>in_active = True, in_reason = None, in_claims = Some service_claims\<rparr>, st')" by (rule service_introspects)
  have "dget service_claims ''aud'' = VStr (str ''app'')" by code_simp
  with introspection_is_scoped [OF i] show ?thesis by auto
qed

end
