(* ===== verification/PyBytes.thy ===== *)
theory PyBytes
  imports Crypto
begin

text \<open>
  What the integrations ask of Python's library on bytes: UTF-8 decoding, \<open>json.loads\<close> of bytes with its
  guess of the encoding, \<open>base64.urlsafe_b64decode\<close>, and \<open>str.split()\<close>. Bytes are the integers 0 to 255.
  UTF-16 and UTF-32 texts are decoded by a parameter.
\<close>

section \<open>UTF-8\<close>

definition is_cont :: "int \<Rightarrow> bool" where
  "is_cont b \<longleftrightarrow> 128 \<le> b \<and> b \<le> 191"

text \<open>
  One character. Overlong forms and numbers beyond U+10FFFF are refused, and so are surrogates, unless
  the error handler is \<open>surrogatepass\<close>.
\<close>

definition utf8_next :: "bool \<Rightarrow> int list \<Rightarrow> (int \<times> int list) option" where
  "utf8_next surrogates bs =
     (case bs of
        [] \<Rightarrow> None
      | a # r \<Rightarrow>
          if a < 128 then Some (a, r)
          else if 194 \<le> a \<and> a \<le> 223
          then (case r of b # r' \<Rightarrow> if is_cont b then Some ((a - 192) * 64 + (b - 128), r') else None | _ \<Rightarrow> None)
          else if 224 \<le> a \<and> a \<le> 239
          then (case r of
                  b # c # r' \<Rightarrow>
                    (let u = (a - 224) * 4096 + (b - 128) * 64 + (c - 128)
                     in if is_cont b \<and> is_cont c \<and> 2048 \<le> u \<and> (surrogates \<or> \<not> is_surrogate u) then Some (u, r') else None)
                | _ \<Rightarrow> None)
          else if 240 \<le> a \<and> a \<le> 244
          then (case r of
                  b # c # d # r' \<Rightarrow>
                    (let u = (a - 240) * 262144 + (b - 128) * 4096 + (c - 128) * 64 + (d - 128)
                     in if is_cont b \<and> is_cont c \<and> is_cont d \<and> 65536 \<le> u \<and> u \<le> 1114111 then Some (u, r') else None)
                | _ \<Rightarrow> None)
          else None)"

lemma utf8_next_shorter: "utf8_next surrogates bs = Some (c, r) \<Longrightarrow> length r < length bs"
  by (auto simp: utf8_next_def Let_def split: list.splits if_splits)

function utf8_chars :: "bool \<Rightarrow> int list \<Rightarrow> pystr res" where
  "utf8_chars surrogates bs =
     (if bs = [] then Inr []
      else (case utf8_next surrogates bs of
              None \<Rightarrow> Inl UnicodeError
            | Some (c, r) \<Rightarrow> rmap ((#) c) (utf8_chars surrogates r)))"
  by pat_completeness auto
termination
  by (relation "measure (\<lambda>(_, bs). length bs)") (auto dest: utf8_next_shorter)

declare utf8_chars.simps [simp del]

definition decode_utf8 :: "int list \<Rightarrow> pystr res" where
  "decode_utf8 bs = utf8_chars False bs"

lemma div_digits:
  fixes c :: int
  shows "c div 4096 = c div 64 div 64" "c div 262144 = c div 64 div 64 div 64"
  using zdiv_zmult2_eq [of 64 c 64] zdiv_zmult2_eq [of 64 "c div 64" 64] zdiv_zmult2_eq [of 4096 c 64] by simp_all

lemma split_64:
  fixes c :: int
  obtains u s where "0 \<le> s" "s < 64" "c = u * 64 + s" "c div 64 = u" "c mod 64 = s"
  by (rule that [of "c mod 64" "c div 64"]) simp_all

lemma utf8_digits:
  fixes c :: int
  obtains p q r s where "0 \<le> q" "q < 64" "0 \<le> r" "r < 64" "0 \<le> s" "s < 64" "c = p * 262144 + q * 4096 + r * 64 + s"
    "c div 262144 = p" "c div 4096 = p * 64 + q" "c div 64 = (p * 64 + q) * 64 + r"
    "c div 4096 mod 64 = q" "c div 64 mod 64 = r" "c mod 64 = s"
proof -
  obtain u s where u: "0 \<le> s" "s < 64" "c = u * 64 + s" "c div 64 = u" "c mod 64 = s" by (rule split_64)
  obtain v r where v: "0 \<le> r" "r < 64" "u = v * 64 + r" "u div 64 = v" "u mod 64 = r" by (rule split_64)
  obtain p q where w: "0 \<le> q" "q < 64" "v = p * 64 + q" "v div 64 = p" "v mod 64 = q" by (rule split_64)
  show thesis
    by (rule that [OF w(1,2) v(1,2) u(1,2)]) (simp_all only: div_digits u(4,5) v(4,5) w(4,5), simp_all only: u(3) v(3) w(3), simp_all)
qed

lemma utf8_next_bytes:
  "a < 128 \<Longrightarrow> utf8_next sp (a # x) = Some (a, x)"
  "2 \<le> p \<Longrightarrow> p < 32 \<Longrightarrow> 0 \<le> q \<Longrightarrow> q < 64 \<Longrightarrow> utf8_next sp ((192 + p) # (128 + q) # x) = Some (p * 64 + q, x)"
  "0 \<le> p \<Longrightarrow> p < 16 \<Longrightarrow> 0 \<le> q \<Longrightarrow> q < 64 \<Longrightarrow> 0 \<le> r \<Longrightarrow> r < 64 \<Longrightarrow> 2048 \<le> p * 4096 + q * 64 + r
    \<Longrightarrow> \<not> is_surrogate (p * 4096 + q * 64 + r)
    \<Longrightarrow> utf8_next sp ((224 + p) # (128 + q) # (128 + r) # x) = Some (p * 4096 + q * 64 + r, x)"
  "0 \<le> p \<Longrightarrow> p < 5 \<Longrightarrow> 0 \<le> q \<Longrightarrow> q < 64 \<Longrightarrow> 0 \<le> r \<Longrightarrow> r < 64 \<Longrightarrow> 0 \<le> s \<Longrightarrow> s < 64
    \<Longrightarrow> 65536 \<le> p * 262144 + q * 4096 + r * 64 + s \<Longrightarrow> p * 262144 + q * 4096 + r * 64 + s \<le> 1114111
    \<Longrightarrow> utf8_next sp ((240 + p) # (128 + q) # (128 + r) # (128 + s) # x) = Some (p * 262144 + q * 4096 + r * 64 + s, x)"
  by (simp_all add: utf8_next_def is_cont_def Let_def)

lemma utf8_next_char:
  assumes "0 \<le> c" "c < 1114112" "\<not> is_surrogate c"
  shows "utf8_next False (utf8_char c @ x) = Some (c, x)"
proof -
  obtain p q r s where d: "0 \<le> q" "q < 64" "0 \<le> r" "r < 64" "0 \<le> s" "s < 64"
    "c = p * 262144 + q * 4096 + r * 64 + s" "c div 262144 = p" "c div 4096 = p * 64 + q"
    "c div 64 = (p * 64 + q) * 64 + r" "c div 4096 mod 64 = q" "c div 64 mod 64 = r" "c mod 64 = s"
    by (rule utf8_digits)
  consider "c < 128" | "128 \<le> c" "c < 2048" | "2048 \<le> c" "c < 65536" | "65536 \<le> c" using assms by linarith
  then show ?thesis
  proof cases
    case 1
    then show ?thesis by (simp add: utf8_char_def utf8_next_bytes(1))
  next
    case 2
    with d(1-7) have p: "p = 0" by linarith
    with 2 d(1-7) have q: "q = 0" by linarith
    from 2 d(1-7) p q have b: "p = 0" "q = 0" "2 \<le> r" "r < 32" by linarith+
    have "utf8_char c = [192 + r, 128 + s]" using 2 b d(10,13) by (simp add: utf8_char_def)
    moreover have "r * 64 + s = c" using b d(7) by simp
    ultimately show ?thesis using utf8_next_bytes(2) [OF b(3,4) d(5,6), of False x] by simp
  next
    case 3
    with d(1-7) have p: "p = 0" by linarith
    with 3 d(1-7) have b: "p = 0" "q < 16" by linarith+
    have "utf8_char c = [224 + q, 128 + r, 128 + s]" using 3 b d(9,12,13) by (simp add: utf8_char_def)
    moreover have e: "q * 4096 + r * 64 + s = c" using b d(7) by simp
    ultimately show ?thesis using utf8_next_bytes(3) [OF d(1) b(2) d(3-6), of False x, unfolded e] 3 assms(3) by simp
  next
    case 4
    with d(1-7) assms have b: "0 \<le> p" "p < 5" by linarith+
    have "utf8_char c = [240 + p, 128 + q, 128 + r, 128 + s]" using 4 d(8,11-13) by (simp add: utf8_char_def)
    with utf8_next_bytes(4) [OF b d(1-6), of False x, folded d(7)] 4 assms(2) show ?thesis by simp
  qed
qed

lemma utf8_char_not_Nil [simp]: "utf8_char c \<noteq> []"
  by (simp add: utf8_char_def)

text \<open>Decoding undoes encoding.\<close>

lemma decode_encode_utf8:
  assumes "wf_str s" "encode_utf8 s = Inr bs"
  shows "decode_utf8 bs = Inr s"
proof -
  from assms(2) have plain: "\<not> list_ex is_surrogate s" and bs: "bs = concat (map utf8_char s)"
    by (auto simp: encode_utf8_def split: if_splits)
  from assms(1) plain have "utf8_chars False (concat (map utf8_char s)) = Inr s"
  proof (induction s)
    case Nil
    show ?case by (simp add: utf8_chars.simps)
  next
    case (Cons c s)
    then show ?case by (simp add: wf_str_def utf8_chars.simps [of False "utf8_char c @ _"] utf8_next_char)
  qed
  with bs show ?thesis by (simp add: decode_utf8_def)
qed

section \<open>\<open>json.loads\<close> of bytes\<close>

datatype encoding = Utf8 | Utf8_sig | Wide

fun detect_wide :: "int list \<Rightarrow> bool" where
  "detect_wide (a # b # c # d # _) \<longleftrightarrow> a = 0 \<or> b = 0"
| "detect_wide [a, b] \<longleftrightarrow> a = 0 \<or> b = 0"
| "detect_wide _ \<longleftrightarrow> False"

definition detect_encoding :: "int list \<Rightarrow> encoding" where
  "detect_encoding bs =
     (if startswith bs [0, 0, 254, 255] \<or> startswith bs [255, 254] \<or> startswith bs [254, 255] then Wide
      else if startswith bs [239, 187, 191] then Utf8_sig
      else if detect_wide bs then Wide else Utf8)"

definition json_loads_bytes :: "(int list \<Rightarrow> pystr res) \<Rightarrow> int list \<Rightarrow> pyval res" where
  "json_loads_bytes decode_wide bs =
     rbind (case detect_encoding bs of
         Utf8 \<Rightarrow> utf8_chars True bs
       | Utf8_sig \<Rightarrow> utf8_chars True (drop 3 bs)
       | Wide \<Rightarrow> decode_wide bs) json_loads"

section \<open>Base64\<close>

text \<open>
  \<open>a2b_base64\<close> skips what is not in the alphabet and stops at the padding that completes a group; \<open>quad\<close>
  is the position in the group of four, \<open>left\<close> the bits not yet written.
\<close>

definition url_b64_val :: "int \<Rightarrow> int option" where
  "url_b64_val c = (if 65 \<le> c \<and> c \<le> 90 then Some (c - 65) else if 97 \<le> c \<and> c \<le> 122 then Some (c - 71)
     else if 48 \<le> c \<and> c \<le> 57 then Some (c + 4) else if c = 43 \<or> c = 45 then Some 62
     else if c = 47 \<or> c = 95 then Some 63 else None)"

fun a2b_base64 :: "nat \<Rightarrow> int \<Rightarrow> nat \<Rightarrow> pystr \<Rightarrow> int list res" where
  "a2b_base64 quad left pads [] =
     (if quad = 0 then Inr [] else Inl (ValueError (str ''Incorrect padding'')))"
| "a2b_base64 quad left pads (c # s) =
     (if c = 61
      then (if 2 \<le> quad then (if 4 \<le> quad + pads + 1 then Inr [] else a2b_base64 quad left (pads + 1) s)
            else a2b_base64 quad left pads s)
      else (case url_b64_val c of
              None \<Rightarrow> a2b_base64 quad left pads s
            | Some v \<Rightarrow>
                if quad = 0 then a2b_base64 1 v 0 s
                else if quad = 1 then rmap ((#) (left * 4 + v div 16)) (a2b_base64 2 (v mod 16) 0 s)
                else if quad = 2 then rmap ((#) (left * 16 + v div 4)) (a2b_base64 3 (v mod 4) 0 s)
                else rmap ((#) (left * 64 + v)) (a2b_base64 0 0 0 s)))"

definition urlsafe_b64decode :: "pystr \<Rightarrow> int list res" where
  "urlsafe_b64decode s =
     (if \<not> is_ascii s then Inl (ValueError (str ''string argument should contain only ASCII characters''))
      else a2b_base64 0 0 0 s)"

section \<open>Splitting at white space\<close>

definition py_split :: "pystr \<Rightarrow> pystr list" where
  "py_split s = filter (\<lambda>w. w \<noteq> []) (split_on 32 (map (\<lambda>c. if is_space c then 32 else c) s))"

end
