(* ===== verification/Interceptor.thy ===== *)
theory Interceptor
  imports PyBytes Sdk
begin

text \<open>
  \<open>integrations/agentcore/axg_interceptor.py\<close>: AXG in front of an MCP server. A \<open>tools/call\<close> becomes a
  decision, or, when it carries a Passport, an introspection; its outcome is a message to forward or an
  answer to the client. The network below \<open>urllib\<close> and \<open>uuid4\<close> are parameters; logging has no result, and
  what \<open>json.dumps\<close> is given here always has a text. The constants for \<open>_meta\<close> shared with the SDK are the
  SDK's.
\<close>

section \<open>Python's dynamic values\<close>

text \<open>\<open>v.get\<close> and \<open>v.items\<close> need a dictionary; \<open>**v\<close> needs a mapping; \<open>v or {}\<close>.\<close>

fun attr_dict :: "pyval \<Rightarrow> pydict res" where
  "attr_dict (VDict d) = Inr d"
| "attr_dict _ = Inl AttributeError"

fun mapping_of :: "pyval \<Rightarrow> pydict res" where
  "mapping_of (VDict d) = Inr d"
| "mapping_of _ = Inl TypeError"

definition or_value :: "pyval \<Rightarrow> pyval \<Rightarrow> pyval" where
  "or_value v w = (if truthy v then v else w)"

abbreviation or_dict :: "pyval \<Rightarrow> pyval" where
  "or_dict v \<equiv> or_value v (VDict [])"

text \<open>\<open>d.get(k)\<close> for a computed key, \<open>os.environ[name]\<close>, and \<open>s >= t\<close> on strings.\<close>

definition dlookup :: "pydict \<Rightarrow> pystr \<Rightarrow> pyval" where
  "dlookup d k = (case map_of d k of None \<Rightarrow> VNone | Some v \<Rightarrow> v)"

definition environ_item :: "environ \<Rightarrow> string \<Rightarrow> pystr res" where
  "environ_item env name = (case env name of None \<Rightarrow> Inl (KeyError (str name)) | Some s \<Rightarrow> Inr s)"

fun str_le :: "pystr \<Rightarrow> pystr \<Rightarrow> bool" where
  "str_le [] t \<longleftrightarrow> True"
| "str_le (c # s) [] \<longleftrightarrow> False"
| "str_le (c # s) (d # t) \<longleftrightarrow> c < d \<or> c = d \<and> str_le s t"

section \<open>Constants and environment\<close>

definition DECISION_META_KEY :: string where
  "DECISION_META_KEY = ''io.axg/decision''"

definition RESULT_TYPE_SINCE :: pystr where
  "RESULT_TYPE_SINCE = str ''2026-07-28''"

text \<open>
  \<open>ie_make_request\<close> is the constructor \<open>urllib.request.Request\<close> (which refuses some URLs), \<open>ie_send\<close> takes
  URL, body, \<open>Authorization\<close> header and timeout and yields the bytes of the response or an exception.
\<close>

record interceptor_env =
  ie_environ :: environ
  ie_make_request :: "pystr \<Rightarrow> unit res"
  ie_send :: "pystr \<Rightarrow> int list \<Rightarrow> pystr \<Rightarrow> pyfloat \<Rightarrow> int list res"
  ie_uuid :: pystr
  ie_decode_wide :: "int list \<Rightarrow> pystr res"

section \<open>Identity\<close>

fun find_header :: "string \<Rightarrow> pydict \<Rightarrow> pyval option" where
  "find_header name [] = None"
| "find_header name ((k, v) # hs) = (if py_lower k = str name then Some v else find_header name hs)"

definition token_claims :: "(int list \<Rightarrow> pystr res) \<Rightarrow> pystr \<Rightarrow> pyval res" where
  "token_claims decode_wide token =
     (case split_on 46 token of
        _ # payload # _ \<Rightarrow>
          (case rbind (urlsafe_b64decode (payload @ replicate (nat ((- int (length payload)) mod 4)) 61))
                  (json_loads_bytes decode_wide) of
             Inl e \<Rightarrow> if is_value_error e then Inr (VDict []) else Inl e
           | Inr v \<Rightarrow> Inr v)
      | _ \<Rightarrow> Inr (VDict []))"

definition jwt_claims_of :: "(int list \<Rightarrow> pystr res) \<Rightarrow> pydict \<Rightarrow> pyval res" where
  "jwt_claims_of decode_wide headers =
     (case (case find_header ''authorization'' headers of None \<Rightarrow> VStr [] | Some v \<Rightarrow> v) of
        VStr auth \<Rightarrow> token_claims decode_wide (if startswith (py_lower auth) (str ''bearer '') then drop 7 auth else [])
      | _ \<Rightarrow> Inl AttributeError)"

section \<open>The decision request\<close>

definition permissions_of :: "pydict \<Rightarrow> pyval list res" where
  "permissions_of claims =
     (case map_of claims (str ''scope'') of
        None \<Rightarrow> Inr []
      | Some (VStr s) \<Rightarrow> Inr (map VStr (py_split s))
      | Some (VList xs) \<Rightarrow> Inr xs
      | Some (VDict d) \<Rightarrow> Inr (map (\<lambda>kv. VStr (fst kv)) d)
      | Some _ \<Rightarrow> Inl TypeError)"

definition build_decision_request :: "interceptor_env \<Rightarrow> pydict \<Rightarrow> pyval \<Rightarrow> pystr \<Rightarrow> pydict res" where
  "build_decision_request ie body claims source =
     (let env = ie_environ ie
      in rbind (environ_item env ''AXG_APP_ID'') (\<lambda>app_id.
        rbind (attr_dict claims) (\<lambda>cl.
          rbind (permissions_of cl) (\<lambda>permissions.
            rbind (attr_dict (or_dict (dget body ''params''))) (\<lambda>params.
              Inr [(str ''execution_id'', VStr (source @ [45]
                     @ (case map_of body (str ''id'') of None \<Rightarrow> [] | Some i \<Rightarrow> py_str i) @ [45] @ ie_uuid ie)),
                   (str ''tenant_id'', VStr (py_str
                     (or_value (dlookup cl (env_get env ''AXG_TENANT_CLAIM'' (str ''tenant_id''))) (VStr (str ''default''))))),
                   (str ''app_id'', VStr app_id),
                   (str ''plugin_id'', VStr (env_get env ''AXG_PLUGIN_ID'' app_id)),
                   (str ''user_id'', dget cl ''sub''),
                   (str ''agent'', VDict
                     [(str ''id'', VStr (py_str (or_value (dlookup cl (env_get env ''AXG_AGENT_CLAIM'' (str ''client_id'')))
                        (or_value (dget cl ''sub'') (VStr (str ''unknown-agent'')))))),
                      (str ''type'', VStr (str ''agent'')), (str ''permissions'', VList permissions)]),
                   (str ''source'', VStr source),
                   (str ''action_type'', case map_of params (str ''name'') of None \<Rightarrow> VStr [] | Some v \<Rightarrow> v),
                   (str ''payload'', or_dict (dget params ''arguments'')),
                   (str ''llm'', VDict [(str ''confidence'', VFloat (Fin 1))]),
                   (str ''metadata'', VDict [(str ''flow'', VStr (source @ str '':tools/call''))])])))))"

section \<open>Asking AXG\<close>

datatype axg_exc = Axg_unavailable | Axg_raised pyexc

text \<open>\<open>except (urllib.error.URLError, TimeoutError, ValueError)\<close>, with the subclasses of \<open>URLError\<close>.\<close>

definition is_unavailable :: "pyexc \<Rightarrow> bool" where
  "is_unavailable e \<longleftrightarrow> is_value_error e \<or> e \<in> {OtherError (str ''URLError''), OtherError (str ''HTTPError''),
     OtherError (str ''ContentTooShortError''), OtherError (str ''TimeoutError'')}"

fun axg_failure :: "'a res \<Rightarrow> axg_exc + 'a" where
  "axg_failure (Inl e) = Inl (if is_unavailable e then Axg_unavailable else Axg_raised e)"
| "axg_failure (Inr x) = Inr x"

fun axg_escape :: "'a res \<Rightarrow> axg_exc + 'a" where
  "axg_escape (Inl e) = Inl (Axg_raised e)"
| "axg_escape (Inr x) = Inr x"

definition axg_answer :: "interceptor_env \<Rightarrow> pystr \<Rightarrow> pystr \<Rightarrow> pydict \<Rightarrow> pyval res" where
  "axg_answer ie url api_key payload =
     rbind (float_of_str (env_get (ie_environ ie) ''AXG_TIMEOUT_SECONDS'' (str ''3''))) (\<lambda>timeout.
       rbind (ie_send ie url (json_dumps default_style (VDict payload)) (str ''Bearer '' @ api_key) timeout) (\<lambda>bytes.
         rbind (decode_utf8 bytes) json_loads))"

definition post_axg :: "interceptor_env \<Rightarrow> string \<Rightarrow> pydict \<Rightarrow> axg_exc + pyval" where
  "post_axg ie path payload =
     rbind (axg_escape (environ_item (ie_environ ie) ''AXG_URL'')) (\<lambda>base.
       let url = rstrip_char 47 base @ str path
       in rbind (axg_escape (environ_item (ie_environ ie) ''AXG_API_KEY'')) (\<lambda>api_key.
         rbind (axg_escape (ie_make_request ie url)) (\<lambda>_. axg_failure (axg_answer ie url api_key payload))))"

definition ask_axg :: "interceptor_env \<Rightarrow> pydict \<Rightarrow> axg_exc + pyval" where
  "ask_axg ie request = post_axg ie ''/v1/decisions'' request"

definition ask_introspection :: "interceptor_env \<Rightarrow> pyval \<Rightarrow> pyval \<Rightarrow> pydict \<Rightarrow> axg_exc + pyval" where
  "ask_introspection ie passport tool authorized = post_axg ie ''/v1/passports/introspect''
     [(str ''passport'', passport), (str ''action_type'', tool), (str ''actionable_payload'', VDict authorized)]"

section \<open>Outputs\<close>

definition pass_through :: "pydict \<Rightarrow> pydict" where
  "pass_through body = [(str ''interceptorOutputVersion'', VStr (str ''1.0'')),
     (str ''mcp'', VDict [(str ''transformedGatewayRequest'', VDict [(str ''body'', VDict body)])])]"

definition gateway_response :: "pydict \<Rightarrow> pydict \<Rightarrow> pydict" where
  "gateway_response body result = [(str ''interceptorOutputVersion'', VStr (str ''1.0'')),
     (str ''mcp'', VDict [(str ''transformedGatewayResponse'', VDict [(str ''statusCode'', VInt 200),
        (str ''body'', VDict [(str ''jsonrpc'', VStr (str ''2.0'')), (str ''id'', dget body ''id''),
           (str ''result'', VDict result)])])])]"

text \<open>\<open>protocol_version and protocol_version >= RESULT_TYPE_SINCE\<close>.\<close>

fun states_result_type :: "pyval \<Rightarrow> bool res" where
  "states_result_type (VStr s) = Inr (s \<noteq> [] \<and> str_le RESULT_TYPE_SINCE s)"
| "states_result_type v = (if truthy v then Inl TypeError else Inr False)"

definition tool_error :: "pydict \<Rightarrow> pystr \<Rightarrow> pydict \<Rightarrow> pyval \<Rightarrow> pyval \<Rightarrow> pydict res" where
  "tool_error body message axg approval protocol_version =
     rmap (\<lambda>typed. gateway_response body
       ([(str ''content'', VList [VDict [(str ''type'', VStr (str ''text'')), (str ''text'', VStr message)]]),
         (str ''structuredContent'', VDict [(str ''axg'', VDict axg)]), (str ''isError'', VBool True)]
        @ (if truthy approval then [(str ''_meta'', VDict [(str APPROVAL_META_KEY, approval)])] else [])
        @ (if typed then [(str ''resultType'', VStr (str ''complete''))] else [])))
       (states_result_type protocol_version)"

definition UNAVAILABLE_TEXT :: pystr where
  "UNAVAILABLE_TEXT =
     str ''This action could not be authorized right now (governance service unavailable). Try again later.''"

section \<open>Calls that carry a Passport\<close>

definition argument_authorized :: "pydict \<Rightarrow> pystr \<times> pyval \<Rightarrow> bool" where
  "argument_authorized authorized kv \<longleftrightarrow> fst kv = str ''axg''
     \<or> (case map_of authorized (fst kv) of None \<Rightarrow> False | Some v \<Rightarrow> py_eq v (snd kv))"

definition arguments_authorized :: "pyval \<Rightarrow> pydict \<Rightarrow> bool res" where
  "arguments_authorized arguments authorized =
     rmap (list_all (argument_authorized authorized)) (attr_dict arguments)"

definition approved_call :: "interceptor_env \<Rightarrow> pydict \<Rightarrow> pydict \<Rightarrow> pydict \<Rightarrow> pyval \<Rightarrow> pydict res" where
  "approved_call ie body params meta protocol_version =
     rbind (case dget meta PAYLOAD_META_KEY of
         VDict authorized \<Rightarrow> rmap (\<lambda>ok. if ok then Some authorized else None)
            (arguments_authorized (or_dict (dget params ''arguments'')) authorized)
       | _ \<Rightarrow> Inr None) (\<lambda>checked.
       (case checked of
          None \<Rightarrow> tool_error body (str ''Blocked: the arguments differ from what the Passport authorizes.'')
            [(str ''decision'', VStr (str ''INVALID_PASSPORT''))] VNone protocol_version
        | Some authorized \<Rightarrow>
            (case ask_introspection ie (dget meta PASSPORT_META_KEY) (or_value (dget params ''name'') (VStr [])) authorized of
               Inl Axg_unavailable \<Rightarrow>
                 tool_error body UNAVAILABLE_TEXT [(str ''decision'', VStr (str ''UNAVAILABLE''))] VNone protocol_version
             | Inl (Axg_raised e) \<Rightarrow> Inl e
             | Inr answer \<Rightarrow>
                 rbind (attr_dict answer) (\<lambda>result.
                   if \<not> truthy (dget result ''active'')
                   then tool_error body (str ''Blocked: '' @ py_str (or_value (dget result ''reason'')
                            (VStr (str ''the Passport is not valid for this call''))) @ str ''.'')
                          [(str ''decision'', VStr (str ''INVALID_PASSPORT''))] VNone protocol_version
                   else rmap (\<lambda>_. pass_through body) (attr_dict (or_dict (dget result ''claims'')))))))"

section \<open>Calls to decide\<close>

definition decision_summary :: "pydict \<Rightarrow> pydict \<Rightarrow> pydict" where
  "decision_summary decision scores =
     [(str ''decision'', dget decision ''decision''), (str ''execution_id'', dget decision ''execution_id''),
      (str ''reason'', dget decision ''reason''), (str ''risk_level'', dget scores ''risk_level'')]"

definition refusal :: "pydict \<Rightarrow> pydict \<Rightarrow> pydict \<Rightarrow> pyval \<Rightarrow> pydict res" where
  "refusal body decision summary protocol_version =
     rbind (if truthy (dget decision ''approval'')
            then rmap (\<lambda>a. VDict (AList.update (str ''actionable_payload'') (or_dict (dget decision ''actionable_payload'')) a))
                   (mapping_of (dget decision ''approval''))
            else Inr (dget decision ''approval'')) (\<lambda>approval.
       tool_error body
         ((if dget decision ''decision'' = VStr (str ''BLOCK'') then str ''Blocked by policy'' else str ''Confirmation required'')
          @ str '': '' @ py_str (or_value (dget decision ''reason'') (VStr (str ''no reason given''))))
         summary approval protocol_version)"

definition forwarded_meta :: "pydict \<Rightarrow> pydict \<Rightarrow> pydict \<Rightarrow> pydict" where
  "forwarded_meta meta decision summary =
     dmerge meta [(str PASSPORT_META_KEY, dget decision ''passport''),
       (str PAYLOAD_META_KEY, or_dict (dget decision ''actionable_payload'')), (str DECISION_META_KEY, VDict summary)]"

definition forwarded_params :: "environ \<Rightarrow> pydict \<Rightarrow> pydict \<Rightarrow> pydict \<Rightarrow> pydict \<Rightarrow> pydict res" where
  "forwarded_params env params meta decision summary =
     (let params' = AList.update (str ''_meta'') (VDict (forwarded_meta meta decision summary)) params
      in if py_lower (env_get env ''AXG_CEDAR_CONTEXT'' []) = str ''true''
         then rmap (\<lambda>arguments. AList.update (str ''arguments'') (VDict (AList.update (str ''axg'')
                  (VDict [(str ''decision'', dget decision ''decision''), (str ''risk_level'', dget summary ''risk_level'')])
                  arguments)) params')
                (mapping_of (or_dict (dget params' ''arguments'')))
         else Inr params')"

definition decided_call :: "interceptor_env \<Rightarrow> pydict \<Rightarrow> pydict \<Rightarrow> pydict \<Rightarrow> pydict \<Rightarrow> pyval \<Rightarrow> pydict res" where
  "decided_call ie body params meta decision protocol_version =
     rbind (attr_dict (or_dict (dget decision ''scores''))) (\<lambda>scores.
       let summary = decision_summary decision scores
       in if dget decision ''decision'' \<noteq> VStr (str ''ALLOW'') \<or> \<not> truthy (dget decision ''passport'')
          then refusal body decision summary protocol_version
          else rmap (\<lambda>params'. pass_through (AList.update (str ''params'') (VDict params') body))
                 (forwarded_params (ie_environ ie) params meta decision summary))"

definition govern_tools_call :: "interceptor_env \<Rightarrow> pydict \<Rightarrow> pyval \<Rightarrow> pystr \<Rightarrow> pyval \<Rightarrow> pydict res" where
  "govern_tools_call ie body claims source protocol_version =
     rbind (attr_dict (or_dict (dget body ''params''))) (\<lambda>params.
       rbind (attr_dict (or_dict (dget params ''_meta''))) (\<lambda>meta.
         if truthy (dget meta PASSPORT_META_KEY) then approved_call ie body params meta protocol_version
         else rbind (build_decision_request ie body claims source) (\<lambda>request.
           (case ask_axg ie request of
              Inl Axg_unavailable \<Rightarrow>
                tool_error body UNAVAILABLE_TEXT
                  [(str ''decision'', VStr (str ''UNAVAILABLE'')), (str ''execution_id'', dget request ''execution_id'')]
                  VNone protocol_version
            | Inl (Axg_raised e) \<Rightarrow> Inl e
            | Inr answer \<Rightarrow>
                rbind (attr_dict answer) (\<lambda>decision. decided_call ie body params meta decision protocol_version)))))"

section \<open>The Lambda handler\<close>

definition handler :: "interceptor_env \<Rightarrow> pydict \<Rightarrow> pydict res" where
  "handler ie event =
     rbind (attr_dict (or_dict (dget event ''mcp''))) (\<lambda>mcp.
       rbind (attr_dict (or_dict (dget mcp ''gatewayRequest''))) (\<lambda>request.
         rbind (attr_dict (or_dict (dget request ''body''))) (\<lambda>body.
           if dget body ''method'' \<noteq> VStr (str ''tools/call'') then Inr (pass_through body)
           else rbind (attr_dict (or_dict (dget request ''headers''))) (\<lambda>headers.
             rbind (jwt_claims_of (ie_decode_wide ie) headers) (\<lambda>claims.
               govern_tools_call ie body claims (str ''agentcore'')
                 (case find_header ''mcp-protocol-version'' headers of None \<Rightarrow> VNone | Some v \<Rightarrow> v))))))"

end
