(* ===== verification/Gateway.thy ===== *)
theory Gateway
  imports Interceptor Engine
begin

text \<open>
  \<open>integrations/mcp_gateway/axg_mcp_gateway.py\<close>: the HTTP proxy that governs the tool calls to an MCP
  server. Starlette hands lower-case header names; its responses and their rendering, httpx, PyJWT and the
  JWKS client are not under the sources. What is sent upstream is part of a request's result. Streaming the
  response and closing the client have no result.
\<close>

section \<open>Constants and records\<close>

definition SOURCE :: pystr where
  "SOURCE = str ''mcp_gateway''"

definition DROPPED_REQUEST_HEADERS :: "pystr list" where
  "DROPPED_REQUEST_HEADERS = map str [''host'', ''content-length'', ''connection'', ''keep-alive'', ''transfer-encoding'',
     ''authorization'']"

definition FORWARDED_RESPONSE_HEADERS :: "pystr list" where
  "FORWARDED_RESPONSE_HEADERS = map str [''content-type'', ''mcp-session-id'', ''mcp-protocol-version'', ''cache-control'']"

definition JWT_ALGORITHMS :: "pystr list" where
  "JWT_ALGORITHMS = map str [''RS256'', ''ES256'', ''PS256'']"

type_synonym http_headers = "(pystr \<times> pystr) list"

record gateway_request =
  gr_method :: pystr
  gr_headers :: http_headers
  gr_query :: "(pystr \<times> pystr) list"
  gr_body :: "int list"

record upstream_request =
  ur_method :: pystr
  ur_url :: pystr
  ur_query :: "(pystr \<times> pystr) list"
  ur_headers :: http_headers
  ur_content :: "int list"

record upstream_response =
  up_status :: int
  up_headers :: http_headers
  up_content :: "int list"

text \<open>\<open>ge_send\<close> yields the response or the name of an \<open>httpx.HTTPError\<close>.\<close>

record gateway_env =
  ge_interceptor :: interceptor_env
  ge_lib :: crypto_lib
  ge_jwks :: "pystr \<Rightarrow> jwks_client"
  ge_now :: int
  ge_send :: "upstream_request \<Rightarrow> pystr + upstream_response"

abbreviation ge_environ :: "gateway_env \<Rightarrow> environ" where
  "ge_environ ge \<equiv> ie_environ (ge_interceptor ge)"

section \<open>Configuration and identity\<close>

text \<open>\<open>Inl\<close> is the text of a \<open>GatewayConfigError\<close>.\<close>

definition required :: "environ \<Rightarrow> string \<Rightarrow> pystr + pystr" where
  "required env name =
     (let v = py_strip (env_get env name []) in if v = [] then Inl (str (name @ '' is required'')) else Inr v)"

datatype gateway_identity =
    Jwt_identity pystr pystr "pystr option" "pystr option"
  | Static_identity pydict

definition jwt_identity :: "environ \<Rightarrow> pystr + gateway_identity" where
  "jwt_identity env =
     rbind (required env ''AXG_GATEWAY_ISSUER'') (\<lambda>issuer. rbind (required env ''AXG_GATEWAY_AUDIENCE'') (\<lambda>aud.
       let public_key = nonempty (Some (unescape_newlines (env_get env ''AXG_GATEWAY_JWT_PUBLIC_KEY'' [])));
           jwks_url = py_strip (env_get env ''AXG_GATEWAY_JWKS_URL'' [])
       in if public_key = None \<and> jwks_url = []
          then Inl (str ''AXG_GATEWAY_JWKS_URL or AXG_GATEWAY_JWT_PUBLIC_KEY is required for jwt auth'')
          else Inr (Jwt_identity issuer aud public_key (if jwks_url \<noteq> [] \<and> public_key = None then Some jwks_url else None))))"

definition static_identity :: "environ \<Rightarrow> pystr + gateway_identity" where
  "static_identity env =
     rbind (required env ''AXG_GATEWAY_AGENT_ID'') (\<lambda>agent. rmap (\<lambda>tenant.
       Static_identity ([(str ''client_id'', VStr agent), (str ''tenant_id'', VStr tenant),
           (str ''scope'', str_list (filter (\<lambda>p. p \<noteq> []) (map py_strip (split_on 44 (env_get env ''AXG_GATEWAY_PERMISSIONS'' [])))))]
         @ (case nonempty (env ''AXG_GATEWAY_USER_ID'') of None \<Rightarrow> [] | Some u \<Rightarrow> [(str ''sub'', VStr u)])))
       (required env ''AXG_GATEWAY_TENANT_ID''))"

definition caller_identity :: "environ \<Rightarrow> pystr + gateway_identity" where
  "caller_identity env =
     (let mode = py_lower (py_strip (env_get env ''AXG_GATEWAY_AUTH'' []))
      in if mode = str ''jwt'' then jwt_identity env
         else if mode = str ''static'' then static_identity env
         else Inl (str ''AXG_GATEWAY_AUTH must be '' @ quoted (str ''jwt'') @ str '' or '' @ quoted (str ''static'')))"

datatype identity_exc = Unauthorized pystr | Identity_raised pyexc

definition gateway_options :: "pystr \<Rightarrow> pystr \<Rightarrow> decode_options" where
  "gateway_options issuer aud =
     \<lparr>do_algorithms = JWT_ALGORITHMS, do_issuer = issuer, do_audience = Some aud, do_leeway = 0, do_require = []\<rparr>"

definition header_value :: "http_headers \<Rightarrow> string \<Rightarrow> pystr option" where
  "header_value hs name = map_of hs (str name)"

definition caller_claims :: "gateway_env \<Rightarrow> gateway_identity \<Rightarrow> http_headers \<Rightarrow> identity_exc + pydict" where
  "caller_claims ge identity hs =
     (case identity of
        Static_identity claims \<Rightarrow> Inr claims
      | Jwt_identity issuer aud public_key jwks_url \<Rightarrow>
          (let auth = (case header_value hs ''authorization'' of None \<Rightarrow> [] | Some a \<Rightarrow> a)
           in if \<not> startswith (py_lower auth) (str ''bearer '') then Inl (Unauthorized (str ''Bearer token required''))
              else (let token = py_strip (drop 7 auth)
                in case rbind (case public_key of
                        Some k \<Rightarrow> Inr k
                      | None \<Rightarrow> (case jwks_url of None \<Rightarrow> Inl AttributeError | Some url \<Rightarrow> ge_jwks ge url (VStr token)))
                     (jwt_decode (ge_lib ge) (gateway_options issuer aud) (ge_now ge) token) of
                  Inl e \<Rightarrow> Inl (if is_jwt_error e then Unauthorized (str ''Invalid token'') else Identity_raised e)
                | Inr claims \<Rightarrow> Inr claims)))"

section \<open>Forwarding\<close>

definition upstream_headers :: "environ \<Rightarrow> http_headers \<Rightarrow> http_headers" where
  "upstream_headers env hs =
     (let kept = dmerge [] (filter (\<lambda>kv. py_lower (fst kv) \<notin> set DROPPED_REQUEST_HEADERS) hs)
      in case nonempty (env ''MCP_UPSTREAM_AUTHORIZATION'') of
           None \<Rightarrow> kept
         | Some a \<Rightarrow> AList.update (str ''authorization'') a kept)"

datatype gateway_answer = Json_answer int pyval http_headers | Relayed int http_headers "int list"

definition jsonrpc_error :: "pyval \<Rightarrow> int \<Rightarrow> string \<Rightarrow> int \<Rightarrow> gateway_answer" where
  "jsonrpc_error request_id code message status =
     Json_answer status (VDict [(str ''jsonrpc'', VStr (str ''2.0'')), (str ''id'', request_id),
       (str ''error'', VDict [(str ''code'', VInt code), (str ''message'', VStr (str message))])]) []"

record gateway_app =
  ga_upstream_url :: pystr
  ga_identity :: gateway_identity

definition create_app :: "environ \<Rightarrow> pystr + gateway_app" where
  "create_app env =
     rbind (required env ''MCP_UPSTREAM_URL'') (\<lambda>upstream_url. rbind (required env ''AXG_URL'') (\<lambda>_.
       rbind (required env ''AXG_API_KEY'') (\<lambda>_. rbind (required env ''AXG_APP_ID'') (\<lambda>_.
         rmap (\<lambda>identity. \<lparr>ga_upstream_url = upstream_url, ga_identity = identity\<rparr>) (caller_identity env)))))"

definition forward_upstream ::
    "gateway_env \<Rightarrow> gateway_app \<Rightarrow> gateway_request \<Rightarrow> int list \<Rightarrow> gateway_answer \<times> upstream_request option" where
  "forward_upstream ge app rq content =
     (let ur = \<lparr>ur_method = gr_method rq, ur_url = ga_upstream_url app, ur_query = gr_query rq,
                ur_headers = upstream_headers (ge_environ ge) (gr_headers rq), ur_content = content\<rparr>
      in (case ge_send ge ur of
            Inl _ \<Rightarrow> jsonrpc_error VNone (- 32603) ''The MCP server is unavailable'' 502
          | Inr up \<Rightarrow> Relayed (up_status up)
              (dmerge [] (filter (\<lambda>kv. py_lower (fst kv) \<in> set FORWARDED_RESPONSE_HEADERS) (up_headers up))) (up_content up),
          Some ur))"

section \<open>The endpoint\<close>

fun is_tools_call :: "pyval \<Rightarrow> bool" where
  "is_tools_call (VDict d) \<longleftrightarrow> dget d ''method'' = VStr (str ''tools/call'')"
| "is_tools_call _ \<longleftrightarrow> False"

definition governed_body :: "string \<Rightarrow> pydict \<Rightarrow> pyval option" where
  "governed_body key output =
     (case dget output ''mcp'' of
        VDict governed \<Rightarrow> (case dget governed key of VDict t \<Rightarrow> Some (dget t ''body'') | _ \<Rightarrow> None)
      | _ \<Rightarrow> None)"

definition governed_call ::
    "gateway_env \<Rightarrow> gateway_app \<Rightarrow> gateway_request \<Rightarrow> pydict \<Rightarrow> pydict \<Rightarrow> (gateway_answer \<times> upstream_request option) res" where
  "governed_call ge app rq claims message =
     rbind (govern_tools_call (ge_interceptor ge) message (VDict claims) SOURCE
              (opt_str (header_value (gr_headers rq) ''mcp-protocol-version''))) (\<lambda>output.
       (case governed_body ''transformedGatewayResponse'' output of
          Some body \<Rightarrow> Inr (Json_answer 200 body [], None)
        | None \<Rightarrow>
            (case governed_body ''transformedGatewayRequest'' output of
               None \<Rightarrow> Inl (KeyError (str ''transformedGatewayRequest''))
             | Some body \<Rightarrow> Inr (forward_upstream ge app rq (json_dumps default_style body)))))"

definition mcp_endpoint ::
    "gateway_env \<Rightarrow> gateway_app \<Rightarrow> gateway_request \<Rightarrow> (gateway_answer \<times> upstream_request option) res" where
  "mcp_endpoint ge app rq =
     (case caller_claims ge (ga_identity app) (gr_headers rq) of
        Inl (Unauthorized message) \<Rightarrow>
          Inr (Json_answer 401 (VDict [(str ''error'', VStr (str ''unauthorized'')), (str ''message'', VStr message)])
                 [(str ''WWW-Authenticate'', str ''Bearer'')], None)
      | Inl (Identity_raised e) \<Rightarrow> Inl e
      | Inr claims \<Rightarrow>
          if gr_method rq \<noteq> str ''POST'' then Inr (forward_upstream ge app rq (gr_body rq))
          else (case json_loads_bytes (ie_decode_wide (ge_interceptor ge)) (gr_body rq) of
              Inl e \<Rightarrow> if is_value_error e then Inr (jsonrpc_error VNone (- 32700) ''Parse error'' 400, None) else Inl e
            | Inr (VList messages) \<Rightarrow>
                if list_ex is_tools_call messages
                then Inr (jsonrpc_error VNone (- 32600) ''Batched tools/call is not supported through the AXG gateway'' 400, None)
                else Inr (forward_upstream ge app rq (gr_body rq))
            | Inr (VDict message) \<Rightarrow>
                if is_tools_call (VDict message) then governed_call ge app rq claims message
                else Inr (forward_upstream ge app rq (gr_body rq))
            | Inr _ \<Rightarrow> Inr (forward_upstream ge app rq (gr_body rq))))"

text \<open>\<open>GET /health\<close>, and the module attribute \<open>app\<close>, which is built when it is first read.\<close>

definition gateway_health :: gateway_answer where
  "gateway_health = Json_answer 200 (VDict [(str ''status'', VStr (str ''ok'')), (str ''service'', VStr (str ''axg-mcp-gateway''))]) []"

definition module_attribute :: "environ \<Rightarrow> pystr \<Rightarrow> (pystr + gateway_app) res" where
  "module_attribute env name = (if name = str ''app'' then Inr (create_app env) else Inl AttributeError)"

end
