(* ===== verification/InterceptorFacts.thy ===== *)
theory InterceptorFacts
  imports Interceptor
begin

text \<open>
  What the interceptor forwards, and what it answers when AXG does not.
\<close>

section \<open>Outputs\<close>

lemma outputs_differ [simp]:
  "pass_through body \<noteq> gateway_response body' result" "gateway_response body' result \<noteq> pass_through body"
  by (simp_all add: pass_through_def gateway_response_def)

lemma pass_through_inj [simp]: "pass_through body = pass_through body' \<longleftrightarrow> body = body'"
  by (auto simp: pass_through_def)

lemma attr_dict_Inr [simp]: "attr_dict v = Inr d \<longleftrightarrow> v = VDict d"
  by (cases v) simp_all

lemma mapping_of_Inr [simp]: "mapping_of v = Inr d \<longleftrightarrow> v = VDict d"
  by (cases v) simp_all

text \<open>Every refusal is a tool result that says it is an error.\<close>

definition is_refusal :: "pydict \<Rightarrow> pydict \<Rightarrow> bool" where
  "is_refusal body out \<longleftrightarrow> (\<exists>result. out = gateway_response body result \<and> dget result ''isError'' = VBool True)"

lemma is_refusal_not_forwarded [simp]: "\<not> is_refusal body (pass_through body')"
  by (simp add: is_refusal_def)

lemma tool_error_refuses: "tool_error body message axg approval pv = Inr out \<Longrightarrow> is_refusal body out"
  by (auto simp: tool_error_def is_refusal_def rmap_eq_Inr dget_def)

lemma refusal_refuses: "refusal body decision summary pv = Inr out \<Longrightarrow> is_refusal body out"
  by (auto simp: refusal_def rbind_eq_Inr dest: tool_error_refuses)

section \<open>The three ways through\<close>

lemma approved_callD:
  assumes "approved_call ie body params meta pv = Inr out"
  obtains (refused) "is_refusal body out"
  | (forwarded) authorized arguments result where "out = pass_through body" "dget meta PAYLOAD_META_KEY = VDict authorized"
      "or_dict (dget params ''arguments'') = VDict arguments" "list_all (argument_authorized authorized) arguments"
      "ask_introspection ie (dget meta PASSPORT_META_KEY) (or_value (dget params ''name'') (VStr [])) authorized = Inr (VDict result)"
      "truthy (dget result ''active'')"
proof -
  from assms obtain checked where c: "(case dget meta PAYLOAD_META_KEY of
        VDict authorized \<Rightarrow> rmap (\<lambda>ok. if ok then Some authorized else None)
          (arguments_authorized (or_dict (dget params ''arguments'')) authorized)
      | _ \<Rightarrow> Inr None) = Inr checked"
    by (auto simp: approved_call_def rbind_eq_Inr)
  show thesis
  proof (cases checked)
    case None
    with assms c have "is_refusal body out" by (auto simp: approved_call_def intro: tool_error_refuses)
    then show thesis by (rule refused)
  next
    case (Some authorized)
    with c have a: "dget meta PAYLOAD_META_KEY = VDict authorized"
      "arguments_authorized (or_dict (dget params ''arguments'')) authorized = Inr True"
      by (auto simp: rmap_eq_Inr split: pyval.splits if_splits)
    then obtain arguments where args: "or_dict (dget params ''arguments'') = VDict arguments"
      "list_all (argument_authorized authorized) arguments"
      by (auto simp: arguments_authorized_def rmap_eq_Inr)
    show thesis
    proof (cases "ask_introspection ie (dget meta PASSPORT_META_KEY) (or_value (dget params ''name'') (VStr [])) authorized")
      case (Inl e)
      with assms c Some have "is_refusal body out"
        by (cases e) (auto simp: approved_call_def intro: tool_error_refuses)
      then show thesis by (rule refused)
    next
      case (Inr answer)
      with assms c Some obtain result where r: "answer = VDict result"
        "(if \<not> truthy (dget result ''active'')
          then tool_error body (str ''Blocked: '' @ py_str (or_value (dget result ''reason'')
                   (VStr (str ''the Passport is not valid for this call''))) @ str ''.'')
                 [(str ''decision'', VStr (str ''INVALID_PASSPORT''))] VNone pv
          else rmap (\<lambda>_. pass_through body) (attr_dict (or_dict (dget result ''claims'')))) = Inr out"
        by (auto simp: approved_call_def rbind_eq_Inr)
      show thesis
      proof (cases "truthy (dget result ''active'')")
        case True
        with r have "out = pass_through body" by (auto simp: rmap_eq_Inr)
        with a(1) args Inr r(1) True show thesis by (intro forwarded) simp_all
      next
        case False
        with r have "is_refusal body out" by (auto intro: tool_error_refuses)
        then show thesis by (rule refused)
      qed
    qed
  qed
qed

lemma decided_callD:
  assumes "decided_call ie body params meta decision pv = Inr out"
  obtains (refused) "is_refusal body out"
  | (forwarded) scores params' where "or_dict (dget decision ''scores'') = VDict scores" "dget decision ''decision'' = VStr (str ''ALLOW'')" "truthy (dget decision ''passport'')"
      "forwarded_params (ie_environ ie) params meta decision (decision_summary decision scores) = Inr params'"
      "out = pass_through (AList.update (str ''params'') (VDict params') body)"
  using assms
  by (auto simp: decided_call_def rbind_eq_Inr rmap_eq_Inr Let_def split: if_splits intro: refusal_refuses refused)

lemma governD:
  assumes "govern_tools_call ie body claims source pv = Inr out"
  obtains params meta where "or_dict (dget body ''params'') = VDict params" "or_dict (dget params ''_meta'') = VDict meta"
    "if truthy (dget meta PASSPORT_META_KEY) then approved_call ie body params meta pv = Inr out
     else is_refusal body out \<or> (\<exists>request decision. build_decision_request ie body claims source = Inr request
        \<and> ask_axg ie request = Inr (VDict decision) \<and> decided_call ie body params meta decision pv = Inr out)"
proof -
  from assms obtain params meta where p: "or_dict (dget body ''params'') = VDict params" "or_dict (dget params ''_meta'') = VDict meta"
    by (auto simp: govern_tools_call_def rbind_eq_Inr)
  show thesis
  proof (cases "truthy (dget meta PASSPORT_META_KEY)")
    case True
    with assms p have "approved_call ie body params meta pv = Inr out" by (simp add: govern_tools_call_def)
    with True p that show thesis by simp
  next
    case False
    with assms p obtain request where r: "build_decision_request ie body claims source = Inr request"
      "(case ask_axg ie request of
          Inl Axg_unavailable \<Rightarrow> tool_error body UNAVAILABLE_TEXT
            [(str ''decision'', VStr (str ''UNAVAILABLE'')), (str ''execution_id'', dget request ''execution_id'')] VNone pv
        | Inl (Axg_raised e) \<Rightarrow> Inl e
        | Inr answer \<Rightarrow> rbind (attr_dict answer) (\<lambda>decision. decided_call ie body params meta decision pv)) = Inr out"
      by (auto simp: govern_tools_call_def rbind_eq_Inr)
    show thesis
    proof (cases "ask_axg ie request")
      case (Inl e)
      with r(2) have "is_refusal body out" by (cases e) (auto intro: tool_error_refuses)
      with False p that show thesis by simp
    next
      case (Inr answer)
      with r obtain decision where "answer = VDict decision" "decided_call ie body params meta decision pv = Inr out"
        by (auto simp: rbind_eq_Inr)
      with Inr r(1) False p that show thesis by auto
    qed
  qed
qed

lemma forwarded_params_only:
  assumes "forwarded_params env params meta decision summary = Inr params'"
  shows "dget params' ''_meta'' = VDict (forwarded_meta meta decision summary)"
    and "k \<noteq> str ''_meta'' \<Longrightarrow> k \<noteq> str ''arguments'' \<Longrightarrow> map_of params' k = map_of params k"
    and "if py_lower (env_get env ''AXG_CEDAR_CONTEXT'' []) = str ''true''
      then \<exists>arguments. or_dict (dget params ''arguments'') = VDict arguments
        \<and> dget params' ''arguments'' = VDict (AList.update (str ''axg'') (VDict [(str ''decision'', dget decision ''decision''),
            (str ''risk_level'', dget summary ''risk_level'')]) arguments)
      else map_of params' (str ''arguments'') = map_of params (str ''arguments'')"
  using assms by (auto simp: forwarded_params_def Let_def dget_def dict_simps rmap_eq_Inr split: if_splits)

lemma forwarded_meta_keys:
  "dget (forwarded_meta meta decision summary) PASSPORT_META_KEY = dget decision ''passport''"
  "dget (forwarded_meta meta decision summary) PAYLOAD_META_KEY = or_dict (dget decision ''actionable_payload'')"
  "dget (forwarded_meta meta decision summary) DECISION_META_KEY = VDict summary"
  "k \<notin> {str PASSPORT_META_KEY, str PAYLOAD_META_KEY, str DECISION_META_KEY} \<Longrightarrow>
     map_of (forwarded_meta meta decision summary) k = map_of meta k"
  by (simp_all add: forwarded_meta_def dget_def dict_simps PASSPORT_META_KEY_def PAYLOAD_META_KEY_def DECISION_META_KEY_def)

lemma built_request:
  assumes "build_decision_request ie body claims source = Inr request" "or_dict (dget body ''params'') = VDict params"
  shows "dget request ''payload'' = or_dict (dget params ''arguments'')"
    "dget request ''action_type'' = (case map_of params (str ''name'') of None \<Rightarrow> VStr [] | Some v \<Rightarrow> v)"
  using assms by (auto simp: build_decision_request_def Let_def rbind_eq_Inr dget_Cons)

section \<open>When AXG is unavailable\<close>







section \<open>An example interceptor\<close>

definition interceptor_environ :: environ where
  "interceptor_environ n = (if n = ''AXG_URL'' then Some (str ''https://axg/'') else if n = ''AXG_API_KEY'' then Some (str ''key'')
     else if n = ''AXG_APP_ID'' then Some (str ''app'') else None)"

definition quoted_text :: "string \<Rightarrow> pystr" where
  "quoted_text s = [34] @ str s @ [34]"

definition allow_text :: pystr where
  "allow_text = str ''{'' @ quoted_text ''decision'' @ str '':'' @ quoted_text ''ALLOW'' @ str '',''
     @ quoted_text ''passport'' @ str '':'' @ quoted_text ''tok'' @ str '',''
     @ quoted_text ''actionable_payload'' @ str '':{'' @ quoted_text ''amount'' @ str '':5,''
     @ quoted_text ''proposed_action'' @ str '':'' @ quoted_text ''pay'' @ str ''}}''"

definition allow_answer :: pydict where
  "allow_answer = [(str ''decision'', VStr (str ''ALLOW'')), (str ''passport'', VStr (str ''tok'')),
     (str ''actionable_payload'', VDict [(str ''amount'', VInt 5), (str ''proposed_action'', VStr (str ''pay''))])]"

definition example_interceptor :: interceptor_env where
  "example_interceptor = \<lparr>ie_environ = interceptor_environ, ie_make_request = (\<lambda>_. Inr ()),
     ie_send = (\<lambda>_ _ _ _. Inr allow_text), ie_uuid = str ''u1'', ie_decode_wide = (\<lambda>_. Inl UnicodeError)\<rparr>"


definition example_message :: pydict where
  "example_message = [(str ''id'', VInt 7), (str ''method'', VStr (str ''tools/call'')),
     (str ''params'', VDict [(str ''name'', VStr (str ''pay'')), (str ''arguments'', VDict [(str ''amount'', VInt 5)])])]"

definition forwarded_example :: pydict where
  "forwarded_example = [(str ''id'', VInt 7), (str ''method'', VStr (str ''tools/call'')),
     (str ''params'', VDict [(str ''name'', VStr (str ''pay'')), (str ''arguments'', VDict [(str ''amount'', VInt 5)]),
        (str ''_meta'', VDict [(str PASSPORT_META_KEY, VStr (str ''tok'')),
           (str PAYLOAD_META_KEY, VDict [(str ''amount'', VInt 5), (str ''proposed_action'', VStr (str ''pay''))]),
           (str DECISION_META_KEY, VDict [(str ''decision'', VStr (str ''ALLOW'')), (str ''execution_id'', VNone),
              (str ''reason'', VNone), (str ''risk_level'', VNone)])])])]"

lemma example_environ: "ie_environ example_interceptor = interceptor_environ"
  by (simp add: example_interceptor_def)

lemma example_answer: "ask_axg example_interceptor request = Inr (VDict allow_answer)"
proof -
  have "float_of_str (str ''3'') = Inr (Fin 3)" by code_simp
  moreover have "rbind (decode_utf8 allow_text) json_loads = Inr (VDict allow_answer)" by code_simp
  ultimately show ?thesis
    by (simp add: ask_axg_def post_axg_def axg_answer_def example_interceptor_def interceptor_environ_def environ_item_def
        env_get_def Let_def)
qed

lemma example_forwarded: "govern_tools_call example_interceptor example_message (VDict []) (str ''mcp_gateway'') VNone
    = Inr (pass_through forwarded_example)"
proof -
  have "\<exists>request. build_decision_request example_interceptor example_message (VDict []) (str ''mcp_gateway'') = Inr request"
    by (simp add: build_decision_request_def Let_def example_environ interceptor_environ_def environ_item_def
        permissions_of_def example_message_def dget_def or_value_def)
  then obtain request where "build_decision_request example_interceptor example_message (VDict []) (str ''mcp_gateway'') = Inr request" ..
  then show ?thesis
    by (simp add: govern_tools_call_def example_answer decided_call_def forwarded_params_def decision_summary_def Let_def
        example_message_def forwarded_example_def allow_answer_def forwarded_meta_def dget_def or_value_def example_environ
        interceptor_environ_def env_get_def py_lower_def PASSPORT_META_KEY_def PAYLOAD_META_KEY_def DECISION_META_KEY_def)
qed

section \<open>Properties\<close>

text \<open>
  C8. The interceptor forwards a tool call only with AXG's authority. Without a Passport of its own the call
  is forwarded after AXG answered ALLOW with a Passport to a request for this tool and these arguments. What
  is forwarded is the same message but for its \<open>_meta\<close>, where that Passport, its payload and a summary of the decision
  are set and every other key is the caller's, and, only when \<open>AXG_CEDAR_CONTEXT\<close> is on, the \<open>axg\<close> argument, which is
  set to the decision and its risk level. With a Passport the call is forwarded unchanged after AXG found the
  Passport active for this tool and payload, and every argument but \<open>axg\<close> equals (by Python's \<open>==\<close>) the payload's.
\<close>

theorem forwarded_call_is_authorized:
  assumes "govern_tools_call ie body claims source pv = Inr (pass_through body')"
  shows "\<exists>params meta. or_dict (dget body ''params'') = VDict params \<and> or_dict (dget params ''_meta'') = VDict meta \<and>
    (if truthy (dget meta PASSPORT_META_KEY)
     then body' = body \<and> (\<exists>authorized arguments result.
         dget meta PAYLOAD_META_KEY = VDict authorized \<and> or_dict (dget params ''arguments'') = VDict arguments
       \<and> (\<forall>(k, v) \<in> set arguments. k \<noteq> str ''axg'' \<longrightarrow> (\<exists>w. map_of authorized k = Some w \<and> py_eq w v))
       \<and> ask_introspection ie (dget meta PASSPORT_META_KEY) (or_value (dget params ''name'') (VStr [])) authorized = Inr (VDict result)
       \<and> truthy (dget result ''active''))
     else (\<exists>request decision params' meta' scores.
         build_decision_request ie body claims source = Inr request
       \<and> dget request ''payload'' = or_dict (dget params ''arguments'')
       \<and> dget request ''action_type'' = (case map_of params (str ''name'') of None \<Rightarrow> VStr [] | Some v \<Rightarrow> v)
       \<and> ask_axg ie request = Inr (VDict decision)
       \<and> dget decision ''decision'' = VStr (str ''ALLOW'') \<and> truthy (dget decision ''passport'')
       \<and> body' = AList.update (str ''params'') (VDict params') body
       \<and> dget params' ''_meta'' = VDict meta' \<and> dget meta' PASSPORT_META_KEY = dget decision ''passport''
       \<and> dget meta' PAYLOAD_META_KEY = or_dict (dget decision ''actionable_payload'')
       \<and> or_dict (dget decision ''scores'') = VDict scores
       \<and> dget meta' DECISION_META_KEY = VDict [(str ''decision'', VStr (str ''ALLOW'')),
           (str ''execution_id'', dget decision ''execution_id''), (str ''reason'', dget decision ''reason''),
           (str ''risk_level'', dget scores ''risk_level'')]
       \<and> (\<forall>k. k \<notin> {str PASSPORT_META_KEY, str PAYLOAD_META_KEY, str DECISION_META_KEY} \<longrightarrow> map_of meta' k = map_of meta k)
       \<and> (\<forall>k. k \<noteq> str ''_meta'' \<and> k \<noteq> str ''arguments'' \<longrightarrow> map_of params' k = map_of params k)
       \<and> (if py_lower (env_get (ie_environ ie) ''AXG_CEDAR_CONTEXT'' []) = str ''true''
          then \<exists>arguments. or_dict (dget params ''arguments'') = VDict arguments
            \<and> dget params' ''arguments'' = VDict (AList.update (str ''axg'')
                (VDict [(str ''decision'', VStr (str ''ALLOW'')), (str ''risk_level'', dget scores ''risk_level'')]) arguments)
          else map_of params' (str ''arguments'') = map_of params (str ''arguments''))))"
proof -
  obtain params meta where g: "or_dict (dget body ''params'') = VDict params" "or_dict (dget params ''_meta'') = VDict meta"
    "if truthy (dget meta PASSPORT_META_KEY) then approved_call ie body params meta pv = Inr (pass_through body')
     else is_refusal body (pass_through body') \<or> (\<exists>request decision. build_decision_request ie body claims source = Inr request
        \<and> ask_axg ie request = Inr (VDict decision) \<and> decided_call ie body params meta decision pv = Inr (pass_through body'))"
    by (rule governD [OF assms])
  show ?thesis
  proof (cases "truthy (dget meta PASSPORT_META_KEY)")
    case True
    with g(3) have "approved_call ie body params meta pv = Inr (pass_through body')" by simp
    then show ?thesis
    proof (cases rule: approved_callD)
      case (forwarded authorized arguments result)
      from forwarded(4) have "\<forall>(k, v) \<in> set arguments. k \<noteq> str ''axg'' \<longrightarrow> (\<exists>w. map_of authorized k = Some w \<and> py_eq w v)"
        by (fastforce simp: list_all_iff argument_authorized_def split: option.splits)
      with forwarded True g(1,2) show ?thesis by auto
    qed simp
  next
    case False
    with g(3) obtain request decision where d: "build_decision_request ie body claims source = Inr request"
      "ask_axg ie request = Inr (VDict decision)" "decided_call ie body params meta decision pv = Inr (pass_through body')"
      by auto
    from d(3) show ?thesis
    proof (cases rule: decided_callD)
      case (forwarded scores params')
      let ?summary = "decision_summary decision scores"
      have s: "?summary = [(str ''decision'', VStr (str ''ALLOW'')), (str ''execution_id'', dget decision ''execution_id''),
          (str ''reason'', dget decision ''reason''), (str ''risk_level'', dget scores ''risk_level'')]"
        "dget ?summary ''risk_level'' = dget scores ''risk_level''"
        using forwarded(2) by (simp_all add: decision_summary_def dget_Cons)
      note f = forwarded_params_only [OF forwarded(4), unfolded s(2) forwarded(2)]
      note m = forwarded_meta_keys [where meta = meta and decision = decision and summary = ?summary, unfolded s(1)]
      have b: "body' = AList.update (str ''params'') (VDict params') body" using forwarded(5) by simp
      note request = d(1) built_request [OF d(1) g(1)] d(2) forwarded(2,3) b
      show ?thesis
        by (rule exI [of _ params], rule exI [of _ meta], intro conjI g(1,2), subst if_not_P [OF False],
            rule exI [of _ request], rule exI [of _ decision], rule exI [of _ params'],
            rule exI [of _ "forwarded_meta meta decision ?summary"], rule exI [of _ scores])
          (use request f m s forwarded(1) in auto)
    qed simp
  qed
qed

lemma forwarded_call_is_authorized_witness:
  "\<exists>request decision. build_decision_request example_interceptor example_message (VDict []) (str ''mcp_gateway'') = Inr request
     \<and> dget request ''payload'' = VDict [(str ''amount'', VInt 5)]
     \<and> ask_axg example_interceptor request = Inr (VDict decision) \<and> dget decision ''decision'' = VStr (str ''ALLOW'')"
  using forwarded_call_is_authorized [OF example_forwarded]
  by (auto simp: example_message_def dget_def or_value_def)



end
