(* ===== verification/GatewayFacts.thy ===== *)
theory GatewayFacts
  imports Gateway InterceptorFacts
begin

text \<open>
  What reaches the MCP server through the gateway.
\<close>

lemma governed_body_pass_through [simp]:
  "governed_body ''transformedGatewayResponse'' (pass_through body) = None"
  "governed_body ''transformedGatewayRequest'' (pass_through body) = Some (VDict body)"
  by (simp_all add: governed_body_def pass_through_def dget_def)

lemma governed_body_response [simp]:
  "governed_body ''transformedGatewayResponse'' (gateway_response body result)
     = Some (VDict [(str ''jsonrpc'', VStr (str ''2.0'')), (str ''id'', dget body ''id''), (str ''result'', VDict result)])"
  by (simp add: governed_body_def gateway_response_def dget_def)

text \<open>The interceptor has no third kind of output.\<close>

lemma govern_outcome:
  assumes "govern_tools_call ie body claims source pv = Inr out"
  obtains (refused) "is_refusal body out" | (forwarded) body' where "out = pass_through body'"
proof -
  obtain params meta where "if truthy (dget meta PASSPORT_META_KEY) then approved_call ie body params meta pv = Inr out
     else is_refusal body out \<or> (\<exists>request decision. build_decision_request ie body claims source = Inr request
        \<and> ask_axg ie request = Inr (VDict decision) \<and> decided_call ie body params meta decision pv = Inr out)"
    using governD [OF assms] by blast
  then show thesis
    using refused forwarded by (cases "truthy (dget meta PASSPORT_META_KEY)") (auto elim: approved_callD decided_callD)
qed

lemma governed_callD:
  assumes "governed_call ge app rq claims message = Inr (answer, Some ur)"
  obtains body' where "govern_tools_call (ge_interceptor ge) message (VDict claims) SOURCE
      (opt_str (header_value (gr_headers rq) ''mcp-protocol-version'')) = Inr (pass_through body')"
    "(answer, Some ur) = forward_upstream ge app rq (json_dumps default_style (VDict body'))"
proof -
  from assms obtain out where out: "govern_tools_call (ge_interceptor ge) message (VDict claims) SOURCE
      (opt_str (header_value (gr_headers rq) ''mcp-protocol-version'')) = Inr out"
    "(case governed_body ''transformedGatewayResponse'' out of
        Some body \<Rightarrow> Inr (Json_answer 200 body [], None)
      | None \<Rightarrow> (case governed_body ''transformedGatewayRequest'' out of
           None \<Rightarrow> Inl (KeyError (str ''transformedGatewayRequest''))
         | Some body \<Rightarrow> Inr (forward_upstream ge app rq (json_dumps default_style body)))) = Inr (answer, Some ur)"
    by (auto simp: governed_call_def rbind_eq_Inr)
  from out(1) show thesis
  proof (cases rule: govern_outcome)
    case refused
    with out(2) show thesis by (auto simp: is_refusal_def)
  next
    case (forwarded body')
    with out that show thesis by simp
  qed
qed

lemma forward_upstreamD:
  assumes "(answer, Some ur) = forward_upstream ge app rq content"
  shows "ur_content ur = content" "ur_url ur = ga_upstream_url app" "ur_method ur = gr_method rq"
    "ur_headers ur = upstream_headers (ge_environ ge) (gr_headers rq)"
  using assms by (auto simp: forward_upstream_def Let_def)

lemma update_subset: "set (AList.update k v d) \<subseteq> insert (k, v) (set d)"
  by (induction d) auto

lemma dmerge_subset: "set (dmerge d e) \<subseteq> set d \<union> set e"
proof (induction d e rule: dmerge.induct)
  case (2 d k v e)
  with update_subset [of k v d] show ?case by auto
qed simp

lemma dmerge_keys: "fst ` set (dmerge d e) = fst ` set d \<union> fst ` set e"
  by (induction d e rule: dmerge.induct) (auto simp: dom_update)

text \<open>
  The headers of the request that stay behind: those of the connection and \<open>Authorization\<close>. What is sent is
  the rest of the client's headers, and the configured \<open>Authorization\<close>, if any.
\<close>

definition hop_headers :: "string set" where
  "hop_headers = {''host'', ''content-length'', ''connection'', ''keep-alive'', ''transfer-encoding'', ''authorization''}"

lemma dropped_headers: "set DROPPED_REQUEST_HEADERS = str ` hop_headers"
  by (auto simp: DROPPED_REQUEST_HEADERS_def hop_headers_def)

lemma authorization_lower: "py_lower (str ''authorization'') = str ''authorization''"
  by code_simp

lemma upstream_header_origin:
  assumes "(k, v) \<in> set (upstream_headers env hs)"
  shows "(k, v) \<in> set hs \<and> py_lower k \<notin> str ` hop_headers
    \<or> k = str ''authorization'' \<and> nonempty (env ''MCP_UPSTREAM_AUTHORIZATION'') = Some v"
proof -
  let ?f = "filter (\<lambda>kv. py_lower (fst kv) \<notin> str ` hop_headers) hs"
  have "set (dmerge [] ?f) \<subseteq> set ?f" using dmerge_subset [of "[]" ?f] by simp
  with assms update_subset [of "str ''authorization''" _ "dmerge [] ?f"] show ?thesis
    by (fastforce simp: upstream_headers_def Let_def dropped_headers split: option.splits)
qed

lemma upstream_header_kept:
  assumes "k \<in> fst ` set hs" "py_lower k \<notin> str ` hop_headers"
  shows "k \<in> fst ` set (upstream_headers env hs)"
  using assms by (auto simp: upstream_headers_def Let_def dmerge_keys dom_update dropped_headers split: option.splits)

text \<open>The only \<open>Authorization\<close> sent upstream is the configured one.\<close>

lemma upstream_authorization:
  assumes "(k, v) \<in> set (upstream_headers env hs)" "py_lower k = str ''authorization''"
  shows "nonempty (env ''MCP_UPSTREAM_AUTHORIZATION'') = Some v"
proof -
  let ?kept = "dmerge [] (filter (\<lambda>kv. py_lower (fst kv) \<notin> set DROPPED_REQUEST_HEADERS) hs)"
  have d: "str ''authorization'' \<in> set DROPPED_REQUEST_HEADERS" by (simp add: DROPPED_REQUEST_HEADERS_def)
  have kept: "(k, v) \<notin> set ?kept" for v
    using dmerge_subset [of "[]" "filter (\<lambda>kv. py_lower (fst kv) \<notin> set DROPPED_REQUEST_HEADERS) hs"] d assms(2) by auto
  show ?thesis
  proof (cases "nonempty (env ''MCP_UPSTREAM_AUTHORIZATION'')")
    case None
    with assms(1) kept show ?thesis by (simp add: upstream_headers_def Let_def)
  next
    case (Some a)
    have "(k, v) = (str ''authorization'', a)"
      using assms(1) kept Some update_subset [of "str ''authorization''" a ?kept]
      by (auto simp: upstream_headers_def Let_def)
    with Some show ?thesis by simp
  qed
qed

section \<open>An example gateway\<close>

definition example_gateway :: gateway_env where
  "example_gateway = \<lparr>ge_interceptor = example_interceptor, ge_lib = example_lib [] [], ge_jwks = (\<lambda>_ _. Inl JwtExpired),
     ge_now = 1000, ge_send = (\<lambda>_. Inr \<lparr>up_status = 200, up_headers = [], up_content = []\<rparr>)\<rparr>"

definition example_app :: gateway_app where
  "example_app = \<lparr>ga_upstream_url = str ''http://mcp'', ga_identity = Static_identity []\<rparr>"

definition posted :: "int list \<Rightarrow> gateway_request" where
  "posted content = \<lparr>gr_method = str ''POST'', gr_headers = [(str ''authorization'', str ''Bearer secret'')], gr_query = [],
     gr_body = content\<rparr>"

definition call_text :: "int list" where
  "call_text = str ''{'' @ quoted_text ''id'' @ str '':7,'' @ quoted_text ''method'' @ str '':'' @ quoted_text ''tools/call''
     @ str '','' @ quoted_text ''params'' @ str '':{'' @ quoted_text ''name'' @ str '':'' @ quoted_text ''pay'' @ str '',''
     @ quoted_text ''arguments'' @ str '':{'' @ quoted_text ''amount'' @ str '':5}}}''"

definition duplicate_text :: "int list" where
  "duplicate_text = str ''{'' @ quoted_text ''method'' @ str '':'' @ quoted_text ''tools/call''
     @ str '','' @ quoted_text ''method'' @ str '':'' @ quoted_text ''ping'' @ str ''}''"

lemma example_posted:
  obtains answer ur where "mcp_endpoint example_gateway example_app (posted call_text) = Inr (answer, Some ur)"
proof -
  have "json_loads_bytes (ie_decode_wide example_interceptor) call_text = Inr (VDict example_message)" by code_simp
  moreover have "is_tools_call (VDict example_message)" by (simp add: example_message_def dget_def)
  moreover have "govern_tools_call example_interceptor example_message (VDict []) SOURCE VNone = Inr (pass_through forwarded_example)"
    using example_forwarded by (simp add: SOURCE_def)
  ultimately have "\<exists>answer ur. mcp_endpoint example_gateway example_app (posted call_text) = Inr (answer, Some ur)"
    by (simp add: mcp_endpoint_def caller_claims_def example_gateway_def example_app_def posted_def governed_call_def
        header_value_def opt_str_def forward_upstream_def Let_def)
  with that show thesis by blast
qed

text \<open>
  A message that names its method twice is judged by the last one and forwarded as it came: a server that
  reads the first one sees a tool call.
\<close>

lemma duplicate_method_is_forwarded:
  "\<exists>answer ur. mcp_endpoint example_gateway example_app (posted duplicate_text) = Inr (answer, Some ur)
     \<and> ur_content ur = duplicate_text"
proof -
  have "json_loads_bytes (ie_decode_wide example_interceptor) duplicate_text
      = Inr (VDict [(str ''method'', VStr (str ''ping''))])" by code_simp
  then show ?thesis
    by (simp add: mcp_endpoint_def caller_claims_def example_gateway_def example_app_def posted_def forward_upstream_def
        Let_def dget_def)
qed

section \<open>Properties\<close>

text \<open>
  What may be sent upstream for a request: a posted body that Python's JSON parser reads as a tool call only as
  the message the interceptor authorized for the caller, one it reads as a batch only without tool calls, and
  every other body as it came, unread if the request is no POST.
\<close>

definition may_send :: "gateway_env \<Rightarrow> gateway_request \<Rightarrow> pydict \<Rightarrow> int list \<Rightarrow> bool" where
  "may_send ge rq claims content \<longleftrightarrow>
     (if gr_method rq = str ''POST''
      then \<exists>message. json_loads_bytes (ie_decode_wide (ge_interceptor ge)) (gr_body rq) = Inr message
        \<and> (if is_tools_call message
           then \<exists>body body'. message = VDict body
             \<and> govern_tools_call (ge_interceptor ge) body (VDict claims) SOURCE
                 (opt_str (header_value (gr_headers rq) ''mcp-protocol-version'')) = Inr (pass_through body')
             \<and> content = json_dumps default_style (VDict body')
           else content = gr_body rq \<and> (\<forall>messages. message = VList messages \<longrightarrow> (\<forall>m \<in> set messages. \<not> is_tools_call m)))
      else content = gr_body rq)"

text \<open>
  C9. Whatever the gateway sends upstream comes from an identified caller and goes to the configured server.
  The client's \<open>Authorization\<close> and the headers of its connection stay behind, and the only \<open>Authorization\<close> sent is
  the configured one; the client's other headers, cookies among them, are sent on. A posted body that Python's JSON
  parser reads as a tool call is sent only as the message the interceptor authorized for that caller, and
  none that it reads as a batch with a tool call is sent; every other body is sent as it came.
\<close>

theorem gateway_governs_tool_calls:
  assumes "mcp_endpoint ge app rq = Inr (answer, Some ur)"
  shows "\<exists>claims. caller_claims ge (ga_identity app) (gr_headers rq) = Inr claims
    \<and> ur_url ur = ga_upstream_url app \<and> ur_method ur = gr_method rq
    \<and> (\<forall>(k, v) \<in> set (ur_headers ur). py_lower k = str ''authorization''
         \<longrightarrow> nonempty (ge_environ ge ''MCP_UPSTREAM_AUTHORIZATION'') = Some v)
    \<and> (\<forall>(k, v) \<in> set (ur_headers ur). py_lower k \<noteq> str ''authorization''
         \<longrightarrow> (k, v) \<in> set (gr_headers rq) \<and> py_lower k \<notin> str ` hop_headers)
    \<and> (\<forall>k \<in> fst ` set (gr_headers rq). py_lower k \<notin> str ` hop_headers \<longrightarrow> k \<in> fst ` set (ur_headers ur))
    \<and> may_send ge rq claims (ur_content ur)"
proof -
  from assms obtain claims where c: "caller_claims ge (ga_identity app) (gr_headers rq) = Inr claims"
    by (auto simp: mcp_endpoint_def split: sum.splits identity_exc.splits)
  have "\<exists>content. (answer, Some ur) = forward_upstream ge app rq content \<and> may_send ge rq claims content"
  proof (cases "gr_method rq = str ''POST''")
    case False
    with assms c show ?thesis by (simp add: mcp_endpoint_def may_send_def)
  next
    case True
    with assms c obtain message where m: "json_loads_bytes (ie_decode_wide (ge_interceptor ge)) (gr_body rq) = Inr message"
      by (auto simp: mcp_endpoint_def split: sum.splits if_splits)
    show ?thesis
    proof (cases "is_tools_call message")
      case tool: True
      then obtain body where b: "message = VDict body" by (cases message) simp_all
      with assms c True m tool have "governed_call ge app rq claims body = Inr (answer, Some ur)"
        by (simp add: mcp_endpoint_def)
      then obtain body' where "govern_tools_call (ge_interceptor ge) body (VDict claims) SOURCE
          (opt_str (header_value (gr_headers rq) ''mcp-protocol-version'')) = Inr (pass_through body')"
        "(answer, Some ur) = forward_upstream ge app rq (json_dumps default_style (VDict body'))"
        by (rule governed_callD)
      with tool m b True show ?thesis unfolding may_send_def by (auto simp del: json_dumps.simps)
    next
      case False
      with assms c True m have "(answer, Some ur) = forward_upstream ge app rq (gr_body rq)
          \<and> (\<forall>messages. message = VList messages \<longrightarrow> (\<forall>m \<in> set messages. \<not> is_tools_call m))"
        by (cases message) (auto simp: mcp_endpoint_def list_ex_iff split: if_splits)
      with False m True show ?thesis by (auto simp: may_send_def)
    qed
  qed
  then obtain content where f: "(answer, Some ur) = forward_upstream ge app rq content" "may_send ge rq claims content" by blast
  note sent = forward_upstreamD [OF f(1)]
  have configured: "\<forall>(k, v) \<in> set (ur_headers ur). py_lower k = str ''authorization''
      \<longrightarrow> nonempty (ge_environ ge ''MCP_UPSTREAM_AUTHORIZATION'') = Some v"
    unfolding sent(4) by (auto simp: upstream_authorization)
  have clients: "\<forall>(k, v) \<in> set (ur_headers ur). py_lower k \<noteq> str ''authorization''
      \<longrightarrow> (k, v) \<in> set (gr_headers rq) \<and> py_lower k \<notin> str ` hop_headers"
    unfolding sent(4) using upstream_header_origin authorization_lower by fast
  have kept: "\<forall>k \<in> fst ` set (gr_headers rq). py_lower k \<notin> str ` hop_headers \<longrightarrow> k \<in> fst ` set (ur_headers ur)"
    unfolding sent(4) using upstream_header_kept by blast
  show ?thesis
    by (rule exI [of _ claims]) (intro conjI c sent(2,3) configured clients kept f(2) [folded sent(1)])
qed

lemma gateway_governs_tool_calls_witness:
  "\<exists>answer ur. mcp_endpoint example_gateway example_app (posted call_text) = Inr (answer, Some ur)
     \<and> ur_url ur = str ''http://mcp''"
proof -
  obtain answer ur where e: "mcp_endpoint example_gateway example_app (posted call_text) = Inr (answer, Some ur)"
    by (rule example_posted)
  from gateway_governs_tool_calls [OF e] have "ur_url ur = str ''http://mcp''" by (auto simp: example_app_def)
  with e show ?thesis by blast
qed

end
