(* ===== verification/ClaudeHook.thy ===== *)
theory ClaudeHook
  imports InterceptorFacts Engine
begin

text \<open>
  \<open>integrations/claude_code/axg_pretooluse.py\<close>: the hook that asks AXG before Claude Code runs a tool. The
  network below \<open>urllib\<close>, \<open>uuid4\<close> and the text of an exception are parameters; \<open>main\<close> is a function from the
  text on standard input to the text on standard output.
\<close>

record hook_env =
  ho_environ :: environ
  ho_make_request :: "pystr \<Rightarrow> unit res"
  ho_send :: "pystr \<Rightarrow> int list \<Rightarrow> pystr \<Rightarrow> pyfloat \<Rightarrow> int list res"
  ho_uuid :: pystr
  ho_describe :: "pyexc \<Rightarrow> pystr"

section \<open>The decision request\<close>

definition hook_user :: "environ \<Rightarrow> pystr option" where
  "hook_user env = (case nonempty (env ''USER'') of Some u \<Rightarrow> Some u | None \<Rightarrow> env ''USERNAME'')"

definition decision_request_of :: "hook_env \<Rightarrow> pyval \<Rightarrow> pydict res" where
  "decision_request_of ho event_value =
     (let env = ho_environ ho
      in rmap (\<lambda>event.
        [(str ''execution_id'', VStr (str ''claude-code-'' @ py_str (or_value (dget event ''tool_use_id'') (VStr (ho_uuid ho))))),
         (str ''tenant_id'', VStr (env_get env ''AXG_TENANT_ID'' (str ''local''))),
         (str ''app_id'', VStr (env_get env ''AXG_APP_ID'' (str ''claude-code''))),
         (str ''plugin_id'', VStr (env_get env ''AXG_PLUGIN_ID'' (str ''claude-code''))),
         (str ''user_id'', opt_str (hook_user env)),
         (str ''agent'', VDict
           [(str ''id'', VStr (str ''claude-code:'' @ py_str (or_value (dget event ''agent_type'') (VStr (str ''main''))))),
            (str ''type'', VStr (str ''agent'')), (str ''permissions'', VList [])]),
         (str ''source'', VStr (str ''claude-code'')),
         (str ''action_type'', case map_of event (str ''tool_name'') of None \<Rightarrow> VStr [] | Some v \<Rightarrow> v),
         (str ''payload'', or_dict (dget event ''tool_input'')),
         (str ''llm'', VDict [(str ''confidence'', VFloat (Fin 1))]),
         (str ''metadata'', VDict
           [(str ''flow'', VStr (str ''claude-code:pre_tool_use'')), (str ''session_id'', dget event ''session_id''),
            (str ''cwd'', dget event ''cwd''), (str ''permission_mode'', dget event ''permission_mode'')])])
        (attr_dict event_value))"

section \<open>The decision\<close>

definition hook_ask :: "hook_env \<Rightarrow> pydict \<Rightarrow> pyval res" where
  "hook_ask ho request =
     rbind (environ_item (ho_environ ho) ''AXG_URL'') (\<lambda>base.
       let url = rstrip_char 47 base @ str ''/v1/decisions''
       in rbind (environ_item (ho_environ ho) ''AXG_API_KEY'') (\<lambda>api_key.
         rbind (ho_make_request ho url) (\<lambda>_.
           rbind (float_of_str (env_get (ho_environ ho) ''AXG_TIMEOUT_SECONDS'' (str ''3''))) (\<lambda>timeout.
             rbind (ho_send ho url (json_dumps default_style (VDict request)) (str ''Bearer '' @ api_key) timeout) (\<lambda>bytes.
               rbind (decode_utf8 bytes) json_loads)))))"

definition hook_output :: "string \<Rightarrow> pystr \<Rightarrow> pydict" where
  "hook_output decision why = [(str ''hookSpecificOutput'', VDict
     [(str ''hookEventName'', VStr (str ''PreToolUse'')), (str ''permissionDecision'', VStr (str decision)),
      (str ''permissionDecisionReason'', VStr why)])]"

text \<open>\<open>except (urllib.error.URLError, TimeoutError, ValueError, KeyError)\<close>.\<close>

fun hook_catches :: "pyexc \<Rightarrow> bool" where
  "hook_catches (KeyError _) = True"
| "hook_catches e = is_unavailable e"

definition hook_decide :: "hook_env \<Rightarrow> pyval \<Rightarrow> pydict option res" where
  "hook_decide ho event =
     (case rbind (decision_request_of ho event) (hook_ask ho) of
        Inl e \<Rightarrow>
          if hook_catches e
          then Inr (Some (hook_output
                 (if py_lower (env_get (ho_environ ho) ''AXG_HOOK_FAIL_MODE'' (str ''ask'')) = str ''deny'' then ''deny'' else ''ask'')
                 (str ''AXG could not evaluate this action ('' @ ho_describe ho e @ str ''); a human must decide.'')))
          else Inl e
      | Inr answer \<Rightarrow>
          rmap (\<lambda>axg.
            let verdict = dget axg ''decision'';
                why = str ''AXG '' @ py_str verdict @ str '': ''
                  @ py_str (or_value (dget axg ''reason'') (VStr (str ''no reason given'')))
            in if verdict = VStr (str ''BLOCK'') then Some (hook_output ''deny'' why)
               else if verdict = VStr (str ''ALLOW'')
               then (if py_lower (env_get (ho_environ ho) ''AXG_HOOK_AUTO_ALLOW'' []) = str ''true''
                     then Some (hook_output ''allow'' why) else None)
               else Some (hook_output ''ask'' why))
            (attr_dict answer))"

text \<open>Standard output and the exit code.\<close>

definition hook_main :: "hook_env \<Rightarrow> pystr \<Rightarrow> (pystr \<times> int) res" where
  "hook_main ho stdin =
     rbind (case json_loads (if stdin = [] then str ''{}'' else stdin) of
         Inl e \<Rightarrow> if e = JSONDecodeError then Inr (VDict []) else Inl e
       | Inr event \<Rightarrow> Inr event) (\<lambda>event.
       rmap (\<lambda>result. (case result of None \<Rightarrow> [] | Some out \<Rightarrow> json_dumps default_style (VDict out), 0))
         (hook_decide ho event))"

section \<open>Properties\<close>

text \<open>What the hook tells Claude Code: the permission decision, if any.\<close>

definition permission_of :: "pydict option \<Rightarrow> pystr option" where
  "permission_of result = (case result of None \<Rightarrow> None
     | Some out \<Rightarrow> (case dget out ''hookSpecificOutput'' of
         VDict d \<Rightarrow> (case dget d ''permissionDecision'' of VStr s \<Rightarrow> Some s | _ \<Rightarrow> None) | _ \<Rightarrow> None))"

lemma permission_of_output [simp]: "permission_of (Some (hook_output d why)) = Some (str d)" "permission_of None = None"
  by (simp_all add: permission_of_def hook_output_def dget_def)











end
