(* ===== verification/EndToEnd.thy ===== *)
theory EndToEnd
  imports SdkFacts InterceptorFacts Decisions
begin

text \<open>
  The engine, the interceptor and the tool together: what AXG allowed and the interceptor forwarded, the tool
  accepts.
\<close>

text \<open>A Passport in a response was signed over the response's payload.\<close>

lemma passport_signed:
  assumes "evaluate en mo cache rq c = (Inr rs, cache')" "rs_passport rs = Some token"
  obtains p jti where "rs_passport_id rs = Some jti"
    "sign_decision (en_lib en) (en_keys en) (mo_now mo) (mo_uuid mo) (signing_args p rq (rs_actionable_payload rs) c) = Inr (token, jti)"
  using assms(1)
proof (cases rule: evaluateD)
  case (unavailable m)
  with assms(2) show thesis by simp
next
  case (loaded p)
  obtain verified triggered sc v where rs: "rs = response_of en mo p rq c verified triggered sc v"
    by (rule evaluate_policyD [OF loaded(2)])
  show thesis
    using assms(2) that by (cases rule: response_of_cases [of en mo p rq c verified triggered sc v]) (simp_all add: rs)
qed

text \<open>What the interceptor forwards after an ALLOW reaches the tool in \<open>_meta\<close>.\<close>

definition carries_passport :: "pydict \<Rightarrow> bool" where
  "carries_passport body \<longleftrightarrow> (\<exists>params meta. or_dict (dget body ''params'') = VDict params
     \<and> or_dict (dget params ''_meta'') = VDict meta \<and> truthy (dget meta PASSPORT_META_KEY))"

definition meta_of :: "pydict \<Rightarrow> pydict" where
  "meta_of body = dict_of (dget (dict_of (dget body ''params'')) ''_meta'')"

lemma dget_update [simp]: "dget (AList.update (str k) v d) k = v"
  by (simp add: dget_def dict_simps)

lemma forwarded_meta_of:
  assumes "govern_tools_call ie body claims source pv = Inr (pass_through body')" "\<not> carries_passport body"
    and "build_decision_request ie body claims source = Inr request" "ask_axg ie request = Inr (VDict decision)"
  shows "dget (meta_of body') PASSPORT_META_KEY = dget decision ''passport''"
    "dget (meta_of body') PAYLOAD_META_KEY = or_dict (dget decision ''actionable_payload'')"
proof -
  obtain params meta where g: "or_dict (dget body ''params'') = VDict params" "or_dict (dget params ''_meta'') = VDict meta"
    "if truthy (dget meta PASSPORT_META_KEY) then approved_call ie body params meta pv = Inr (pass_through body')
     else is_refusal body (pass_through body') \<or> (\<exists>request decision. build_decision_request ie body claims source = Inr request
        \<and> ask_axg ie request = Inr (VDict decision) \<and> decided_call ie body params meta decision pv = Inr (pass_through body'))"
    by (rule governD [OF assms(1)])
  with assms(2-4) have "decided_call ie body params meta decision pv = Inr (pass_through body')"
    by (auto simp: carries_passport_def)
  then show "dget (meta_of body') PASSPORT_META_KEY = dget decision ''passport''"
    "dget (meta_of body') PAYLOAD_META_KEY = or_dict (dget decision ''actionable_payload'')"
    by (cases rule: decided_callD; simp add: meta_of_def forwarded_params_only(1) forwarded_meta_keys)+
qed

text \<open>
  C10. End to end: when the engine allowed a request and its answer reaches the interceptor, the call it then
  forwards is accepted by the tool it names, in the app and tenant of the request, for five minutes and once,
  as long as the policy did not change an argument.
\<close>

theorem allowed_tool_call_executes:
  assumes "encode_law (en_lib en)" "round_trip_law (en_lib en)"
    and "derive_public (en_lib en) (km_private (en_keys en)) = Inr (km_public (en_keys en))" "km_public (en_keys en) \<noteq> []"
    and "evaluate en mo cache rq c = (Inr rs, cache')" "rs_passport rs = Some token" "rs_passport_id rs = Some jti"
    and "govern_tools_call ie body claims source pv = Inr (pass_through body')" "\<not> carries_passport body"
    and "build_decision_request ie body claims source = Inr request" "ask_axg ie request = Inr (VDict decision)"
    and "dget decision ''passport'' = VStr token" "dget decision ''actionable_payload'' = VDict (rs_actionable_payload rs)"
    and "tl_meta call = Some (meta_of body')" "tl_tool_name call = rq_action_type rq" "tl_app_id call = rq_app_id rq"
    and "tl_tenant_id call = Some (rq_tenant_id rq)" "ks_public_key (tl_keys call) = Some (km_public (en_keys en))"
    and "list_all (argument_ok (rs_actionable_payload rs) (tl_ignored_arguments call)) (tl_arguments call)"
    and "mo_now mo \<le> now" "now < mo_now mo + 300" "token \<noteq> []" "jti \<noteq> []" "\<not> memory_remembers seen jti cache_now"
  shows "\<exists>claims cache''. verify_mcp_tool_call (en_lib en) make_client memory_check_and_store now cache_now call (Some seen)
      = (Inr claims, cache'') \<and> dget claims ''sub'' = VStr (rq_execution_id rq)"
proof -
  obtain p where sign: "sign_decision (en_lib en) (en_keys en) (mo_now mo) (mo_uuid mo)
      (signing_args p rq (rs_actionable_payload rs) c) = Inr (token, jti)"
    using passport_signed [OF assms(5,6)] assms(7) by (metis option.inject)
  let ?a = "signing_args p rq (rs_actionable_payload rs) c"
  let ?pk = "tool_check call (VStr token) (rs_actionable_payload rs)"
  have payload: "or_dict (VDict (rs_actionable_payload rs)) = VDict (rs_actionable_payload rs)" by (simp add: or_value_def)
  have meta: "dget (or_empty (tl_meta call)) PASSPORT_META_KEY = VStr token"
    "dget (or_empty (tl_meta call)) PAYLOAD_META_KEY = VDict (rs_actionable_payload rs)"
    using forwarded_meta_of [OF assms(8-11)] assms(12-14) payload by (simp_all add: or_empty_def)
  have time: "now < mo_now mo + 60 * da_expires_in_minutes ?a" using assms(21) by (simp add: signing_args_def)
  have pk: "pk_token ?pk = VStr token" "pk_payload ?pk = da_payload ?a" "pk_app_id ?pk = da_app_id ?a"
    "ks_public_key (pk_keys ?pk) = Some (km_public (en_keys en))" "km_public (en_keys en) \<noteq> []"
    "pk_tenant_id ?pk = Some (da_tenant_id ?a) \<or> pk_tenant_id ?pk = None"
    "pk_allowed_action_types ?pk = None \<or> da_action_type ?a \<in> set (or_empty (pk_allowed_action_types ?pk))"
    using assms(4,15-18) by (simp_all add: tool_check_def signing_args_def or_empty_def)
  obtain hash where claims: "passport_claims_of (en_lib en) make_client now ?pk = Inr (passport_dump (passport_of ?a hash (mo_now mo) jti))"
    by (rule signed_claims_accepted [OF assms(1-3) sign assms(20) time pk])
  have "pc_jti (passport_of ?a hash (mo_now mo) jti) = jti" by (simp add: passport_of_def)
  with accept_unseen [OF claims] assms(23,24)
  have "verify_passport (en_lib en) make_client memory_check_and_store now cache_now ?pk (Some seen)
      = (Inr (passport_dump (passport_of ?a hash (mo_now mo) jti)),
         Some (filter (\<lambda>e. cache_now < snd e) seen @ [(VStr jti, pc_exp (passport_of ?a hash (mo_now mo) jti))]))" by simp
  then show ?thesis
    using meta assms(19,22) by (simp add: verify_mcp_tool_call_def Let_def passport_dump_get passport_of_def signing_args_def)
qed

definition example_tool :: tool_call where
  "example_tool = \<lparr>tl_meta = Some (meta_of forwarded_example), tl_tool_name = str ''pay'',
     tl_arguments = [(str ''amount'', VInt 5)], tl_app_id = str ''app'', tl_tenant_id = Some (str ''t1''),
     tl_keys = example_keys_source, tl_ignored_arguments = [str ''axg'']\<rparr>"

lemma allowed_tool_call_executes_witness:
  "\<exists>claims cache''. verify_mcp_tool_call (en_lib example_engine) no_client memory_check_and_store 1299 1299 example_tool (Some [])
     = (Inr claims, cache'') \<and> dget claims ''sub'' = VStr (str ''e1'')"
proof -
  obtain rs cache where e: "evaluate example_engine example_moment [] example_request example_caller = (Inr rs, cache)"
    "rs_passport rs = Some (str ''tok'')" "rs_passport_id rs = Some (str ''u1'')" and payload: "rs_actionable_payload rs = example_payload"
    by (rule example_response)
  have "distinct (map fst example_tokens)" by (simp add: example_tokens_def)
  note laws = example_lib_laws(3,4) [OF this, of "[ticket_of example_approving example_payload_hash 1000 (str ''u1'')]"]
  have l: "encode_law (en_lib example_engine)" "round_trip_law (en_lib example_engine)"
    using laws by (simp_all add: example_engine_def)
  have k: "derive_public (en_lib example_engine) (km_private (en_keys example_engine)) = Inr (km_public (en_keys example_engine))"
    "km_public (en_keys example_engine) \<noteq> []" "ks_public_key (tl_keys example_tool) = Some (km_public (en_keys example_engine))"
    by (simp_all add: example_engine_def example_keys_def str_def example_tool_def example_keys_source_def)
  have "\<exists>request. build_decision_request example_interceptor example_message (VDict []) (str ''mcp_gateway'') = Inr request"
    by (simp add: build_decision_request_def Let_def example_environ interceptor_environ_def environ_item_def
        permissions_of_def example_message_def dget_def or_value_def)
  then obtain request where r: "build_decision_request example_interceptor example_message (VDict []) (str ''mcp_gateway'') = Inr request" ..
  have nc: "\<not> carries_passport example_message"
    by (auto simp: carries_passport_def example_message_def dget_def or_value_def)
  have a: "dget allow_answer ''passport'' = VStr (str ''tok'')"
    "dget allow_answer ''actionable_payload'' = VDict (rs_actionable_payload rs)"
    by (simp_all add: allow_answer_def dget_def payload example_payload_def)
  have t: "tl_meta example_tool = Some (meta_of forwarded_example)" "tl_tool_name example_tool = rq_action_type example_request"
    "tl_app_id example_tool = rq_app_id example_request" "tl_tenant_id example_tool = Some (rq_tenant_id example_request)"
    by (simp_all add: example_tool_def example_request_def)
  have args: "list_all (argument_ok (rs_actionable_payload rs) (tl_ignored_arguments example_tool)) (tl_arguments example_tool)"
    by (simp add: example_tool_def argument_ok_def payload example_payload_def num_eq_def)
  have id: "rq_execution_id example_request = str ''e1''" by (simp add: example_request_def)
  show ?thesis
    using allowed_tool_call_executes [OF l k(1,2) e example_forwarded nc r example_answer a t k(3) args, of 1299 "[]" 1299 no_client]
    by (simp add: example_moment_def memory_remembers_def id)
qed

end
