(* ===== verification/Schemas.thy ===== *)
theory Schemas
  imports AuditChain
begin

text \<open>
  \<open>axg/schemas.py\<close>: the published JSON Schemas, and the check that the committed files are current. The
  schema pydantic derives from a model is a parameter. A directory maps file names to their text, or to the
  error of decoding it; \<open>read_text\<close> translates newlines.
\<close>

section \<open>Rendering\<close>

definition BASE_ID :: pystr where
  "BASE_ID = str ''https://raw.githubusercontent.com/pinheirodps/axg/main/schemas''"

definition CONTRACTS :: "pystr list" where
  "CONTRACTS = map str [''decision_request.v1'', ''decision_response.v1'', ''execution_record.v2'', ''passport_claims.v2'',
     ''plugin_manifest.v1'', ''approval_ticket_claims.v1'', ''approval_request.v1'', ''approval_response.v1'',
     ''approval_record.v1'', ''passport_introspection_request.v1'', ''passport_introspection_response.v1'']"

text \<open>\<open>json.dumps(v, indent=2, sort_keys=True, ensure_ascii=False)\<close>: every item on a line of its own.\<close>

definition line_start :: "nat \<Rightarrow> pystr" where
  "line_start level = 10 # replicate (2 * level) 32"

fun dumps_indent :: "nat \<Rightarrow> pyval \<Rightarrow> pystr"
  and dumps_indent_list :: "nat \<Rightarrow> pyval list \<Rightarrow> pystr list"
  and dumps_indent_items :: "nat \<Rightarrow> pydict \<Rightarrow> (pystr \<times> pystr) list" where
  "dumps_indent level (VList xs) =
     (if xs = [] then str ''[]''
      else [91] @ line_start (level + 1) @ join (44 # line_start (level + 1)) (dumps_indent_list (level + 1) xs)
        @ line_start level @ [93])"
| "dumps_indent level (VDict d) =
     (if d = [] then str ''{}''
      else [123] @ line_start (level + 1)
        @ join (44 # line_start (level + 1)) (map snd (sort_items (dumps_indent_items (level + 1) d)))
        @ line_start level @ [125])"
| "dumps_indent level v = json_dumps audit_style v"
| "dumps_indent_list level [] = []"
| "dumps_indent_list level (x # xs) = dumps_indent level x # dumps_indent_list level xs"
| "dumps_indent_items level [] = []"
| "dumps_indent_items level (kv # d) =
     (fst kv, json_string (fst kv) @ [58, 32] @ dumps_indent level (snd kv)) # dumps_indent_items level d"

type_synonym model_schemas = "pystr \<Rightarrow> pydict"

definition schema_of :: "model_schemas \<Rightarrow> pystr \<Rightarrow> pydict" where
  "schema_of schemas name =
     dmerge [(str ''$schema'', VStr (str ''https://json-schema.org/draft/2020-12/schema'')),
       (str ''$id'', VStr (BASE_ID @ [47] @ name @ str ''.schema.json''))] (schemas name)"

definition render :: "model_schemas \<Rightarrow> pystr \<Rightarrow> pystr" where
  "render schemas name = dumps_indent 0 (VDict (schema_of schemas name)) @ [10]"

section \<open>Files\<close>

type_synonym schema_dir = "pystr \<Rightarrow> pystr res option"

fun universal_newlines :: "pystr \<Rightarrow> pystr" where
  "universal_newlines [] = []"
| "universal_newlines [c] = [if c = 13 then 10 else c]"
| "universal_newlines (c # d # s) =
     (if c = 13 \<and> d = 10 then 10 # universal_newlines s
      else (if c = 13 then 10 else c) # universal_newlines (d # s))"

definition schema_file :: "pystr \<Rightarrow> pystr" where
  "schema_file name = name @ str ''.schema.json''"

definition is_stale :: "model_schemas \<Rightarrow> schema_dir \<Rightarrow> pystr \<Rightarrow> bool res" where
  "is_stale schemas dir name =
     (case dir (schema_file name) of
        None \<Rightarrow> Inr True
      | Some content \<Rightarrow> rmap (\<lambda>t. universal_newlines t \<noteq> render schemas name) content)"

definition stale_schemas :: "model_schemas \<Rightarrow> schema_dir \<Rightarrow> pystr list res" where
  "stale_schemas schemas dir = filterM (is_stale schemas dir) CONTRACTS"

text \<open>A text that cannot be encoded leaves the file it opened empty and ends the loop.\<close>

fun write_files :: "model_schemas \<Rightarrow> pystr list \<Rightarrow> schema_dir \<Rightarrow> unit res \<times> schema_dir" where
  "write_files schemas [] dir = (Inr (), dir)"
| "write_files schemas (name # names) dir =
     (case encode_utf8 (render schemas name) of
        Inl e \<Rightarrow> (Inl e, dir(schema_file name \<mapsto> Inr []))
      | Inr _ \<Rightarrow> write_files schemas names (dir(schema_file name \<mapsto> Inr (render schemas name))))"

definition write_schemas :: "model_schemas \<Rightarrow> schema_dir \<Rightarrow> unit res \<times> schema_dir" where
  "write_schemas schemas dir = write_files schemas CONTRACTS dir"

text \<open>The exit code of \<open>python -m axg.schemas\<close> with these arguments, and the directory it leaves.\<close>

definition schemas_main :: "model_schemas \<Rightarrow> pystr list \<Rightarrow> schema_dir \<Rightarrow> int res \<times> schema_dir" where
  "schemas_main schemas args dir =
     (if str ''--check'' \<in> set args
      then (rmap (\<lambda>stale. if stale = [] then 0 else 1) (stale_schemas schemas dir), dir)
      else (case write_schemas schemas dir of (r, dir') \<Rightarrow> (rmap (\<lambda>_. 0) r, dir')))"

section \<open>Rendered texts have no carriage return\<close>

lemma one_line_no_cr: "one_line s \<Longrightarrow> 13 \<notin> set s"
  by (auto simp: one_line_def list_all_iff is_break_def)

lemma json_escape_no_cr: "0 \<le> c \<Longrightarrow> 13 \<notin> set (json_escape c)"
  using hex_digit_break [of "c div 16"] hex_digit_break [of "c mod 16"]
  by (auto simp: json_escape_def is_break_def)

lemma json_string_no_cr: "wf_str s \<Longrightarrow> 13 \<notin> set (json_string s)"
  using json_escape_no_cr by (auto simp: json_string_def wf_str_def list_all_iff)

lemma join_no_cr: "13 \<notin> set sep \<Longrightarrow> (\<And>p. p \<in> set ps \<Longrightarrow> 13 \<notin> set p) \<Longrightarrow> 13 \<notin> set (join sep ps)"
  by (induction sep ps rule: join.induct) simp_all

lemma line_start_no_cr [simp]: "13 \<notin> set (line_start n)"
  by (simp add: line_start_def)

lemma dumps_indent_list_text: "dumps_indent_list level xs = map (dumps_indent level) xs"
  by (induction xs) simp_all

lemma dumps_indent_items_text: "dumps_indent_items level d
    = map (\<lambda>kv. (fst kv, json_string (fst kv) @ [58, 32] @ dumps_indent level (snd kv))) d"
  by (induction d) simp_all

lemma literals_no_cr: "13 \<notin> set (str ''null'')" "13 \<notin> set (str ''true'')" "13 \<notin> set (str ''false'')"
  "13 \<notin> set (str ''[]'')" "13 \<notin> set (str ''{}'')"
  by (simp_all add: str_def)

lemma dumps_indent_no_cr: "readable v \<Longrightarrow> 13 \<notin> set (dumps_indent level v)"
proof (induction v arbitrary: level)
  case (VInt n)
  have "list_all number_char (int_str n)" using int_str_chars by blast
  then show ?case using number_chars_one_line one_line_no_cr by simp
next
  case (VFloat f)
  then show ?case using float_repr_one_line one_line_no_cr by (auto simp del: float_repr.simps)
next
  case (VStr s)
  then show ?case by (simp add: audit_style_def dumps_string_def json_string_no_cr)
next
  case (VList xs)
  then have "13 \<notin> set (join (44 # line_start (Suc level)) (map (dumps_indent (Suc level)) xs))"
    by (intro join_no_cr) (auto simp: readable_list_iff)
  then show ?case by (simp add: dumps_indent_list_text literals_no_cr)
next
  case (VDict d)
  have "13 \<notin> set (json_string (fst kv) @ [58, 32] @ dumps_indent (Suc level) (snd kv))" if "kv \<in> set d" for kv
    using VDict.IH [OF that, of "snd kv"] VDict.prems that
    by (auto simp: readable_items_iff snds_snd json_string_no_cr)
  then have "13 \<notin> set (join (44 # line_start (Suc level)) (map snd (sort_items (dumps_indent_items (Suc level) d))))"
    by (intro join_no_cr) (auto simp: dumps_indent_items_text sort_items_def)
  then show ?case by (simp add: literals_no_cr)
qed (simp_all add: literals_no_cr)

lemma universal_newlines_id: "13 \<notin> set s \<Longrightarrow> universal_newlines s = s"
  by (induction s rule: universal_newlines.induct) simp_all

lemma render_reads_back:
  assumes "readable (VDict (schema_of schemas name))"
  shows "universal_newlines (render schemas name) = render schemas name"
proof (rule universal_newlines_id)
  show "13 \<notin> set (render schemas name)"
    using dumps_indent_no_cr [OF assms] by (simp add: render_def del: dumps_indent.simps)
qed

section \<open>Properties\<close>

lemma schema_file_inj [simp]: "schema_file a = schema_file b \<longleftrightarrow> a = b"
  by (simp add: schema_file_def)

lemma write_files_others:
  "write_files schemas names dir = (Inr (), dir') \<Longrightarrow> f \<notin> schema_file ` set names \<Longrightarrow> dir' f = dir f"
  by (induction names arbitrary: dir) (auto split: sum.splits)

lemma write_files_written:
  assumes "write_files schemas names dir = (Inr (), dir')" "name \<in> set names"
  shows "dir' (schema_file name) = Some (Inr (render schemas name))"
  using assms
proof (induction names arbitrary: dir)
  case (Cons n names)
  then have w: "write_files schemas names (dir(schema_file n \<mapsto> Inr (render schemas n))) = (Inr (), dir')"
    by (auto split: sum.splits)
  show ?case
  proof (cases "name \<in> set names")
    case True
    with Cons.IH w show ?thesis by blast
  next
    case False
    with Cons.prems have "name = n" by simp
    with False have "schema_file name \<notin> schema_file ` set names" by auto
    with write_files_others [OF w] \<open>name = n\<close> show ?thesis by simp
  qed
qed simp

lemma write_files_total:
  "(\<And>name. name \<in> set names \<Longrightarrow> \<exists>bs. encode_utf8 (render schemas name) = Inr bs)
    \<Longrightarrow> \<exists>dir'. write_files schemas names dir = (Inr (), dir')"
  by (induction names arbitrary: dir) (auto, metis sum.case(2))

text \<open>
  Regenerating the schemas makes them current: after \<open>write_schemas\<close> no schema is stale, every published
  name has exactly its rendered file, and every other file, such as a superseded version, is untouched.
\<close>

theorem written_schemas_are_current:
  assumes "\<And>name. name \<in> set CONTRACTS \<Longrightarrow> readable (VDict (schema_of schemas name))"
    and "\<And>name. name \<in> set CONTRACTS \<Longrightarrow> \<exists>bs. encode_utf8 (render schemas name) = Inr bs"
  shows "\<exists>dir'. write_schemas schemas dir = (Inr (), dir') \<and> stale_schemas schemas dir' = Inr []
    \<and> schemas_main schemas [str ''--check''] dir' = (Inr 0, dir')
    \<and> (\<forall>name \<in> set CONTRACTS. dir' (schema_file name) = Some (Inr (render schemas name)))
    \<and> (\<forall>f. f \<notin> schema_file ` set CONTRACTS \<longrightarrow> dir' f = dir f)"
proof -
  obtain dir' where w: "write_files schemas CONTRACTS dir = (Inr (), dir')"
    using write_files_total [of CONTRACTS schemas dir] assms(2) by blast
  have "is_stale schemas dir' name = Inr False" if "name \<in> set CONTRACTS" for name
    using write_files_written [OF w that] render_reads_back [OF assms(1) [OF that]] by (simp add: is_stale_def)
  then have stale: "stale_schemas schemas dir' = Inr []"
    by (simp add: stale_schemas_def filterM_total [where q = "\<lambda>_. False"])
  then have "schemas_main schemas [str ''--check''] dir' = (Inr 0, dir')" by (simp add: schemas_main_def)
  with w stale write_files_written [OF w] write_files_others [OF w] show ?thesis by (auto simp: write_schemas_def)
qed

lemma written_schemas_are_current_witness:
  "\<exists>dir'. write_schemas (\<lambda>_. []) (\<lambda>_. None) = (Inr (), dir') \<and> stale_schemas (\<lambda>_. []) dir' = Inr []"
proof -
  have "list_all (\<lambda>name. wf_str name \<and> \<not> isl (encode_utf8 (render (\<lambda>_. []) name))) CONTRACTS"
    by code_simp
  then have "wf_str name \<and> \<not> isl (encode_utf8 (render (\<lambda>_. []) name))" if "name \<in> set CONTRACTS" for name
    using that unfolding list_all_iff by blast
  then have n: "wf_str name" "\<exists>bs. encode_utf8 (render (\<lambda>_. []) name) = Inr bs" if "name \<in> set CONTRACTS" for name
    using that sum.collapse(2) by metis+
  have b: "wf_str BASE_ID" "wf_str (str ''.schema.json'')" "wf_str (str ''https://json-schema.org/draft/2020-12/schema'')"
    "wf_str (str ''$id'')" "wf_str (str ''$schema'')" "wf_str [47]"
    by code_simp+
  have "readable (VDict (schema_of (\<lambda>_. []) name))" if "name \<in> set CONTRACTS" for name
    using b n(1) [OF that] by (simp add: schema_of_def dict_ok_def) (simp add: wf_str_def)
  from written_schemas_are_current [OF this n(2)] show ?thesis by blast
qed

end
