(* ===== verification/Cli.thy ===== *)
theory Cli
  imports Telemetry Decisions AuditSink
begin

text \<open>
  \<open>axg/cli.py\<close>: the three commands with their exit codes. Parsing the arguments is \<open>argparse\<close>'s; files and
  the validation of a request by pydantic are parameters. Of the output, the lines on standard output and the
  printed response are kept; \<open>Inl\<close> is an exception that ends the process.
\<close>

datatype cli_file = Missing | Unreadable | Contents "pystr res"

record cli_env =
  ce_engine :: engine_env
  ce_default_dir :: pystr
  ce_default_is_dir :: bool
  ce_file :: "pystr \<Rightarrow> cli_file"
  ce_validate_request :: "pyval \<Rightarrow> decision_request option"
  ce_moment :: moment
  ce_class_name :: "pyexc \<Rightarrow> pystr"

record cli_result =
  cr_exit :: int
  cr_lines :: "pystr list"
  cr_response :: "decision_response option"

definition exit_with :: "int \<Rightarrow> pystr list \<Rightarrow> cli_result" where
  "exit_with code lines = \<lparr>cr_exit = code, cr_lines = lines, cr_response = None\<rparr>"

definition plugins_dir :: "cli_env \<Rightarrow> pystr option \<Rightarrow> pystr option" where
  "plugins_dir ce dir =
     (case nonempty dir of
        Some d \<Rightarrow> Some d
      | None \<Rightarrow> if ce_default_is_dir ce then Some (ce_default_dir ce) else None)"

definition cli_engine :: "cli_env \<Rightarrow> pystr \<Rightarrow> engine_env" where
  "cli_engine ce base = (ce_engine ce)\<lparr>en_loader := (en_loader (ce_engine ce))\<lparr>le_plugins_dir := base\<rparr>\<rparr>"

definition cmd_validate_plugin :: "cli_env \<Rightarrow> pystr \<Rightarrow> pystr option \<Rightarrow> cli_result" where
  "cmd_validate_plugin ce plugin_id dir =
     (case plugins_dir ce dir of
        None \<Rightarrow> exit_with 1 []
      | Some base \<Rightarrow>
          (case load (en_loader (cli_engine ce base)) [] plugin_id of
             (Inl _, _) \<Rightarrow> exit_with 1 []
           | (Inr p, _) \<Rightarrow> exit_with 0
               [str ''Plugin '' @ quoted (pl_plugin p) @ str '' (Version '' @ pl_version p @ str '') is VALID.'',
                str ''Loaded '' @ int_str (int (length (pl_rules p))) @ str '' rules and ''
                  @ int_str (int (length (pl_actions p))) @ str '' actions.'']))"

text \<open>\<open>data["plugin_id"] = args.plugin\<close> and \<open>data["shadow_mode"] = True\<close>.\<close>

fun simulated_data :: "pystr \<Rightarrow> bool \<Rightarrow> pyval \<Rightarrow> pydict res" where
  "simulated_data plugin_id shadow (VDict d) =
     Inr (let d' = AList.update (str ''plugin_id'') (VStr plugin_id) d
          in if shadow then AList.update (str ''shadow_mode'') (VBool True) d' else d')"
| "simulated_data plugin_id shadow _ = Inl TypeError"

definition simulate_request :: "cli_env \<Rightarrow> pystr \<Rightarrow> plugin_cache \<Rightarrow> pydict \<Rightarrow> cli_result" where
  "simulate_request ce base cache data =
     (case ce_validate_request ce (VDict data) of
        None \<Rightarrow> exit_with 1 []
      | Some rq \<Rightarrow>
          (case decide (ce_class_name ce) (cli_engine ce base) (ce_moment ce) cache rq TRUSTED_LOCAL of
             ((Inl _, _), _) \<Rightarrow> exit_with 1 []
           | ((Inr rs, _), _) \<Rightarrow> \<lparr>cr_exit = 0, cr_lines = [], cr_response = Some rs\<rparr>))"

definition cmd_simulate_decision ::
    "cli_env \<Rightarrow> pystr \<Rightarrow> pystr \<Rightarrow> pystr option \<Rightarrow> bool \<Rightarrow> cli_result res" where
  "cmd_simulate_decision ce plugin_id payload dir shadow =
     (case plugins_dir ce dir of
        None \<Rightarrow> Inr (exit_with 1 [])
      | Some base \<Rightarrow>
          if ce_file ce payload = Missing then Inr (exit_with 1 [])
          else (case load (en_loader (cli_engine ce base)) [] plugin_id of
              (Inl (PluginLoadError _), _) \<Rightarrow> Inr (exit_with 1 [])
            | (Inl (Escaped e), _) \<Rightarrow> Inl e
            | (Inr _, cache) \<Rightarrow>
                (case ce_file ce payload of
                   Contents content \<Rightarrow>
                     (case rbind content json_loads of
                        Inl e \<Rightarrow> if e = JSONDecodeError then Inr (exit_with 1 []) else Inl e
                      | Inr v \<Rightarrow> rmap (simulate_request ce base cache) (simulated_data plugin_id shadow v))
                 | _ \<Rightarrow> Inl (OtherError (str ''OSError'')))))"

definition cmd_verify_audit :: "cli_env \<Rightarrow> pystr \<Rightarrow> cli_result res" where
  "cmd_verify_audit ce path =
     (case ce_file ce path of
        Contents content \<Rightarrow>
          rmap (\<lambda>(ok, line). if ok then exit_with 0 [str ''Audit chain INTACT: '' @ path] else exit_with 2 [])
            (rbind content (verify_audit_chain (sha_hex (en_lib (ce_engine ce)))))
      | _ \<Rightarrow> Inr (exit_with 1 []))"

datatype cli_command =
    Validate_plugin pystr "pystr option"
  | Simulate_decision pystr pystr "pystr option" bool
  | Verify_audit pystr

fun async_main :: "cli_env \<Rightarrow> cli_command \<Rightarrow> cli_result res" where
  "async_main ce (Validate_plugin plugin_id dir) = Inr (cmd_validate_plugin ce plugin_id dir)"
| "async_main ce (Simulate_decision plugin_id payload dir shadow) = cmd_simulate_decision ce plugin_id payload dir shadow"
| "async_main ce (Verify_audit path) = cmd_verify_audit ce path"

section \<open>Properties\<close>

text \<open>A shadow evaluation gives no authority.\<close>

lemma shadow_gives_nothing:
  assumes "evaluate en mo cache rq c = (Inr rs, cache')" "rq_shadow_mode rq"
  shows "rs_passport rs = None \<and> rs_passport_id rs = None \<and> rs_approval rs = None"
  using assms(1)
proof (cases rule: evaluateD)
  case (loaded p)
  obtain verified triggered sc v where rs: "rs = response_of en mo p rq c verified triggered sc v"
    by (rule evaluate_policyD [OF loaded(2)])
  have "rs_approval rs = None" using assms(2)
    by (simp add: rs response_of_def wants_approval_def Let_def split: prod.splits)
  then show ?thesis
    using assms(2) by (cases rule: response_of_cases [of en mo p rq c verified triggered sc v]) (simp_all add: rs)
qed simp

lemma simulate_requestD:
  assumes "cr_response (simulate_request ce base cache data) = Some rs"
  obtains rq cache' where "ce_validate_request ce (VDict data) = Some rq"
    "evaluate (cli_engine ce base) (ce_moment ce) cache rq TRUSTED_LOCAL = (Inr rs, cache')"
    "cr_exit (simulate_request ce base cache data) = 0"
  using assms
  by (auto simp: simulate_request_def decide_def exit_with_def split: option.splits prod.splits sum.splits)

text \<open>
  A simulation in shadow mode gives no authority: when pydantic keeps the \<open>shadow_mode\<close> it is given, the
  response \<open>simulate-decision --shadow-mode\<close> prints carries neither a Passport nor an approval ticket, and the
  exit code is 0 exactly when a response is printed.
\<close>

theorem shadow_simulation_is_harmless:
  assumes "\<And>d rq. ce_validate_request ce (VDict d) = Some rq \<Longrightarrow> dget d ''shadow_mode'' = VBool True \<Longrightarrow> rq_shadow_mode rq"
    and "cmd_simulate_decision ce plugin_id payload dir True = Inr r"
  shows "(cr_exit r = 0 \<longleftrightarrow> cr_response r \<noteq> None)
    \<and> (\<forall>rs. cr_response r = Some rs \<longrightarrow> rs_passport rs = None \<and> rs_passport_id rs = None \<and> rs_approval rs = None)"
proof -
  from assms(2) have "r = exit_with 1 [] \<or> (\<exists>base cache data. r = simulate_request ce base cache data
      \<and> dget data ''shadow_mode'' = VBool True)"
  proof (cases "plugins_dir ce dir")
    case (Some base)
    obtain l cache where l: "load (en_loader (cli_engine ce base)) [] plugin_id = (l, cache)" by (metis prod.exhaust)
    show ?thesis
    proof (cases l)
      case (Inl e)
      with assms(2) Some l show ?thesis
        by (cases e) (auto simp: cmd_simulate_decision_def split: if_splits)
    next
      case (Inr p)
      have "dget d ''shadow_mode'' = VBool True" if "simulated_data plugin_id True v = Inr d" for v d
        using that by (cases v) (auto simp: Let_def dget_def dict_simps)
      with assms(2) Some l Inr show ?thesis
        by (fastforce simp: cmd_simulate_decision_def rmap_eq_Inr split: if_splits cli_file.splits sum.splits)
    qed
  qed (simp add: cmd_simulate_decision_def)
  then show ?thesis
  proof (elim disjE exE conjE)
    fix base cache data
    assume r: "r = simulate_request ce base cache data" "dget data ''shadow_mode'' = VBool True"
    show ?thesis
    proof (cases "cr_response r")
      case None
      then have "cr_exit r = 1"
        using r(1) by (auto simp: simulate_request_def exit_with_def split: option.splits prod.splits sum.splits)
      with None show ?thesis by simp
    next
      case (Some rs)
      with r(1) obtain rq cache' where e: "ce_validate_request ce (VDict data) = Some rq"
        "evaluate (cli_engine ce base) (ce_moment ce) cache rq TRUSTED_LOCAL = (Inr rs, cache')" "cr_exit r = 0"
        by (auto elim: simulate_requestD)
      with shadow_gives_nothing [OF e(2) assms(1) [OF e(1) r(2)]] Some show ?thesis by simp
    qed
  qed (simp add: exit_with_def)
qed

end
