(* ===== verification/JsonFuel.thy ===== *)
theory JsonFuel
  imports Json
begin

text \<open>
  The recursion of the JSON parser ends: every scanner leaves no more than it was given, so the fuel that
  \<open>json_loads\<close> starts with is never used up, and any larger amount gives the same result.
\<close>

section \<open>Scanners consume\<close>

definition consumes :: "pystr \<Rightarrow> ('a \<times> pystr) res \<Rightarrow> bool" where
  "consumes s m \<longleftrightarrow> (\<forall>v r. m = Inr (v, r) \<longrightarrow> length r \<le> length s)"

lemma consumesD: "consumes s m \<Longrightarrow> m = Inr (v, r) \<Longrightarrow> length r \<le> length s"
  by (simp add: consumes_def)

lemma consumes_simps [simp]:
  "consumes s (Inl e)" "consumes s (Inr (v, r)) \<longleftrightarrow> length r \<le> length s"
  "consumes s (rmap (\<lambda>(v, r). (f v, r)) m) \<longleftrightarrow> consumes s m"
  by (fastforce simp: consumes_def rmap_eq_Inr)+

lemma consumes_longer: "consumes s m \<Longrightarrow> length s \<le> length t \<Longrightarrow> consumes t m"
  unfolding consumes_def using le_trans by blast

lemma consumes_rbind:
  "(\<And>v r. m = Inr (v, r) \<Longrightarrow> consumes s (f (v, r))) \<Longrightarrow> consumes s (rbind m f)"
  by (cases m) auto

lemma skip_ws_length: "length (skip_ws s) \<le> length s"
  by (simp add: skip_ws_def length_dropWhile_le)

lemma skip_ws_Cons: "skip_ws s = c # r \<Longrightarrow> length r < length s"
  using skip_ws_length [of s] by simp

lemma hex4_length: "hex4 s = Some (u, r) \<Longrightarrow> length r < length s"
  by (cases s rule: hex4.cases) (auto split: option.splits)

lemma low_surrogate_length: "low_surrogate s = Some (u, r) \<Longrightarrow> length r < length s"
  by (auto simp: low_surrogate_def dest: hex4_length split: list.splits if_splits option.splits)

lemma scan_string_consumes: "length s \<le> length t \<Longrightarrow> consumes t (scan_string n s)"
proof (induction n arbitrary: s)
  case (Suc n)
  show ?case
  proof (cases s)
    case (Cons c s1)
    show ?thesis
    proof (cases s1)
      case Nil
      with Cons Suc show ?thesis by simp
    next
      case (Cons e s2)
      have len: "length s2 \<le> length t" "length s1 \<le> length t" using Suc.prems \<open>s = c # s1\<close> Cons by simp_all
      have "consumes t (scan_string n u)" if "hex4 s2 = Some (x, u)" for x u
        using hex4_length [OF that] len(1) by (intro Suc.IH) simp
      moreover have "consumes t (scan_string n u)" if "hex4 s2 = Some (x, v)" "low_surrogate v = Some (y, u)" for x y u v
        using hex4_length [OF that(1)] low_surrogate_length [OF that(2)] len(1) by (intro Suc.IH) simp
      ultimately show ?thesis
        using Suc.IH [OF len(1)] Suc.IH [OF len(2)] \<open>s = c # s1\<close> Cons Suc.prems
        by (auto split: option.split)
    qed
  qed simp
qed simp

lemma take_digits_length: "take_digits s = (ds, r) \<Longrightarrow> length r \<le> length s"
  by (auto simp: take_digits_def length_dropWhile_le)

lemma scan_fraction_length: "scan_fraction s = (ds, r) \<Longrightarrow> length r \<le> length s"
  by (auto simp: scan_fraction_def dest!: take_digits_length split: list.splits if_splits prod.splits)

lemma scan_exponent_length: "scan_exponent s = (ds, r) \<Longrightarrow> length r \<le> length s"
  by (auto simp: scan_exponent_def dest!: take_digits_length split: list.splits if_splits prod.splits)

lemma scan_int_length: "scan_int s = Some (ds, r) \<Longrightarrow> length r \<le> length s"
  by (auto simp: scan_int_def dest!: take_digits_length split: list.splits if_splits)

lemma scan_number_consumes: "consumes s (scan_number s)"
proof -
  obtain sg r0 where 0: "(if s \<noteq> [] \<and> hd s = 45 then ([45 :: int], tl s) else ([], s)) = (sg, r0)" by (metis prod.exhaust)
  then have len: "length r0 \<le> length s" by (auto split: if_splits)
  show ?thesis
  proof (cases "scan_int r0")
    case None
    then show ?thesis unfolding scan_number_def 0 by simp
  next
    case (Some ip_r1)
    obtain ip r1 where 1: "scan_int r0 = Some (ip, r1)" using Some by (cases ip_r1) simp
    obtain fp r2 where 2: "scan_fraction r1 = (fp, r2)" by fastforce
    obtain ep r3 where 3: "scan_exponent r2 = (ep, r3)" by fastforce
    have "length r3 \<le> length s"
      using scan_int_length [OF 1] scan_fraction_length [OF 2] scan_exponent_length [OF 3] len by simp
    then show ?thesis unfolding scan_number_def 0 by (cases "float_of_str (sg @ ip @ fp @ ep)") (simp_all add: 1 2 3)
  qed
qed

lemma scan_constant_length: "scan_constant cs s = Some (v, r) \<Longrightarrow> length r \<le> length s"
  by (induction cs s rule: scan_constant.induct) (auto split: if_splits)

lemma scan_consumes:
  "length s \<le> length t \<Longrightarrow> consumes t (scan_value n s)"
  "length s \<le> length t \<Longrightarrow> consumes t (scan_array n s)"
  "length s \<le> length t \<Longrightarrow> consumes t (scan_object n d s)"
proof (induction n arbitrary: s t d)
  case (Suc n)
  {
    case 1
    show ?case
    proof (cases s)
      case (Cons c r)
      have "consumes t (scan_array n q)" "consumes t (scan_object n [] q)" if "skip_ws r = q" for q
        using skip_ws_length [of r] that Cons 1 by (intro Suc.IH; simp)+
      moreover have "consumes t (scan_string (Suc (length r)) r)" using 1 Cons by (intro scan_string_consumes) simp
      moreover have "consumes t (scan_number s)" using scan_number_consumes 1 by (rule consumes_longer)
      moreover have "length q \<le> length t" if "skip_ws r = e # q" for e q using skip_ws_Cons [OF that] 1 Cons by simp
      ultimately show ?thesis
        using 1 scan_constant_length [of json_constants s] by (auto simp: Cons split: list.split option.split)
    qed simp
  next
    case 2
    show ?case unfolding scan_array.simps
    proof (rule consumes_rbind)
      fix v r
      assume "scan_value n s = Inr (v, r)"
      then have r: "length r \<le> length t" using consumesD [OF Suc.IH(1) [OF 2]] by blast
      have "length q \<le> length t" "consumes t (scan_array n (skip_ws q))" if "skip_ws r = c # q" for c q
        using skip_ws_Cons [OF that] skip_ws_length [of q] r by (simp, intro Suc.IH(2), simp)
      then show "consumes t (case (v, r) of (v, r) \<Rightarrow> (case skip_ws r of [] \<Rightarrow> Inl JSONDecodeError
        | c # r' \<Rightarrow> if c = 93 then Inr ([v], r')
            else if c = 44 then rmap (\<lambda>(vs, r2). (v # vs, r2)) (scan_array n (skip_ws r')) else Inl JSONDecodeError))"
        by (auto split: list.split)
    qed
  next
    case 3
    show ?case unfolding consumes_def
    proof (intro allI impI)
      fix d' u assume eq: "scan_object (Suc n) d s = Inr (d', u)"
      obtain s' where s: "s = 34 # s'" using eq by (cases s) (simp_all split: if_splits)
      obtain k r where sc: "scan_string (Suc (length s')) s' = Inr (k, r)"
        using eq s by (cases "scan_string (Suc (length s')) s'") auto
      obtain r' where c: "skip_ws r = 58 # r'" using eq s sc by (cases "skip_ws r") (simp_all split: if_splits)
      obtain v r2 where sv: "scan_value n (skip_ws r') = Inr (v, r2)"
        using eq s sc c by (cases "scan_value n (skip_ws r')") auto
      obtain e r3 where e: "skip_ws r2 = e # r3" using eq s sc c sv by (cases "skip_ws r2") simp_all
      have "length r \<le> length s'" using scan_string_consumes [of s' s'] sc by (auto dest: consumesD)
      then have "length (skip_ws r') \<le> length t"
        using skip_ws_length [of r'] skip_ws_Cons [OF c] 3 s by simp
      then have "length r2 \<le> length t" using consumesD [OF Suc.IH(1) sv] by blast
      then have r3: "length r3 \<le> length t" "length (skip_ws r3) \<le> length t"
        using skip_ws_Cons [OF e] skip_ws_length [of r3] by simp_all
      have "u = r3 \<or> scan_object n (AList.update k v d) (skip_ws r3) = Inr (d', u)"
        using eq by (simp add: s sc c sv e split: if_splits)
      then show "length u \<le> length t" using r3 consumesD [OF Suc.IH(3) [OF r3(2)]] by blast
    qed
  }
qed simp_all

section \<open>Fuel\<close>

lemma rbind_cong_Inr: "m = m' \<Longrightarrow> (\<And>x. m' = Inr x \<Longrightarrow> f x = g x) \<Longrightarrow> rbind m f = rbind m' g"
  by (cases m') simp_all

lemma scan_string_fuel: "length s < n \<Longrightarrow> n \<le> m \<Longrightarrow> scan_string m s = scan_string n s"
proof (induction n arbitrary: s m)
  case (Suc n)
  then obtain m' where m: "m = Suc m'" "n \<le> m'" by (cases m) simp_all
  show ?case
  proof (cases s)
    case (Cons c s1)
    show ?thesis
    proof (cases s1)
      case Nil
      have "scan_string m' [] = scan_string n []"
        using Suc.prems(1) \<open>s = c # s1\<close> Nil m(2) by (intro Suc.IH) simp_all
      with Nil \<open>s = c # s1\<close> m(1) show ?thesis by simp
    next
      case (Cons e s2)
      have len: "length s1 < n" "length s2 < n" using Suc.prems \<open>s = c # s1\<close> Cons by simp_all
      have "scan_string m' u = scan_string n u" if "hex4 s2 = Some (x, u)" for x u
        using hex4_length [OF that] len m(2) by (intro Suc.IH) simp_all
      moreover have "scan_string m' u = scan_string n u" if "hex4 s2 = Some (x, v)" "low_surrogate v = Some (y, u)" for x y u v
        using hex4_length [OF that(1)] low_surrogate_length [OF that(2)] len m(2) by (intro Suc.IH) simp_all
      ultimately show ?thesis
        using Suc.IH [OF len(1) m(2)] Suc.IH [OF len(2) m(2)] \<open>s = c # s1\<close> Cons m(1)
        by (auto split: option.split)
    qed
  qed (simp add: m)
qed simp

lemma scan_fuel:
  "2 * length s < n \<Longrightarrow> n \<le> m \<Longrightarrow> scan_value m s = scan_value n s"
  "Suc (2 * length s) < n \<Longrightarrow> n \<le> m \<Longrightarrow> scan_array m s = scan_array n s"
  "2 * length s < n \<Longrightarrow> n \<le> m \<Longrightarrow> scan_object m d s = scan_object n d s"
proof (induction n arbitrary: s m d)
  case (Suc n)
  {
    case 1
    then obtain m' where m: "m = Suc m'" "n \<le> m'" by (cases m) simp_all
    show ?case
    proof (cases s)
      case (Cons c r)
      have "scan_array m' q = scan_array n q" "scan_object m' [] q = scan_object n [] q" if "skip_ws r = q" for q
        using skip_ws_length [of r] that Cons 1 m(2) by (intro Suc.IH; simp)+
      then show ?thesis by (cases "skip_ws r") (simp_all add: Cons m(1))
    qed (simp add: m)
  next
    case 2
    then obtain m' where m: "m = Suc m'" "n \<le> m'" by (cases m) simp_all
    show ?case unfolding m(1) scan_array.simps
    proof (rule rbind_cong_Inr)
      show "scan_value m' s = scan_value n s" using 2 m(2) by (intro Suc.IH) simp_all
    next
      fix x
      assume x: "scan_value n s = Inr x"
      obtain v r where vr: "x = (v, r)" by (cases x)
      have r: "length r \<le> length s" using consumesD [OF scan_consumes(1)] x vr by blast
      have "scan_array m' (skip_ws q) = scan_array n (skip_ws q)" if "skip_ws r = c # q" for c q
        using skip_ws_Cons [OF that] skip_ws_length [of q] r 2 m(2) by (intro Suc.IH) simp_all
      then show "(case x of (v, r) \<Rightarrow> (case skip_ws r of [] \<Rightarrow> Inl JSONDecodeError
          | c # r' \<Rightarrow> if c = 93 then Inr ([v], r')
              else if c = 44 then rmap (\<lambda>(vs, r2). (v # vs, r2)) (scan_array m' (skip_ws r')) else Inl JSONDecodeError))
        = (case x of (v, r) \<Rightarrow> (case skip_ws r of [] \<Rightarrow> Inl JSONDecodeError
          | c # r' \<Rightarrow> if c = 93 then Inr ([v], r')
              else if c = 44 then rmap (\<lambda>(vs, r2). (v # vs, r2)) (scan_array n (skip_ws r')) else Inl JSONDecodeError))"
        by (simp add: vr split: list.split)
    qed
  next
    case 3
    then obtain m' where m: "m = Suc m'" "n \<le> m'" by (cases m) simp_all
    show ?case
    proof (cases s)
      case (Cons q s')
      have str: "length r \<le> length s'" if "scan_string (Suc (length s')) s' = Inr (k, r)" for k r
        using scan_string_consumes [of s' s'] that by (auto dest: consumesD)
      have val: "scan_value m' (skip_ws r') = scan_value n (skip_ws r')"
        if "scan_string (Suc (length s')) s' = Inr (k, r)" "skip_ws r = c # r'" for k r c r'
        using str [OF that(1)] skip_ws_Cons [OF that(2)] skip_ws_length [of r'] 3 Cons m(2) by (intro Suc.IH) simp_all
      have rest: "scan_object m' d' (skip_ws r3) = scan_object n d' (skip_ws r3)"
        if "scan_string (Suc (length s')) s' = Inr (k, r)" "skip_ws r = c # r'" "scan_value n (skip_ws r') = Inr (v, r2)"
          "skip_ws r2 = e # r3" for k r c r' v r2 e r3 d'
      proof -
        have "length r2 \<le> length (skip_ws r')" using consumesD [OF scan_consumes(1) that(3)] by blast
        then show ?thesis
          using str [OF that(1)] skip_ws_Cons [OF that(2)] skip_ws_length [of r'] skip_ws_Cons [OF that(4)]
            skip_ws_length [of r3] 3 Cons m(2) by (intro Suc.IH) simp_all
      qed
      show ?thesis
      proof (cases "scan_string (Suc (length s')) s'")
        case (Inr kr)
        obtain k r where kr: "scan_string (Suc (length s')) s' = Inr (k, r)" using Inr by (cases kr) simp
        show ?thesis
        proof (cases "skip_ws r")
          case ws: (Cons c r')
          show ?thesis
          proof (cases "scan_value n (skip_ws r')")
            case (Inr vr)
            obtain v r2 where vr: "scan_value n (skip_ws r') = Inr (v, r2)" using Inr by (cases vr) simp
            show ?thesis
              by (cases "skip_ws r2") (simp_all add: Cons m(1) kr ws val [OF kr ws] vr rest [OF kr ws vr])
          qed (simp add: Cons m(1) kr ws val [OF kr ws])
        qed (simp add: Cons m(1) kr)
      qed (simp add: Cons m(1))
    qed (simp add: m)
  }
qed simp_all

text \<open>What \<open>json_loads\<close> returns does not depend on its fuel: no text runs out of it.\<close>

lemma json_loads_fuel:
  assumes "2 * length s < n"
  shows "json_loads s = (if startswith s [65279] then Inl JSONDecodeError
    else rbind (scan_value n (skip_ws s)) (\<lambda>(v, r). if skip_ws r = [] then Inr v else Inl JSONDecodeError))"
proof -
  have "scan_value n (skip_ws s) = scan_value (Suc (2 * length s)) (skip_ws s)"
    using assms skip_ws_length [of s] by (intro scan_fuel(1)) simp_all
  then show ?thesis by (simp only: json_loads_def)
qed

end
