(* ===== verification/Service.thy ===== *)
theory Service
  imports ApiFacts AuditLog EngineExample
begin

text \<open>
  The running service: its endpoints (\<open>axg/api.py\<close>) interleaved in any order with restarts of the process,
  as a step relation on the state the endpoints share, and what holds of every state they can reach. Between
  two steps the clock, the files under the plugin folder, the DNS and the network may change; the
  configuration may not.
\<close>

section \<open>Steps\<close>

text \<open>What is fixed by the configuration: the environment, the schema of policies, URL parsing and SHA-256.\<close>

definition same_configuration :: "engine_env \<Rightarrow> engine_env \<Rightarrow> bool" where
  "same_configuration base en \<longleftrightarrow> api_environ en = api_environ base
     \<and> le_validate (en_loader en) = le_validate (en_loader base)
     \<and> le_bracket_ok (en_loader en) = le_bracket_ok (en_loader base)
     \<and> sha_hex (en_lib en) = sha_hex (en_lib base)"

text \<open>A process starts with an empty cache, no windows and the sinks of its environment.\<close>

definition booted :: "engine_env \<Rightarrow> (pystr \<Rightarrow> pystr option) \<Rightarrow> api_state" where
  "booted base disk = \<lparr>st_cache = [], st_windows = [], st_audit = make_manager (api_environ base) disk\<rparr>"

definition audit_disk :: "api_state \<Rightarrow> (pystr \<Rightarrow> pystr option)" where
  "audit_disk st = (\<lambda>_. case am_file (st_audit st) of None \<Rightarrow> None | Some sk \<Rightarrow> sk_file sk)"

text \<open>
  A call whose record stays one whole line: the log is text without the line separators that JSON leaves
  unescaped (U+0085, U+2028, U+2029), and a failing append leaves no part of the line. The steps of the service
  are all its calls; those with \<open>whole\<close> are only these.
\<close>

definition whole_line :: "api_call \<Rightarrow> pydict option \<Rightarrow> bool" where
  "whole_line hc event \<longleftrightarrow> (case event of None \<Rightarrow> True
     | Some d \<Rightarrow> event_ok (au_stamp_file (hc_audit hc)) d \<and> clean_io (au_io (hc_audit hc)))"

inductive api_step :: "engine_env \<Rightarrow> bool \<Rightarrow> api_state \<Rightarrow> api_state \<Rightarrow> bool" for base whole where
  decided: "same_configuration base en \<Longrightarrow> create_decision en hc authorization rq st = (r, st', event) \<Longrightarrow>
    (whole \<longrightarrow> whole_line hc event) \<Longrightarrow> api_step base whole st st'"
| submitted: "same_configuration base en \<Longrightarrow> submit_endpoint en hc authorization aq st = (r, st', event) \<Longrightarrow>
    (whole \<longrightarrow> whole_line hc event) \<Longrightarrow> api_step base whole st st'"
| introspected: "same_configuration base en \<Longrightarrow> introspect_endpoint en hc authorization iq st = (r, st') \<Longrightarrow>
    api_step base whole st st'"
| reloaded: "same_configuration base en \<Longrightarrow> reload_plugins en authorization st = (r, st') \<Longrightarrow> api_step base whole st st'"
| restarted: "api_step base whole st (booted base (audit_disk st))"

section \<open>What every state keeps\<close>

definition policy_ok :: "engine_env \<Rightarrow> pystr \<Rightarrow> plugin \<Rightarrow> bool" where
  "policy_ok base i p \<longleftrightarrow> (\<exists>data. le_validate (en_loader base) data = Some p)
     \<and> (if is_remote_id i then remote_enabled (api_environ base) \<and> approved_origin (en_loader base) i else PLUGIN_ID i)"

definition cache_ok :: "engine_env \<Rightarrow> plugin_cache \<Rightarrow> bool" where
  "cache_ok base cache \<longleftrightarrow> (\<forall>i p. map_of cache i = Some p \<longrightarrow> policy_ok base i p)"

definition windows_ok :: "engine_env \<Rightarrow> rate_windows \<Rightarrow> bool" where
  "windows_ok base windows \<longleftrightarrow> (\<forall>c start count. map_of windows c = Some (start, count) \<longrightarrow>
     (\<exists>limit. rate_limit_per_minute (api_environ base) = Inr limit \<and> 0 < count \<and> count \<le> limit))"

definition sinks_ok :: "engine_env \<Rightarrow> audit_manager \<Rightarrow> bool" where
  "sinks_ok base am \<longleftrightarrow> (\<forall>sk. am_file am = Some sk \<longrightarrow> sink_inv (sha_hex (en_lib base)) sk)"

definition audit_text :: "api_state \<Rightarrow> pystr" where
  "audit_text st = (case am_file (st_audit st) of None \<Rightarrow> [] | Some sk \<Rightarrow> file_text (sk_file sk))"

definition audit_path :: "engine_env \<Rightarrow> pystr option" where
  "audit_path base = set_value (api_environ base ''AXG_AUDIT_FILE'')"

definition service_inv :: "engine_env \<Rightarrow> bool \<Rightarrow> api_state \<Rightarrow> bool" where
  "service_inv base whole st \<longleftrightarrow> cache_ok base (st_cache st) \<and> windows_ok base (st_windows st)
     \<and> (whole \<longrightarrow> sinks_ok base (st_audit st)) \<and> (am_file (st_audit st) = None \<longleftrightarrow> audit_path base = None)"

lemma load_uncached_ok:
  assumes "same_configuration base en" "load_uncached (en_loader en) i = Inr p"
  shows "policy_ok base i p"
proof -
  have conf: "api_environ en = api_environ base" "le_validate (en_loader en) = le_validate (en_loader base)"
    "le_bracket_ok (en_loader en) = le_bracket_ok (en_loader base)"
    using assms(1) by (simp_all add: same_configuration_def)
  show ?thesis
  proof (cases "is_remote_id i")
    case True
    with assms(2) have l: "remote_enabled (api_environ en)" "is_allowlisted (le_bracket_ok (en_loader en)) (api_environ en) i"
      "load_remote (en_loader en) i = Inr p" by (auto simp: load_uncached_def split: if_splits)
    obtain data where "le_validate (en_loader en) data = Some p"
      by (rule load_remoteD [OF l(3)], erule remote_pluginD) (auto simp: validated_def rbind_eq_Inr split: option.splits)
    moreover have "approved_origin (en_loader base) i"
      using is_allowlistedD [OF l(2)] conf unfolding approved_origin_def by metis
    ultimately show ?thesis using True l(1) conf by (auto simp: policy_ok_def)
  next
    case False
    with assms(2) have "load_local (en_loader en) i = Inr p" by (simp add: load_uncached_def)
    then obtain content data where "PLUGIN_ID i" "le_validate (en_loader en) data = Some p" by (rule load_localD)
    with False conf show ?thesis by (auto simp: policy_ok_def)
  qed
qed

lemma load_keeps_ok:
  assumes "same_configuration base en" "cache_ok base cache" "load (en_loader en) cache i = (r, cache')"
  shows "cache_ok base cache'"
proof (cases r)
  case (Inl e)
  with assms load_failure show ?thesis by blast
next
  case (Inr p)
  show ?thesis
  proof (cases "map_of cache i")
    case (Some q)
    with assms Inr show ?thesis by (simp add: load_hit)
  next
    case None
    from load_miss [OF None assms(3) [unfolded Inr]] load_uncached_ok [OF assms(1)] assms(2) show ?thesis
      by (simp add: cache_ok_def map_of_update)
  qed
qed

lemma rate_check_keeps_ok:
  assumes "same_configuration base en" "windows_ok base ws" "rate_check (api_environ en) now c ws = (r, ws')"
  shows "windows_ok base ws'"
proof (cases "rate_limit_per_minute (api_environ en)")
  case (Inl e)
  with assms show ?thesis by (simp add: rate_check_def)
next
  case (Inr limit)
  with assms(3) obtain q where w: "check_window limit now c ws = (q, ws')" by (auto simp: rate_check_def split: prod.splits)
  have l: "rate_limit_per_minute (api_environ base) = Inr limit" using Inr assms(1) by (simp add: same_configuration_def)
  show ?thesis
  proof (cases "0 < limit")
    case False
    with w assms(2) show ?thesis by (simp add: check_window_def)
  next
    case True
    have "0 \<le> stored ws (c, window_of now)"
      using assms(2) by (fastforce simp: windows_ok_def stored_def split: option.splits)
    with check_window_step [OF True w] assms(2) l show ?thesis
      by (cases "q = None") (auto simp: windows_ok_def map_of_update)
  qed
qed

lemma record_keeps_ok:
  assumes "same_configuration base en" "sinks_ok base am" "hex_sha (sha_hex (en_lib base))" "event_ok (au_stamp_file au) d"
    "clean_io (au_io au)"
  shows "sinks_ok base (fst (record_decision (sha_hex (en_lib en)) au am d))"
proof -
  have "sink_inv (sha_hex (en_lib base)) (file_record (sha_hex (en_lib base)) (au_io au) (au_stamp_file au) sk d)"
    if "am_file am = Some sk" for sk
    using file_record_step [OF _ assms(3-5)] assms(2) that unfolding sinks_ok_def by metis
  with assms(1) show ?thesis by (auto simp: sinks_ok_def record_decision_def same_configuration_def)
qed

section \<open>The effect of an endpoint\<close>

text \<open>An endpoint loads at most one policy, counts at most one call and records at most one log.\<close>

definition cache_move :: "engine_env \<Rightarrow> plugin_cache \<Rightarrow> plugin_cache \<Rightarrow> bool" where
  "cache_move en cache cache' \<longleftrightarrow> cache' = cache \<or> cache' = [] \<or> (\<exists>i r. load (en_loader en) cache i = (r, cache'))"

definition windows_move :: "engine_env \<Rightarrow> rate_windows \<Rightarrow> rate_windows \<Rightarrow> bool" where
  "windows_move en ws ws' \<longleftrightarrow> ws' = ws \<or> (\<exists>now c r. rate_check (api_environ en) now c ws = (r, ws'))"

definition audit_move :: "engine_env \<Rightarrow> api_call \<Rightarrow> pydict option \<Rightarrow> audit_manager \<Rightarrow> audit_manager \<Rightarrow> bool" where
  "audit_move en hc event am am' \<longleftrightarrow>
     am' = (case event of None \<Rightarrow> am | Some d \<Rightarrow> fst (record_decision (sha_hex (en_lib en)) (hc_audit hc) am d))"

definition endpoint_move :: "engine_env \<Rightarrow> api_call \<Rightarrow> pydict option \<Rightarrow> api_state \<Rightarrow> api_state \<Rightarrow> bool" where
  "endpoint_move en hc event st st' \<longleftrightarrow> cache_move en (st_cache st) (st_cache st')
     \<and> windows_move en (st_windows st) (st_windows st') \<and> audit_move en hc event (st_audit st) (st_audit st')"

lemmas moves = endpoint_move_def cache_move_def windows_move_def audit_move_def

lemma rate_limited_windows:
  assumes "rate_limited en now c st = (r, st')"
  obtains ws where "st' = st\<lparr>st_windows := ws\<rparr>" "windows_move en (st_windows st) ws"
  using assms by (auto simp: rate_limited_def windows_move_def split: prod.splits)

lemma evaluate_cache: "evaluate en mo cache rq c = (r, cache') \<Longrightarrow> \<exists>e. load (en_loader en) cache (rq_plugin_id rq) = (e, cache')"
  by (auto simp: evaluate_def split: prod.splits sum.splits load_error.splits)

lemma submit_cache: "submit en mo cache aq c = (r, cache') \<Longrightarrow> cache_move en cache cache'"
  by (auto simp: submit_def check_policy_def cache_move_def split: prod.splits sum.splits load_error.splits)

lemma create_decision_moves:
  assumes "create_decision en hc authorization rq st = (r, st', event)"
  shows "endpoint_move en hc event st st'"
proof (cases "resolve_caller en authorization")
  case (Inr c)
  note step = assms [unfolded create_decision_def Inr sum.case decide_endpoint_def]
  show ?thesis
  proof (cases "may_act_for c (rq_app_id rq)")
    case True
    obtain lr st1 where l: "rate_limited en (hc_time hc) c st = (lr, st1)" by (cases "rate_limited en (hc_time hc) c st")
    obtain ws where ws: "st1 = st\<lparr>st_windows := ws\<rparr>" "windows_move en (st_windows st) ws"
      by (rule rate_limited_windows [OF l])
    obtain outcome cache' where e: "evaluate en (hc_moment hc) (st_cache st) rq c = (outcome, cache')"
      by (cases "evaluate en (hc_moment hc) (st_cache st) rq c")
    from evaluate_cache [OF e] have "cache_move en (st_cache st) cache'" by (auto simp: cache_move_def)
    with step True l ws e show ?thesis
      by (auto simp: endpoint_move_def audit_move_def decide_def audit_def cache_move_def split: sum.splits)
  qed (use step in \<open>auto simp: moves\<close>)
qed (use assms in \<open>auto simp: create_decision_def moves\<close>)

lemma submit_endpoint_moves:
  assumes "submit_endpoint en hc authorization aq st = (r, st', event)"
  shows "endpoint_move en hc event st st'"
proof (cases "resolve_caller en authorization")
  case (Inr c)
  note step = assms [unfolded submit_endpoint_def Inr sum.case]
  obtain lr st1 where l: "rate_limited en (hc_time hc) c st = (lr, st1)" by (cases "rate_limited en (hc_time hc) c st")
  obtain ws where ws: "st1 = st\<lparr>st_windows := ws\<rparr>" "windows_move en (st_windows st) ws"
    by (rule rate_limited_windows [OF l])
  obtain outcome cache' where e: "submit en (hc_moment hc) (st_cache st) aq c = (outcome, cache')"
    by (cases "submit en (hc_moment hc) (st_cache st) aq c")
  from submit_cache [OF e] step l ws e show ?thesis
    by (auto simp: endpoint_move_def audit_move_def audit_def cache_move_def
        split: sum.splits prod.splits approval_failure.splits)
qed (use assms in \<open>auto simp: submit_endpoint_def moves\<close>)

lemma introspect_endpoint_moves:
  assumes "introspect_endpoint en hc authorization iq st = (r, st')"
  shows "endpoint_move en hc None st st'"
proof (cases "resolve_caller en authorization")
  case (Inr c)
  obtain lr st1 where l: "rate_limited en (hc_time hc) c st = (lr, st1)" by (cases "rate_limited en (hc_time hc) c st")
  obtain ws where "st1 = st\<lparr>st_windows := ws\<rparr>" "windows_move en (st_windows st) ws"
    by (rule rate_limited_windows [OF l])
  with assms Inr l show ?thesis
    by (auto simp: introspect_endpoint_def endpoint_move_def audit_move_def cache_move_def windows_move_def
        split: sum.splits if_splits introspection.splits)
qed (use assms in \<open>auto simp: introspect_endpoint_def moves\<close>)

lemma reload_plugins_moves:
  "reload_plugins en authorization st = (r, st') \<Longrightarrow> endpoint_move en hc None st st'"
  by (auto simp: reload_plugins_def moves clear_cache_def split: option.splits sum.splits if_splits)

section \<open>Every step keeps the invariant\<close>

lemma endpoint_move_inv:
  assumes "same_configuration base en" "endpoint_move en hc event st st'" "whole \<longrightarrow> whole_line hc event"
    and "hex_sha (sha_hex (en_lib base))" "service_inv base whole st"
  shows "service_inv base whole st'"
proof -
  from assms(5) have inv: "cache_ok base (st_cache st)" "windows_ok base (st_windows st)" "whole \<longrightarrow> sinks_ok base (st_audit st)"
    "am_file (st_audit st) = None \<longleftrightarrow> audit_path base = None" by (simp_all add: service_inv_def)
  from assms(2) have m: "cache_move en (st_cache st) (st_cache st')" "windows_move en (st_windows st) (st_windows st')"
    "audit_move en hc event (st_audit st) (st_audit st')" by (simp_all add: endpoint_move_def)
  have "cache_ok base (st_cache st')"
    using m(1) inv(1) load_keeps_ok [OF assms(1) inv(1)] by (auto simp: cache_move_def) (simp add: cache_ok_def)
  moreover have "windows_ok base (st_windows st')"
    using m(2) inv(2) rate_check_keeps_ok [OF assms(1) inv(2)] by (auto simp: windows_move_def)
  moreover have "whole \<longrightarrow> sinks_ok base (st_audit st')"
    using m(3) inv(3) assms(3) record_keeps_ok [OF assms(1) _ assms(4)]
    by (auto simp: audit_move_def whole_line_def split: option.splits)
  moreover have "am_file (st_audit st') = None \<longleftrightarrow> audit_path base = None"
    using m(3) inv(4) by (auto simp: audit_move_def record_decision_def split: option.splits)
  ultimately show ?thesis by (simp add: service_inv_def)
qed

lemma endpoint_move_appends: "endpoint_move en hc event st st' \<Longrightarrow> \<exists>more. audit_text st' = audit_text st @ more"
  using file_record_appends
  by (auto simp: endpoint_move_def audit_move_def audit_text_def record_decision_def split: option.splits)

lemma make_manager_file: "am_file (make_manager env disk) =
    map_option (\<lambda>path. \<lparr>sk_last = VNone, sk_file = disk path\<rparr>) (set_value (env ''AXG_AUDIT_FILE''))"
  by (simp add: make_manager_def)

lemma restart_inv:
  assumes "service_inv base whole st"
  shows "service_inv base whole (booted base (audit_disk st))" "audit_text (booted base (audit_disk st)) = audit_text st"
  using assms
  by (auto simp: service_inv_def booted_def cache_ok_def windows_ok_def sinks_ok_def audit_path_def audit_text_def
      make_manager_file audit_disk_def sink_inv_def split: option.splits)

lemma api_step_move:
  assumes "api_step base whole st st'"
  obtains (endpoint) en hc event where "same_configuration base en" "endpoint_move en hc event st st'" "whole \<longrightarrow> whole_line hc event"
  | (restart) "st' = booted base (audit_disk st)"
  using assms
proof (cases rule: api_step.cases)
  case (introspected en hc authorization iq r)
  with introspect_endpoint_moves show ?thesis by (intro endpoint [of en hc None]) (auto simp: whole_line_def)
next
  case (reloaded en authorization r)
  with reload_plugins_moves [of en authorization st r st' hc for hc] show ?thesis
    by (intro endpoint [of en _ None]) (auto simp: whole_line_def)
qed (use create_decision_moves submit_endpoint_moves endpoint restart in blast)+

lemma api_step_inv:
  assumes "api_step base whole st st'" "hex_sha (sha_hex (en_lib base))" "service_inv base whole st"
  shows "service_inv base whole st' \<and> (\<exists>more. audit_text st' = audit_text st @ more)"
  using assms(1)
proof (cases rule: api_step_move)
  case (endpoint en hc event)
  with endpoint_move_inv [OF endpoint assms(2,3)] endpoint_move_appends show ?thesis by blast
next
  case restart
  with restart_inv [OF assms(3)] show ?thesis by simp
qed

lemma api_run_inv:
  assumes "rtranclp (api_step base whole) st st'" "hex_sha (sha_hex (en_lib base))" "service_inv base whole st"
  shows "service_inv base whole st' \<and> (\<exists>more. audit_text st' = audit_text st @ more)"
  using assms(1)
proof (induction rule: rtranclp_induct)
  case base
  with assms(3) show ?case by simp
next
  case (step s t)
  with api_step_inv [OF step.hyps(2) assms(2)] show ?case by fastforce
qed

lemma booted_inv: "service_inv base whole (booted base (\<lambda>_. None))"
  using new_log_inv [of "sha_hex (en_lib base)"]
  by (auto simp: service_inv_def booted_def cache_ok_def windows_ok_def sinks_ok_def audit_path_def make_manager_file new_log_def)

section \<open>An example run\<close>

definition log_environ :: environ where
  "log_environ = (\<lambda>n. if n = ''AXG_AUTH_MODE'' then Some (str ''optional'')
     else if n = ''AXG_AUDIT_FILE'' then Some (str ''/axg.log'') else None)"

definition log_engine :: engine_env where
  "log_engine = example_engine\<lparr>en_loader := example_env\<lparr>le_environ := log_environ\<rparr>\<rparr>"

definition log_run :: "(http_error + decision_response) \<times> api_state \<times> pydict option" where
  "log_run = create_decision log_engine service_call None example_request (booted log_engine (\<lambda>_. None))"

definition log_state :: api_state where
  "log_state = fst (snd log_run)"

lemma log_run_outcome: "case log_run of (_, st, event) \<Rightarrow>
    whole_line service_call event \<and> map_of (st_cache st) (str ''demo'') = Some example_plugin \<and> audit_text st \<noteq> []"
  by code_simp

lemma log_run_text: "whole_line service_call (snd (snd log_run))"
  and log_state_cached: "map_of (st_cache log_state) (str ''demo'') = Some example_plugin"
  and log_state_written: "audit_text log_state \<noteq> []"
  using log_run_outcome unfolding split_beta log_state_def by blast+

lemma log_engine_sha: "hex_sha (sha_hex (en_lib log_engine))"
proof -
  have "distinct (map fst example_tokens)" by code_simp
  from sha_hex_ok [OF example_lib_laws(1) [OF this]] show ?thesis
    by (simp add: hex_sha_def log_engine_def example_engine_def)
qed

lemma log_run_step: "api_step log_engine whole (booted log_engine (\<lambda>_. None)) log_state"
  by (rule decided [where en = log_engine and hc = service_call and authorization = None and rq = example_request
        and r = "fst log_run" and event = "snd (snd log_run)"])
    (simp_all add: same_configuration_def log_run_text log_state_def log_run_def [symmetric])

section \<open>Properties\<close>

text \<open>
  C7. What the service keeps, over any interleaving of requests and restarts from an empty log: every cached
  policy passed validation and has a safe id or, if remote, an approved origin; no caller's window counts more
  calls than the limit; and what the audit log once held it holds for good. The log also passes the chain
  verification if every recorded call kept its line whole (no U+0085, U+2028 or U+2029 in what it records, no append
  that failed in the middle of the line); otherwise an intact log can fail it.
\<close>

theorem reachable_service_is_sound:
  assumes "hex_sha (sha_hex (en_lib base))"
    and "rtranclp (api_step base whole) (booted base (\<lambda>_. None)) st" "rtranclp (api_step base whole) st st'"
  shows "(\<forall>i p. map_of (st_cache st') i = Some p \<longrightarrow> (\<exists>data. le_validate (en_loader base) data = Some p)
        \<and> (if is_remote_id i then remote_enabled (api_environ base) \<and> approved_origin (en_loader base) i else PLUGIN_ID i))
    \<and> (\<forall>c start count. map_of (st_windows st') c = Some (start, count) \<longrightarrow>
        (\<exists>limit. rate_limit_per_minute (api_environ base) = Inr limit \<and> 0 < count \<and> count \<le> limit))
    \<and> (\<exists>more. audit_text st' = audit_text st @ more)
    \<and> (whole \<longrightarrow> verify_audit_chain (sha_hex (en_lib base)) (audit_text st') = Inr (True, None))"
proof -
  have "service_inv base whole st" using api_run_inv [OF assms(2,1) booted_inv] by blast
  with api_run_inv [OF assms(3,1)] have inv: "service_inv base whole st'" "\<exists>more. audit_text st' = audit_text st @ more"
    by blast+
  have "verify_audit_chain (sha_hex (en_lib base)) (audit_text st') = Inr (True, None)" if whole
    using that inv(1) sink_inv_verifies
    by (auto simp: service_inv_def sinks_ok_def audit_text_def verify_audit_chain_def split_lines_def split: option.splits)
  moreover have "cache_ok base (st_cache st')" "windows_ok base (st_windows st')" using inv(1) by (simp_all add: service_inv_def)
  ultimately show ?thesis using inv(2) unfolding cache_ok_def policy_ok_def windows_ok_def by blast
qed

lemma reachable_service_is_sound_witness:
  "audit_text log_state \<noteq> []
   \<and> verify_audit_chain (sha_hex (en_lib log_engine)) (audit_text (booted log_engine (audit_disk log_state))) = Inr (True, None)
   \<and> (\<exists>data. le_validate example_env data = Some example_plugin)"
proof -
  have run: "rtranclp (api_step log_engine True) (booted log_engine (\<lambda>_. None)) log_state"
    using log_run_step by (rule r_into_rtranclp)
  have restart: "rtranclp (api_step log_engine True) log_state (booted log_engine (audit_disk log_state))"
    using restarted by (rule r_into_rtranclp)
  have "\<exists>data. le_validate (en_loader log_engine) data = Some example_plugin"
    using reachable_service_is_sound [OF log_engine_sha run rtranclp.rtrancl_refl] log_state_cached by blast
  with reachable_service_is_sound [OF log_engine_sha run restart] log_state_written show ?thesis
    by (simp add: log_engine_def)
qed

end
