(* ===== verification/Tracing.thy ===== *)
theory Tracing
  imports ApiFacts "HOL-Library.Sublist"
begin

text \<open>
  The rest of \<open>axg/telemetry.py\<close>: the metric instruments, the set-up of the exporters, and the W3C trace a
  request joins, which links its audit record to the caller's trace. OpenTelemetry is not under the sources: its
  context is of any type, with the operations on it in \<open>otel_context\<close>; attaching a context and detaching its
  token put the previous one back.
\<close>

section \<open>Instruments\<close>

record instrument =
  in_name :: pystr
  in_unit :: pystr
  in_description :: pystr
  in_boundaries :: "pyfloat list"

text \<open>0.5, 1, 2.5, 5, 10, 25, 50, 100, 250 and 500 milliseconds and one second.\<close>

definition DURATION_BUCKETS :: "pyfloat list" where
  "DURATION_BUCKETS = map (\<lambda>n. fl (of_int n / 10000)) [5, 10, 25, 50, 100, 250, 500, 1000, 2500, 5000, 10000]"

definition decisions_counter :: instrument where
  "decisions_counter = \<lparr>in_name = str ''axg.decisions'', in_unit = str ''{decision}'',
     in_description = str ''Decisions returned by AXG.'', in_boundaries = []\<rparr>"

definition rules_counter :: instrument where
  "rules_counter = \<lparr>in_name = str ''axg.rules.triggered'', in_unit = str ''{rule}'',
     in_description = str ''Policy rules that matched a decision request.'', in_boundaries = []\<rparr>"

definition duration_histogram :: instrument where
  "duration_histogram = \<lparr>in_name = str ''axg.decision.duration'', in_unit = str ''s'',
     in_description = str ''Time AXG took to evaluate a decision request.'', in_boundaries = DURATION_BUCKETS\<rparr>"

definition approvals_counter :: instrument where
  "approvals_counter = \<lparr>in_name = str ''axg.approvals'', in_unit = str ''{approval}'',
     in_description = str ''Approval submissions by outcome (approved, denied, rejected).'', in_boundaries = []\<rparr>"

section \<open>Exporters\<close>

text \<open>
  The global providers, each the attributes of its resource; OpenTelemetry lets each be set once. \<open>Resource.create\<close>
  adds its own attributes, which are not kept.
\<close>

record otel_providers =
  op_tracer :: "pydict option"
  op_meter :: "pydict option"

definition otel_resource :: "environ \<Rightarrow> pystr \<Rightarrow> pydict" where
  "otel_resource env axg_version = (str ''service.version'', VStr axg_version)
     # (if nonempty (env ''OTEL_SERVICE_NAME'') = None
           \<and> \<not> sublist (str ''service.name='') (env_get env ''OTEL_RESOURCE_ATTRIBUTES'' [])
        then [(str ''service.name'', VStr (str ''axg''))] else [])"

definition set_once :: "pydict \<Rightarrow> pydict option \<Rightarrow> pydict option" where
  "set_once resource installed = (case installed of None \<Rightarrow> Some resource | Some r \<Rightarrow> Some r)"

definition install_exporters :: "environ \<Rightarrow> bool \<Rightarrow> pystr \<Rightarrow> otel_providers \<Rightarrow> bool \<times> otel_providers" where
  "install_exporters env sdk_importable axg_version op =
     (if configure_from_env env (op_tracer op \<noteq> None) sdk_importable
      then (True, \<lparr>op_tracer = set_once (otel_resource env axg_version) (op_tracer op),
                   op_meter = set_once (otel_resource env axg_version) (op_meter op)\<rparr>)
      else (False, op))"

lemma installed_provider_stays:
  "op_tracer op = Some r \<Longrightarrow> install_exporters env sdk v op = (False, op)"
  by (simp add: install_exporters_def configure_from_env_def)

lemma install_exporters_once:
  "snd (install_exporters env sdk v (snd (install_exporters env sdk v op))) = snd (install_exporters env sdk v op)"
  by (auto simp: install_exporters_def configure_from_env_def set_once_def)

section \<open>Traces\<close>

text \<open>
  \<open>oc_extract\<close> reads the headers into a context, \<open>oc_start\<close> starts a span in it, and \<open>oc_trace\<close> is the trace id of
  its current span if that is valid.
\<close>

record 'ctx otel_context =
  oc_extract :: "(pystr \<times> pystr) list \<Rightarrow> 'ctx"
  oc_start :: "'ctx \<Rightarrow> 'ctx"
  oc_trace :: "'ctx \<Rightarrow> int option"

definition continue_trace :: "'ctx otel_context \<Rightarrow> (pystr \<times> pystr) list \<Rightarrow> ('ctx \<Rightarrow> 'r \<times> 'ctx) \<Rightarrow> 'ctx \<Rightarrow> 'r \<times> 'ctx" where
  "continue_trace oc carrier body ctx =
     (if oc_trace oc ctx \<noteq> None then body ctx
      else (case body (oc_extract oc carrier) of (r, _) \<Rightarrow> (r, ctx)))"

text \<open>The context a request runs in.\<close>

definition joined :: "'ctx otel_context \<Rightarrow> (pystr \<times> pystr) list \<Rightarrow> 'ctx \<Rightarrow> 'ctx" where
  "joined oc carrier ctx = (if oc_trace oc ctx \<noteq> None then ctx else oc_extract oc carrier)"

definition at_trace :: "int option \<Rightarrow> api_call \<Rightarrow> api_call" where
  "at_trace trace hc = hc\<lparr>hc_moment := (hc_moment hc)\<lparr>mo_trace_id := current_trace_id trace\<rparr>\<rparr>"

text \<open>
  The endpoints with their trace: \<open>get_execution_record\<close> runs after the span of the decision has ended, \<open>submit\<close>
  within the span of the approval.
\<close>

definition traced_decision ::
    "'ctx otel_context \<Rightarrow> (pystr \<times> pystr) list \<Rightarrow> engine_env \<Rightarrow> api_call \<Rightarrow> pystr option \<Rightarrow> decision_request \<Rightarrow> api_state \<Rightarrow> 'ctx
       \<Rightarrow> ((http_error + decision_response) \<times> api_state \<times> pydict option) \<times> 'ctx" where
  "traced_decision oc headers en hc authorization rq st =
     continue_trace oc headers (\<lambda>ctx. (create_decision en (at_trace (oc_trace oc ctx) hc) authorization rq st, ctx))"

definition traced_approval ::
    "'ctx otel_context \<Rightarrow> (pystr \<times> pystr) list \<Rightarrow> engine_env \<Rightarrow> api_call \<Rightarrow> pystr option \<Rightarrow> approval_request \<Rightarrow> api_state \<Rightarrow> 'ctx
       \<Rightarrow> ((http_error + approval_response) \<times> api_state \<times> pydict option) \<times> 'ctx" where
  "traced_approval oc headers en hc authorization aq st =
     continue_trace oc headers (\<lambda>ctx. (submit_endpoint en (at_trace (oc_trace oc (oc_start oc ctx)) hc) authorization aq st, ctx))"

lemma continue_trace_context: "(\<And>c. snd (body c) = c) \<Longrightarrow> continue_trace oc carrier body ctx = (fst (body (joined oc carrier ctx)), ctx)"
  by (cases "oc_trace oc ctx") (auto simp: continue_trace_def joined_def split_beta prod_eq_iff)

text \<open>\<open>format(trace_id, "032x")\<close> has 32 digits.\<close>

lemma current_trace_id_length: "current_trace_id trace = Some t \<Longrightarrow> length t = 32"
  by (auto simp: current_trace_id_def hex_bytes_def length_concat comp_def upt_rec)

text \<open>The trace only names the request: it changes no outcome.\<close>

lemma evaluate_at_trace: "evaluate en (mo\<lparr>mo_trace_id := t\<rparr>) cache rq c = evaluate en mo cache rq c"
proof -
  have "after_signing en (mo\<lparr>mo_trace_id := t\<rparr>) = after_signing en mo" by (simp add: fun_eq_iff after_signing_def)
  moreover have "approval_challenge_for en (mo\<lparr>mo_trace_id := t\<rparr>) = approval_challenge_for en mo"
    by (simp add: fun_eq_iff approval_challenge_for_def)
  ultimately have "response_of en (mo\<lparr>mo_trace_id := t\<rparr>) = response_of en mo" by (intro ext) (simp only: response_of_def)
  then have "evaluate_policy en (mo\<lparr>mo_trace_id := t\<rparr>) = evaluate_policy en mo"
    by (intro ext) (simp add: evaluate_policy_def)
  then show ?thesis by (simp only: evaluate_def)
qed

lemma record_at_trace: "get_execution_record en (mo\<lparr>mo_trace_id := t\<rparr>) rq rs
    = rmap (\<lambda>er. er\<lparr>er_trace_id := t\<rparr>) (get_execution_record en mo rq rs)"
  by (cases "hash_payload (en_lib en) (rq_payload rq)") (simp_all add: get_execution_record_def)

lemma at_trace_outcome: "fst (create_decision en (at_trace trace hc) authorization rq st) = fst (create_decision en hc authorization rq st)"
proof (cases "resolve_caller en authorization")
  case (Inr c)
  obtain lr st1 where l: "rate_limited en (hc_time hc) c st = (lr, st1)" by fastforce
  obtain outcome cache' where e: "evaluate en (hc_moment hc) (st_cache st1) rq c = (outcome, cache')" by fastforce
  from Inr l e show ?thesis
    by (cases outcome; cases "get_execution_record en (hc_moment hc) rq (projr outcome)")
      (auto simp: create_decision_def decide_endpoint_def at_trace_def decide_def evaluate_at_trace record_at_trace split: sum.splits)
qed (simp add: create_decision_def)

lemma decision_record_trace:
  assumes "create_decision en hc authorization rq st = (r, st', Some d)"
  shows "dget d ''trace_id'' = opt_str (mo_trace_id (hc_moment hc))"
proof (cases r)
  case (Inl e)
  with assms create_decision_refusal show ?thesis by blast
next
  case (Inr rs)
  with assms obtain er where e: "get_execution_record en (hc_moment hc) rq rs = Inr er" "d = execution_record_dump er"
    by (metis create_decision_answer option.inject)
  then have "er_trace_id er = mo_trace_id (hc_moment hc)" by (auto simp: get_execution_record_def rmap_eq_Inr)
  with e(2) show ?thesis by (simp add: execution_record_dump_def dget_Cons)
qed

lemma submit_record_trace:
  assumes "submit en mo cache aq c = (Inr (answer, al), cache')"
  shows "al_trace_id al = mo_trace_id mo"
  using assms
  by (auto simp: submit_def approval_answer_def rmap_eq_Inr split: prod.splits sum.splits if_splits)

lemma approval_record_trace:
  assumes "submit_endpoint en hc authorization aq st = (r, st', Some d)"
  shows "dget d ''trace_id'' = opt_str (mo_trace_id (hc_moment hc))"
proof -
  obtain c cache answer al cache' where "submit en (hc_moment hc) cache aq c = (Inr (answer, al), cache')"
    "d = approval_record_dump al"
    using assms by (auto simp: submit_endpoint_def split: sum.splits prod.splits approval_failure.splits)
  with submit_record_trace show ?thesis by (force simp: approval_record_dump_def dget_Cons)
qed

section \<open>Properties\<close>

text \<open>A span started within a valid trace belongs to it.\<close>

definition child_law :: "'ctx otel_context \<Rightarrow> bool" where
  "child_law oc \<longleftrightarrow> (\<forall>ctx t. oc_trace oc ctx = Some t \<longrightarrow> oc_trace oc (oc_start oc ctx) = Some t)"

text \<open>
  C23. The audit records of a request are linked to its trace: that of the active span, else the one its headers
  carry. The decision's record names it, or none when there is no trace, and the approval's record names it. The
  decision is the one the endpoint gives without a trace, and the context is afterwards what it was.
\<close>

theorem audit_joins_trace:
  assumes "child_law oc"
    and "traced_decision oc headers en hc authorization rq st ctx = ((r, st1, d), ctx1)"
    and "traced_approval oc headers en hc authorization aq st ctx = ((r', st2, d'), ctx2)"
  shows "ctx1 = ctx \<and> ctx2 = ctx \<and> r = fst (create_decision en hc authorization rq st)
    \<and> (\<forall>entry. d = Some entry \<longrightarrow> dget entry ''trace_id'' = opt_str (current_trace_id (oc_trace oc (joined oc headers ctx))))
    \<and> (\<forall>entry t. d' = Some entry \<and> oc_trace oc (joined oc headers ctx) = Some t \<longrightarrow>
        dget entry ''trace_id'' = opt_str (current_trace_id (Some t)))"
proof -
  let ?c = "joined oc headers ctx"
  from assms(2) have d: "create_decision en (at_trace (oc_trace oc ?c) hc) authorization rq st = (r, st1, d)" "ctx1 = ctx"
    by (auto simp: traced_decision_def continue_trace_context)
  from assms(3) have a: "submit_endpoint en (at_trace (oc_trace oc (oc_start oc ?c)) hc) authorization aq st = (r', st2, d')" "ctx2 = ctx"
    by (auto simp: traced_approval_def continue_trace_context)
  have "dget entry ''trace_id'' = opt_str (current_trace_id (oc_trace oc ?c))" if "d = Some entry" for entry
    using decision_record_trace [OF d(1) [unfolded that]] by (simp add: at_trace_def)
  moreover have "dget entry ''trace_id'' = opt_str (current_trace_id (Some t))"
    if "d' = Some entry" "oc_trace oc ?c = Some t" for entry t
    using approval_record_trace [OF a(1) [unfolded that(1)]] that(2) assms(1) by (simp add: at_trace_def child_law_def)
  moreover have "r = fst (create_decision en hc authorization rq st)" using d(1) by (metis at_trace_outcome fst_conv)
  ultimately show ?thesis using d(2) a(2) by blast
qed

text \<open>A context that is a trace id; the header carries one digit.\<close>

definition digit_context :: "int option otel_context" where
  "digit_context = \<lparr>oc_extract = (\<lambda>hs. case map_of hs (str ''traceparent'') of Some [c] \<Rightarrow> Some (c - 48) | _ \<Rightarrow> None),
     oc_start = (\<lambda>ctx. ctx), oc_trace = (\<lambda>ctx. ctx)\<rparr>"

lemma audit_joins_trace_witness:
  "\<exists>d. snd (snd (fst (traced_decision digit_context [(str ''traceparent'', str ''7'')] service_engine service_call (Some service_key)
       example_request service_state None))) = Some d
     \<and> dget d ''trace_id'' = VStr (str (replicate 31 (CHR ''0'') @ ''7''))"
proof -
  let ?h = "[(str ''traceparent'', str ''7'')]"
  obtain r st1 d ctx1 where run: "traced_decision digit_context ?h service_engine service_call (Some service_key)
       example_request service_state None = ((r, st1, d), ctx1)" by (metis prod.collapse)
  obtain r' st2 d' ctx2 where app: "traced_approval digit_context ?h service_engine service_call (Some service_key)
       undefined service_state None = ((r', st2, d'), ctx2)" by (metis prod.collapse)
  have law: "child_law digit_context" by (simp add: child_law_def digit_context_def)
  have t: "oc_trace digit_context (joined digit_context ?h None) = Some 7"
    by (simp add: joined_def digit_context_def str_def)
  have c: "current_trace_id (Some 7) = Some (str (replicate 31 (CHR ''0'') @ ''7''))" by code_simp
  obtain rs st' event where allowed: "create_decision service_engine service_call (Some service_key) example_request service_state
      = (Inr rs, st', event)" by (rule service_allows)
  have "create_decision service_engine (at_trace (Some 7) service_call) (Some service_key) example_request service_state = (r, st1, d)"
    using run t by (auto simp: traced_decision_def continue_trace_context)
  with allowed have "r = Inr rs"
    using at_trace_outcome [of service_engine "Some 7" service_call "Some service_key" example_request service_state] by simp
  with \<open>create_decision _ _ _ _ _ = (r, st1, d)\<close> have "\<exists>entry. d = Some entry" by (metis create_decision_answer)
  with audit_joins_trace [OF law run app] run t c show ?thesis by (auto simp: opt_str_def)
qed

end
