(* ===== verification/ApprovalQueue.thy ===== *)
theory ApprovalQueue
  imports Json Models
begin

text \<open>
  \<open>examples/approvals/sqlite_approval_queue.py\<close>: the queue of approval tickets. SQLite's table is the list of
  its rows within the one connection; the clock is an argument. The script that uses
  the queue is in \<open>ApprovalFlow\<close>.
\<close>

record queue_row =
  qu_ticket_id :: pystr
  qu_ticket :: pystr
  qu_payload :: pystr
  qu_required_role :: pystr
  qu_expires_at :: int
  qu_status :: pystr

type_synonym queue = "queue_row list"

definition PENDING_STATUS :: pystr where
  "PENDING_STATUS = str ''pending''"

text \<open>A second row with the same primary key is an \<open>sqlite3.IntegrityError\<close>.\<close>

definition queue_add :: "decision_response \<Rightarrow> queue \<Rightarrow> pystr res \<times> queue" where
  "queue_add rs q =
     (case rs_approval rs of
        None \<Rightarrow> (Inl AttributeError, q)
      | Some a \<Rightarrow>
          if ch_ticket_id a \<in> qu_ticket_id ` set q then (Inl (OtherError (str ''IntegrityError'')), q)
          else (Inr (ch_ticket_id a),
            q @ [\<lparr>qu_ticket_id = ch_ticket_id a, qu_ticket = ch_ticket a,
                  qu_payload = json_dumps default_style (VDict (rs_actionable_payload rs)),
                  qu_required_role = ch_required_role a, qu_expires_at = ch_expires_at a, qu_status = PENDING_STATUS\<rparr>]))"

definition queue_pending :: "int \<Rightarrow> queue \<Rightarrow> (pystr \<times> pyval \<times> pystr) list res" where
  "queue_pending now q =
     mapM (\<lambda>r. rmap (\<lambda>payload. (qu_ticket_id r, payload, qu_required_role r)) (json_loads (qu_payload r)))
       (filter (\<lambda>r. qu_status r = PENDING_STATUS \<and> now < qu_expires_at r) q)"

text \<open>\<open>fetchone()\<close> is \<open>None\<close> without a row, which cannot be unpacked.\<close>

definition queue_take :: "pystr \<Rightarrow> queue \<Rightarrow> (pystr \<times> pyval) res" where
  "queue_take ticket_id q =
     (case filter (\<lambda>r. qu_ticket_id r = ticket_id \<and> qu_status r = PENDING_STATUS) q of
        [] \<Rightarrow> Inl TypeError
      | r # _ \<Rightarrow> rmap (Pair (qu_ticket r)) (json_loads (qu_payload r)))"

definition queue_close :: "pystr \<Rightarrow> pystr \<Rightarrow> queue \<Rightarrow> queue" where
  "queue_close ticket_id status q =
     map (\<lambda>r. if qu_ticket_id r = ticket_id then r\<lparr>qu_status := status\<rparr> else r) q"

section \<open>Closed tickets stay closed\<close>

text \<open>One change of the queue by its operations, where a closed ticket gets one of AXG's outcomes.\<close>

inductive queue_step :: "queue \<Rightarrow> queue \<Rightarrow> bool" where
  add: "queue_step q (snd (queue_add rs q))"
| close: "status \<noteq> PENDING_STATUS \<Longrightarrow> queue_step q (queue_close ticket_id status q)"

definition queue_ok :: "queue \<Rightarrow> bool" where
  "queue_ok q \<longleftrightarrow> distinct (map qu_ticket_id q)"

definition is_closed :: "pystr \<Rightarrow> queue \<Rightarrow> bool" where
  "is_closed ticket_id q \<longleftrightarrow> ticket_id \<in> qu_ticket_id ` set q
     \<and> (\<forall>r \<in> set q. qu_ticket_id r = ticket_id \<longrightarrow> qu_status r \<noteq> PENDING_STATUS)"

lemma queue_close_ids: "map qu_ticket_id (queue_close ticket_id status q) = map qu_ticket_id q"
  by (simp add: queue_close_def)

lemma queue_step_ok: "queue_step q q' \<Longrightarrow> queue_ok q \<Longrightarrow> queue_ok q'"
proof (induction rule: queue_step.induct)
  case (add q rs)
  then show ?case by (auto simp: queue_add_def queue_ok_def split: option.splits)
next
  case (close status q ticket_id)
  then show ?case by (simp only: queue_ok_def queue_close_ids)
qed

lemma queue_step_closed: "queue_step q q' \<Longrightarrow> is_closed ticket_id q \<Longrightarrow> is_closed ticket_id q'"
proof (induction rule: queue_step.induct)
  case (add q rs)
  then show ?case by (force simp: queue_add_def is_closed_def split: option.splits)
next
  case (close status q other)
  have "qu_ticket_id ` set (queue_close other status q) = qu_ticket_id ` set q"
    by (simp only: set_map [symmetric] queue_close_ids)
  moreover have "qu_status r \<noteq> PENDING_STATUS" if "r \<in> set (queue_close other status q)" "qu_ticket_id r = ticket_id" for r
    using that close by (auto simp: queue_close_def is_closed_def split: if_splits)
  ultimately show ?case using close.prems by (simp add: is_closed_def)
qed

lemma mapM_member: "mapM f xs = Inr ys \<Longrightarrow> y \<in> set ys \<Longrightarrow> \<exists>x \<in> set xs. f x = Inr y"
  by (induction xs arbitrary: ys) (auto simp: rbind_eq_Inr rmap_eq_Inr)

lemma closed_ticket_is_gone:
  assumes "queue_step\<^sup>*\<^sup>* q q'" "is_closed ticket_id q"
  shows "queue_take ticket_id q' = Inl TypeError
    \<and> (queue_pending now q' = Inr entries \<longrightarrow> ticket_id \<notin> fst ` set entries)"
proof -
  from assms have c: "is_closed ticket_id q'"
    by (induction rule: rtranclp_induct) (auto intro: queue_step_closed)
  then have "filter (\<lambda>r. qu_ticket_id r = ticket_id \<and> qu_status r = PENDING_STATUS) q' = []"
    by (auto simp: is_closed_def filter_empty_conv)
  moreover have "ticket_id \<notin> fst ` set entries" if "queue_pending now q' = Inr entries"
  proof
    assume "ticket_id \<in> fst ` set entries"
    then obtain e where e: "e \<in> set entries" "fst e = ticket_id" by auto
    from mapM_member [OF that [unfolded queue_pending_def] e(1)] obtain r where "r \<in> set q'" "qu_status r = PENDING_STATUS"
      "rmap (\<lambda>payload. (qu_ticket_id r, payload, qu_required_role r)) (json_loads (qu_payload r)) = Inr e" by auto
    with c e(2) show False by (auto simp: is_closed_def rmap_eq_Inr)
  qed
  ultimately show ?thesis by (simp add: queue_take_def)
qed

end
