(* ===== verification/ApprovalFlow.thy ===== *)
theory ApprovalFlow
  imports ApprovalQueue JsonRoundTrip Decisions SdkFacts Telemetry
begin

text \<open>
  The rest of \<open>examples/approvals/sqlite_approval_queue.py\<close>: the script that takes an action from its decision
  over the queue and the approval to the Passport the executor verifies. Clocks and ids are arguments; what it
  prints is not kept, except that reading the claims it prints may raise.
\<close>

section \<open>The queue gives back what it was given\<close>

text \<open>Changes of the queue that leave a ticket alone: any addition, and closing other tickets.\<close>

inductive other_step :: "pystr \<Rightarrow> queue \<Rightarrow> queue \<Rightarrow> bool" for ticket_id where
  added: "other_step ticket_id q (snd (queue_add rs q))"
| closed: "other \<noteq> ticket_id \<Longrightarrow> other_step ticket_id q (queue_close other status q)"

inductive_cases other_stepE: "other_step ticket_id q q'"

lemma queue_addD:
  assumes "queue_add rs q = (Inr ticket_id, q')"
  obtains a where "rs_approval rs = Some a" "ch_ticket_id a = ticket_id" "ticket_id \<notin> qu_ticket_id ` set q"
    "q' = q @ [\<lparr>qu_ticket_id = ticket_id, qu_ticket = ch_ticket a,
       qu_payload = json_dumps default_style (VDict (rs_actionable_payload rs)),
       qu_required_role = ch_required_role a, qu_expires_at = ch_expires_at a, qu_status = PENDING_STATUS\<rparr>]"
  using assms by (auto simp: queue_add_def simp del: json_dumps.simps split: option.splits if_splits)

definition row_of :: "pystr \<Rightarrow> queue \<Rightarrow> queue_row list" where
  "row_of ticket_id q = filter (\<lambda>r. qu_ticket_id r = ticket_id) q"

lemma row_of_added: "row_of ticket_id q = [r] \<Longrightarrow> row_of ticket_id (snd (queue_add rs q)) = [r]"
proof -
  assume r: "row_of ticket_id q = [r]"
  then have "ticket_id \<in> qu_ticket_id ` set q"
    unfolding row_of_def by (metis (mono_tags) filter_eq_ConsD image_eqI in_set_conv_decomp)
  with r show ?thesis by (auto simp: queue_add_def row_of_def split: option.splits)
qed

lemma row_of_closed: "other \<noteq> ticket_id \<Longrightarrow> row_of ticket_id (queue_close other status q) = row_of ticket_id q"
  by (induction q) (auto simp: row_of_def queue_close_def)

lemma row_of_steps: "rtranclp (other_step ticket_id) q q' \<Longrightarrow> row_of ticket_id q = [r] \<Longrightarrow> row_of ticket_id q' = [r]"
  by (induction rule: rtranclp_induct) (auto elim!: other_stepE simp: row_of_added row_of_closed)

lemma take_row: "queue_take ticket_id q = (case filter (\<lambda>r. qu_status r = PENDING_STATUS) (row_of ticket_id q) of
    [] \<Rightarrow> Inl TypeError | r # _ \<Rightarrow> rmap (Pair (qu_ticket r)) (json_loads (qu_payload r)))"
  by (simp add: queue_take_def row_of_def conj_commute)

lemma queued_row:
  assumes "queue_add rs q = (Inr ticket_id, q')" "rtranclp (other_step ticket_id) q' q''"
  obtains a where "rs_approval rs = Some a" "row_of ticket_id q'' = [\<lparr>qu_ticket_id = ticket_id, qu_ticket = ch_ticket a,
       qu_payload = json_dumps default_style (VDict (rs_actionable_payload rs)),
       qu_required_role = ch_required_role a, qu_expires_at = ch_expires_at a, qu_status = PENDING_STATUS\<rparr>]"
proof -
  obtain a where a: "rs_approval rs = Some a" "ticket_id \<notin> qu_ticket_id ` set q"
    "q' = q @ [\<lparr>qu_ticket_id = ticket_id, qu_ticket = ch_ticket a,
       qu_payload = json_dumps default_style (VDict (rs_actionable_payload rs)),
       qu_required_role = ch_required_role a, qu_expires_at = ch_expires_at a, qu_status = PENDING_STATUS\<rparr>]"
    using assms(1) by (rule queue_addD)
  have "filter (\<lambda>r. qu_ticket_id r = ticket_id) q = []" using a(2) by (auto simp: filter_empty_conv)
  then have "row_of ticket_id q' = [\<lparr>qu_ticket_id = ticket_id, qu_ticket = ch_ticket a,
       qu_payload = json_dumps default_style (VDict (rs_actionable_payload rs)),
       qu_required_role = ch_required_role a, qu_expires_at = ch_expires_at a, qu_status = PENDING_STATUS\<rparr>]"
    unfolding a(3) row_of_def by (simp del: json_dumps.simps)
  from row_of_steps [OF assms(2) this] a(1) that show thesis by blast
qed

lemma queued_payload_taken:
  assumes "queue_add rs q = (Inr ticket_id, q')" "rtranclp (other_step ticket_id) q' q''"
    and "readable (VDict (rs_actionable_payload rs))" "surrogate_free (VDict (rs_actionable_payload rs))"
  obtains a where "rs_approval rs = Some a" "queue_take ticket_id q'' = Inr (ch_ticket a, VDict (rs_actionable_payload rs))"
proof -
  obtain a where "rs_approval rs = Some a" "row_of ticket_id q'' = [\<lparr>qu_ticket_id = ticket_id, qu_ticket = ch_ticket a,
       qu_payload = json_dumps default_style (VDict (rs_actionable_payload rs)),
       qu_required_role = ch_required_role a, qu_expires_at = ch_expires_at a, qu_status = PENDING_STATUS\<rparr>]"
    by (rule queued_row [OF assms(1,2)])
  with json_loads_default [OF assms(3,4)] that show thesis by (simp add: take_row del: json_dumps.simps readable.simps)
qed

section \<open>The script\<close>

definition BACKEND :: caller where
  "BACKEND = \<lparr>cl_client_id = str ''my-backend'', cl_authenticated = True, cl_app_ids = {WILDCARD}, cl_permissions = Some {WILDCARD}\<rparr>"

record flow_env =
  fl_engine :: engine_env
  fl_class_name :: "pyexc \<Rightarrow> pystr"
  fl_cache :: plugin_cache
  fl_decided :: moment
  fl_listed :: int
  fl_submitted :: moment
  fl_verified :: int
  fl_replay_time :: int
  fl_make_client :: "pystr \<Rightarrow> jwks_client"

datatype flow_exc = Flow_raised pyexc | Flow_failed approval_failure | Flow_unverified pystr

definition queue_decide :: "flow_env \<Rightarrow> decision_request \<Rightarrow> decision_response res \<times> plugin_cache" where
  "queue_decide fe rq =
     (case decide (fl_class_name fe) (fl_engine fe) (fl_decided fe) (fl_cache fe) rq BACKEND of ((outcome, _), cache') \<Rightarrow>
        (outcome, cache'))"

text \<open>Building the \<open>ApprovalRequest\<close> validates the approver.\<close>

definition invalid :: flow_exc where
  "invalid = Flow_raised (ValueError (str ''ValidationError''))"

definition exchange ::
    "flow_env \<Rightarrow> plugin_cache \<Rightarrow> pystr \<Rightarrow> pydict \<Rightarrow> approver_identity \<Rightarrow> (flow_exc + approval_response) \<times> plugin_cache" where
  "exchange fe cache ticket payload approver =
     (if \<not> approver_ok approver then (Inl invalid, cache)
      else (case submit (fl_engine fe) (fl_submitted fe) cache
             \<lparr>aq_ticket = ticket, aq_actionable_payload = payload, aq_approver = approver, aq_outcome = Approve\<rparr> BACKEND of
          (Inl f, cache') \<Rightarrow> (Inl (Flow_failed f), cache')
        | (Inr (response, _), cache') \<Rightarrow> (Inr response, cache')))"

text \<open>\<open>claims['approval']['approver_id']\<close> and \<open>claims['action_type']\<close>.\<close>

definition executed_action :: "pydict \<Rightarrow> (pyval \<times> pyval) res" where
  "executed_action claims =
     rbind (item claims ''action_type'') (\<lambda>action. rbind (item claims ''approval'') (\<lambda>approval.
       case approval of VDict a \<Rightarrow> rmap (Pair action) (item a ''approver_id'') | _ \<Rightarrow> Inl TypeError))"

definition executor_check :: "flow_env \<Rightarrow> decision_request \<Rightarrow> approval_response \<Rightarrow> passport_check" where
  "executor_check fe rq resp =
     \<lparr>pk_token = opt_str (ar_passport resp), pk_payload = ar_actionable_payload resp, pk_app_id = rq_app_id rq,
      pk_tenant_id = Some (rq_tenant_id rq), pk_allowed_action_types = None,
      pk_keys = \<lparr>ks_public_key = Some (km_public (en_keys (fl_engine fe))), ks_jwks_url = None, ks_signing_key = None,
        ks_jwks_client = None\<rparr>\<rparr>"

definition execute :: "flow_env \<Rightarrow> decision_request \<Rightarrow> approval_response \<Rightarrow> flow_exc + pydict" where
  "execute fe rq resp =
     (case fst (verify_passport (en_lib (fl_engine fe)) (fl_make_client fe) memory_check_and_store (fl_verified fe)
              (fl_replay_time fe) (executor_check fe rq resp) (Some [])) of
        Inl code \<Rightarrow> Inl (Flow_unverified code)
      | Inr claims \<Rightarrow> (case executed_action claims of Inl e \<Rightarrow> Inl (Flow_raised e) | Inr _ \<Rightarrow> Inr claims))"

text \<open>\<open>main\<close>, for any request and approver; a payload that is no object fails the validation of \<open>ApprovalRequest\<close>.\<close>

definition approval_flow :: "flow_env \<Rightarrow> decision_request \<Rightarrow> approver_identity \<Rightarrow> (flow_exc + pydict) \<times> queue" where
  "approval_flow fe rq approver =
     (case queue_decide fe rq of
        (Inl e, _) \<Rightarrow> (Inl (Flow_raised e), [])
      | (Inr rs, cache') \<Rightarrow>
          (case queue_add rs [] of
             (Inl e, q) \<Rightarrow> (Inl (Flow_raised e), q)
           | (Inr ticket_id, q) \<Rightarrow>
               (case rbind (queue_pending (fl_listed fe) q) (\<lambda>_. queue_take ticket_id q) of
                  Inl e \<Rightarrow> (Inl (Flow_raised e), q)
                | Inr (ticket, VDict payload) \<Rightarrow>
                    (case exchange fe cache' ticket payload approver of
                       (Inl e, _) \<Rightarrow> (Inl e, q)
                     | (Inr resp, _) \<Rightarrow> (execute fe rq resp, queue_close ticket_id (ar_outcome resp) q))
                | Inr _ \<Rightarrow> (Inl invalid, q))))"

definition demo_request :: decision_request where
  "demo_request = \<lparr>rq_schema_version = str ''axg.decision_request.v1'', rq_execution_id = str ''expense-42'',
     rq_tenant_id = str ''acme'', rq_app_id = str ''finnorte'', rq_plugin_id = str ''finnorte'', rq_user_id = Some (str ''ana''),
     rq_agent = Some \<lparr>ag_id = str ''expense-agent'', ag_type = str ''agent'', ag_permissions = [str ''expense:create'']\<rparr>,
     rq_source = str ''api'', rq_action_type = str ''create_expense'',
     rq_payload = [(str ''amount'', VInt 5000), (str ''currency'', VStr (str ''EUR''))], rq_context = [], rq_signed_context = [],
     rq_llm = \<lparr>llm_model = None, llm_confidence = fl (95 / 100), llm_raw_output = []\<rparr>, rq_intent = [],
     rq_shadow_mode = False, rq_metadata = []\<rparr>"

definition queue_main :: "flow_env \<Rightarrow> (flow_exc + pydict) \<times> queue" where
  "queue_main fe = approval_flow fe demo_request \<lparr>ap_id = str ''ana'', ap_role = str ''end_user''\<rparr>"

section \<open>The parts of a run\<close>



definition approval_of :: "pystr \<Rightarrow> pydict \<Rightarrow> approver_identity \<Rightarrow> approval_request" where
  "approval_of ticket payload approver =
     \<lparr>aq_ticket = ticket, aq_actionable_payload = payload, aq_approver = approver, aq_outcome = Approve\<rparr>"

lemma approval_of_sel [simp]:
  "aq_ticket (approval_of t d a) = t" "aq_actionable_payload (approval_of t d a) = d" "aq_approver (approval_of t d a) = a"
  "aq_outcome (approval_of t d a) = Approve"
  by (simp_all add: approval_of_def)







section \<open>An example run\<close>

definition flow_request :: decision_request where
  "flow_request = example_request\<lparr>rq_llm := example_doubt\<rparr>"







section \<open>Properties\<close>

text \<open>
  C24. The queue gives back what it was given: as long as a ticket is not closed, and whatever else is queued or
  closed meanwhile, taking it yields the token of the decision's ticket and exactly the payload that was decided.
\<close>

theorem queued_payload_comes_back:
  assumes "queue_add rs q = (Inr ticket_id, q')" "rtranclp (other_step ticket_id) q' q''"
    and "readable (VDict (rs_actionable_payload rs))" "surrogate_free (VDict (rs_actionable_payload rs))"
  shows "\<exists>a. rs_approval rs = Some a \<and> queue_take ticket_id q'' = Inr (ch_ticket a, VDict (rs_actionable_payload rs))"
  by (rule queued_payload_taken [OF assms]) blast

definition queued_response :: decision_response where
  "queued_response = (fail_safe flow_request [])\<lparr>rs_actionable_payload := [(str ''note'', VStr [34, 233, 128512, 10])],
     rs_approval := Some \<lparr>ch_ticket = str ''tik'', ch_ticket_id = str ''u1'', ch_required_role = str ''treasury'', ch_expires_at = 9\<rparr>\<rparr>"

lemma queued_payload_comes_back_witness:
  "queue_take (str ''u1'') (queue_close (str ''other'') (str ''denied'') (snd (queue_add queued_response [])))
     = Inr (str ''tik'', VDict [(str ''note'', VStr [34, 233, 128512, 10])])"
proof -
  let ?q = "snd (queue_add queued_response [])"
  have a: "queue_add queued_response [] = (Inr (str ''u1''), ?q)" by (simp add: queue_add_def queued_response_def del: json_dumps.simps)
  have o: "rtranclp (other_step (str ''u1'')) ?q (queue_close (str ''other'') (str ''denied'') ?q)"
    by (intro r_into_rtranclp closed) (simp add: str_def)
  have r: "readable (VDict (rs_actionable_payload queued_response))" "surrogate_free (VDict (rs_actionable_payload queued_response))"
    by (simp_all add: queued_response_def dict_ok_def str_def wf_str_def is_surrogate_def)
  from queued_payload_comes_back [OF a o r] show ?thesis by (simp add: queued_response_def)
qed



end
