(* ===== verification/WebhookListener.thy ===== *)
theory WebhookListener
  imports Json
begin

text \<open>
  \<open>scripts/webhook_listener.py\<close>: the development endpoint that receives audit logs and prints them. FastAPI's
  reading of the body and rich's console are not under the sources: the body is given parsed or as the exception
  of its parsing, and printing is a function that may raise, for example on the markup of a title.
\<close>

text \<open>\<open>json.dumps(data, indent=2)\<close>: every item on a line of its own, keys in their order.\<close>

definition new_line :: "nat \<Rightarrow> pystr" where
  "new_line level = 10 # replicate (2 * level) 32"

fun indented :: "nat \<Rightarrow> pyval \<Rightarrow> pystr"
  and indented_list :: "nat \<Rightarrow> pyval list \<Rightarrow> pystr list"
  and indented_items :: "nat \<Rightarrow> pydict \<Rightarrow> pystr list" where
  "indented level (VList xs) =
     (if xs = [] then str ''[]''
      else [91] @ new_line (level + 1) @ join (44 # new_line (level + 1)) (indented_list (level + 1) xs) @ new_line level @ [93])"
| "indented level (VDict d) =
     (if d = [] then str ''{}''
      else [123] @ new_line (level + 1) @ join (44 # new_line (level + 1)) (indented_items (level + 1) d) @ new_line level @ [125])"
| "indented level v = json_dumps default_style v"
| "indented_list level [] = []"
| "indented_list level (x # xs) = indented level x # indented_list level xs"
| "indented_items level [] = []"
| "indented_items level (kv # d) =
     (dumps_string True (fst kv) @ str '': '' @ indented level (snd kv)) # indented_items level d"

record panel =
  pn_text :: pystr
  pn_title :: pystr
  pn_subtitle :: pystr
  pn_border :: pystr

definition panel_color :: "pyval \<Rightarrow> pystr" where
  "panel_color decision =
     (if decision = VStr (str ''ALLOW'') then str ''green''
      else if decision = VStr (str ''BLOCK'') then str ''red'' else str ''yellow'')"

definition value_or :: "pydict \<Rightarrow> string \<Rightarrow> string \<Rightarrow> pyval" where
  "value_or d key otherwise = (case map_of d (str key) of None \<Rightarrow> VStr (str otherwise) | Some v \<Rightarrow> v)"

definition panel_of :: "pydict \<Rightarrow> panel" where
  "panel_of d =
     (let decision = value_or d ''decision'' ''UNKNOWN''; color = panel_color decision
      in \<lparr>pn_text = indented 0 (VDict d),
          pn_title = str ''['' @ color @ str '']AXG Audit Received: '' @ py_str decision @ str ''[/]'',
          pn_subtitle = str ''[dim]Execution ID: '' @ py_str (value_or d ''execution_id'' ''N/A'') @ str ''[/]'',
          pn_border = color\<rparr>)"

datatype printed = Panel_printed panel | Error_printed pyexc

text \<open>A body that is no object has no \<open>get\<close>. The message about an error is printed outside any handler.\<close>

definition receive_audit_log :: "pyval res \<Rightarrow> (printed \<Rightarrow> unit res) \<Rightarrow> pydict res" where
  "receive_audit_log body printing =
     (case rbind body (\<lambda>data. case data of VDict d \<Rightarrow> printing (Panel_printed (panel_of d)) | _ \<Rightarrow> Inl AttributeError) of
        Inr _ \<Rightarrow> Inr [(str ''status'', VStr (str ''received''))]
      | Inl e \<Rightarrow> rmap (\<lambda>_. [(str ''status'', VStr (str ''error''))]) (printing (Error_printed e)))"

text \<open>While its error messages print, the listener answers every call, with \<open>received\<close> only for a log it showed.\<close>

lemma listener_answers:
  assumes "\<And>e. printing (Error_printed e) = Inr ()"
  shows "receive_audit_log body printing = Inr [(str ''status'', VStr (str
    (if \<exists>d. body = Inr (VDict d) \<and> printing (Panel_printed (panel_of d)) = Inr () then ''received'' else ''error'')))]"
  using assms by (cases body) (auto simp: receive_audit_log_def split: sum.splits pyval.splits)

lemma panel_color_cases: "panel_color v = str ''green'' \<longleftrightarrow> v = VStr (str ''ALLOW'')"
  "panel_color v = str ''red'' \<longleftrightarrow> v = VStr (str ''BLOCK'')"
  by (auto simp: panel_color_def str_def)

lemma panel_example:
  "pn_text (panel_of [(str ''decision'', VStr (str ''ALLOW'')), (str ''tags'', VList [VInt 1])])
     = str (''{'' @ CHR 0x0A # ''  '' @ CHR 0x22 # ''decision'' @ CHR 0x22 # '': '' @ CHR 0x22 # ''ALLOW'' @ CHR 0x22 # '','' @ CHR 0x0A # ''  ''
        @ CHR 0x22 # ''tags'' @ CHR 0x22 # '': ['' @ CHR 0x0A # ''    1'' @ CHR 0x0A # ''  ]'' @ CHR 0x0A # ''}'')"
  by code_simp

end
